(* ===== verification/Prelude.thy ===== *)
theory Prelude
  imports Main "HOL-Library.Word" "HOL-Library.Char_ord" "HOL-Library.List_Lexorder"
begin

text \<open>
  Shared ground of the development: the machine types of the crate, the outcome of a
  fallible Rust call, Rust's integer addition in both build profiles, arrays of fixed
  length, and the collections of facts the component proofs draw on.
\<close>

named_theorems ok_iffs \<open>when an operation returns Ok, as an equivalence\<close>

section \<open>Machine types\<close>

type_synonym u8 = "8 word"
type_synonym u16 = "16 word"
type_synonym u32 = "32 word"
type_synonym u64 = "64 word"

text \<open>
  The build profile decides what an overflowing integer addition does: \<open>cargo build\<close>
  compiles with overflow checks and panics, \<open>cargo build --release\<close> wraps around.
  \<open>Cargo.toml\<close> has no profile section, so both defaults apply.
\<close>

datatype build = Debug | Release

section \<open>Outcomes\<close>

text \<open>
  A call of a function that returns \<open>Result<T, E>\<close> ends in one of three ways: it returns
  \<open>Ok\<close>, it returns \<open>Err\<close>, or it panics. \<open>and_then\<close> is the question-mark operator: it
  goes on with the value and leaves early with everything else.
\<close>

datatype ('e, 'a) outcome = Ok 'a | Err 'e | Panic

fun and_then :: "('e, 'a) outcome \<Rightarrow> ('a \<Rightarrow> ('e, 'b) outcome) \<Rightarrow> ('e, 'b) outcome" where
  "and_then (Ok x) f = f x"
| "and_then (Err e) f = Err e"
| "and_then Panic f = Panic"

fun is_ok :: "('e, 'a) outcome \<Rightarrow> bool" where
  "is_ok (Ok x) = True"
| "is_ok (Err e) = False"
| "is_ok Panic = False"

fun is_err :: "('e, 'a) outcome \<Rightarrow> bool" where
  "is_err (Ok x) = False"
| "is_err (Err e) = True"
| "is_err Panic = False"

definition ok_or :: "'e \<Rightarrow> 'a option \<Rightarrow> ('e, 'a) outcome" where
  "ok_or e x = (case x of None \<Rightarrow> Err e | Some v \<Rightarrow> Ok v)"

definition map_err :: "('d \<Rightarrow> 'e) \<Rightarrow> 'd + 'a \<Rightarrow> ('e, 'a) outcome" where
  "map_err f r = (case r of Inl d \<Rightarrow> Err (f d) | Inr v \<Rightarrow> Ok v)"

lemma and_then_Ok_iff [ok_iffs]: "and_then r f = Ok y \<longleftrightarrow> (\<exists>x. r = Ok x \<and> f x = Ok y)"
  by (cases r) auto

lemma and_then_Panic_iff: "and_then r f = Panic \<longleftrightarrow> r = Panic \<or> (\<exists>x. r = Ok x \<and> f x = Panic)"
  by (cases r) auto

lemma ok_or_Ok_iff [ok_iffs]: "ok_or e x = Ok v \<longleftrightarrow> x = Some v"
  by (auto simp: ok_or_def split: option.splits)

lemma ok_or_simps [simp]: "ok_or e None = Err e" "ok_or e (Some v) = Ok v"
  by (auto simp: ok_or_def)

lemma map_err_Ok_iff [ok_iffs]: "map_err f r = Ok v \<longleftrightarrow> r = Inr v"
  by (auto simp: map_err_def split: sum.splits)

lemma map_err_simps [simp]: "map_err f (Inl d) = Err (f d)" "map_err f (Inr v) = Ok v"
  by (auto simp: map_err_def)

lemma not_panic_simps [simp]: "ok_or e x \<noteq> Panic" "map_err f r \<noteq> Panic"
  by (auto simp: ok_or_def map_err_def split: option.splits sum.splits)

lemma is_ok_iff: "is_ok r \<longleftrightarrow> (\<exists>x. r = Ok x)"
  by (cases r) auto

lemma is_err_iff: "is_err r \<longleftrightarrow> \<not> is_ok r \<and> r \<noteq> Panic"
  by (cases r) auto

lemma if_Err_eq_Ok [ok_iffs]: "(if b then Err e else r) = Ok v \<longleftrightarrow> \<not> b \<and> r = Ok v"
  by auto

section \<open>Integer addition\<close>

definition add_checked :: "build \<Rightarrow> 'n::len word \<Rightarrow> 'n word \<Rightarrow> ('e, 'n word) outcome" where
  "add_checked bld a b =
     (if unat a + unat b < 2 ^ LENGTH('n) then Ok (a + b)
      else case bld of Debug \<Rightarrow> Panic | Release \<Rightarrow> Ok (a + b))"

lemma add_checked_fits:
  "unat a + unat b < 2 ^ LENGTH('n) \<Longrightarrow> add_checked bld a (b :: 'n::len word) = Ok (a + b)"
  by (simp add: add_checked_def)

lemma add_checked_Ok_value: "add_checked bld a b = Ok c \<Longrightarrow> c = a + b"
  by (auto simp: add_checked_def split: if_splits build.splits)

lemma add_checked_not_Err [simp]: "add_checked bld a b \<noteq> Err e"
  by (auto simp: add_checked_def split: build.splits)

lemma add_checked_Release [simp]: "add_checked Release a b = Ok (a + b)"
  by (simp add: add_checked_def)

lemma add_checked_Debug_Ok:
  "add_checked Debug a b = Ok c \<Longrightarrow> unat c = unat a + unat (b :: 'n::len word)"
  by (auto simp: add_checked_def unat_word_ariths split: if_splits)

lemma unat_bound: "unat (w :: 'n::len word) < 2 ^ LENGTH('n)"
  by (rule unsigned_less)

lemma unat_add_fits:
  "unat a + unat b < 2 ^ LENGTH('n) \<Longrightarrow> unat (a + b) = unat a + unat (b :: 'n::len word)"
  by (simp add: unat_word_ariths)

section \<open>Arrays of fixed length\<close>

text \<open>
  Rust's \<open>[u8; N]\<close>: a byte list whose length is the number in the type, so that a
  32-byte digest or a 12-byte nonce is one by its type. \<open>array_of\<close> is
  \<open>slice.try_into()\<close>, which fails on any other length.
\<close>

typedef (overloaded) 'n bytes = "{xs :: u8 list. length xs = LENGTH('n::len)}"
  morphisms slice_of array_raw
  by (rule exI [of _ "replicate LENGTH('n) 0"]) simp

definition array_pad :: "u8 list \<Rightarrow> 'n::len bytes" where
  "array_pad xs = array_raw (take LENGTH('n) (xs @ replicate LENGTH('n) 0))"

definition array_of :: "u8 list \<Rightarrow> 'n::len bytes option" where
  "array_of xs = (if length xs = LENGTH('n) then Some (array_pad xs) else None)"

lemma length_slice_of [simp]: "length (slice_of (a :: 'n::len bytes)) = LENGTH('n)"
  using slice_of [of a] by simp

lemma slice_of_eq_iff [simp]: "slice_of a = slice_of b \<longleftrightarrow> a = b"
  by (rule slice_of_inject)

lemma slice_of_array_pad:
  "slice_of (array_pad xs :: 'n::len bytes) = take LENGTH('n) (xs @ replicate LENGTH('n) 0)"
  by (simp add: array_pad_def array_raw_inverse)

lemma slice_of_array_pad_exact [simp]:
  "length xs = LENGTH('n) \<Longrightarrow> slice_of (array_pad xs :: 'n::len bytes) = xs"
  by (simp add: slice_of_array_pad)

lemma array_pad_slice_of [simp]: "array_pad (slice_of a) = a"
  by (simp flip: slice_of_eq_iff)

lemma array_of_slice_of [simp]: "array_of (slice_of a) = Some a"
  by (simp add: array_of_def)

lemma array_of_Some_iff: "array_of xs = Some a \<longleftrightarrow> slice_of a = xs"
  by (auto simp: array_of_def split: if_splits)

section \<open>Lists\<close>

text \<open>A separator that occurs in neither left part splits a text in one way only.\<close>

lemma split_at_separator:
  assumes "xs @ c # ys = xs' @ c # ys'" "c \<notin> set xs" "c \<notin> set xs'"
  shows "xs = xs' \<and> ys = ys'"
  using assms
proof (induction xs arbitrary: xs')
  case Nil
  then show ?case by (cases xs') auto
next
  case (Cons x xs)
  then obtain zs where "xs' = x # zs" by (cases xs') auto
  with Cons show ?case by auto
qed

text \<open>Lists with equal images are equal where the function is injective on the elements.\<close>

lemma map_inj_on_list:
  assumes "map f xs = map f ys" "list_all P xs" "list_all P ys"
    and "\<And>x y. f x = f y \<Longrightarrow> P x \<Longrightarrow> P y \<Longrightarrow> x = y"
  shows "xs = ys"
  using assms(1-3)
proof (induction xs arbitrary: ys)
  case (Cons x xs)
  then show ?case by (cases ys) (auto dest: assms(4))
qed simp

text \<open>A sequence of terminated lines is read back line by line.\<close>

lemma concat_lines_inject:
  assumes "concat (map (\<lambda>x. body x @ [c]) xs) = concat (map (\<lambda>x. body x @ [c]) ys)"
    and "\<forall>x\<in>set xs. c \<notin> set (body x)" "\<forall>y\<in>set ys. c \<notin> set (body y)"
  shows "map body xs = map body ys"
  using assms
proof (induction xs arbitrary: ys)
  case Nil
  then show ?case by (cases ys) auto
next
  case (Cons x xs)
  then obtain y ys' where ys: "ys = y # ys'" by (cases ys) auto
  with Cons.prems have "body x @ c # concat (map (\<lambda>x. body x @ [c]) xs) =
      body y @ c # concat (map (\<lambda>x. body x @ [c]) ys')" by simp
  then have "body x = body y \<and>
      concat (map (\<lambda>x. body x @ [c]) xs) = concat (map (\<lambda>x. body x @ [c]) ys')"
    using Cons.prems ys by (intro split_at_separator) auto
  with Cons ys show ?case by auto
qed

text \<open>The same from the right: a separator that occurs in neither right part.\<close>

lemma split_at_last_separator:
  assumes "xs @ c # ys = xs' @ c # ys'" "c \<notin> set ys" "c \<notin> set ys'"
  shows "xs = xs' \<and> ys = ys'"
proof -
  have "rev ys @ c # rev xs = rev ys' @ c # rev xs'"
    using arg_cong [OF assms(1), of rev] by simp
  then show ?thesis
    using split_at_separator [of "rev ys" c "rev xs" "rev ys'" "rev xs'"] assms by simp
qed

text \<open>A stable sort by a key does not change which element of a key comes first.\<close>

lemma find_filter: "find P xs = (case filter P xs of [] \<Rightarrow> None | x # _ \<Rightarrow> Some x)"
  by (induction xs) auto

lemma find_sort_key: "find (\<lambda>x. f x = k) (sort_key f xs) = find (\<lambda>x. f x = k) xs"
  by (simp add: find_filter sort_key_stable)

lemma find_append: "find P (xs @ ys) = (case find P xs of None \<Rightarrow> find P ys | Some x \<Rightarrow> Some x)"
  by (induction xs) auto

lemma find_Some_mem: "find P xs = Some x \<Longrightarrow> x \<in> set xs \<and> P x"
  by (induction xs) (auto split: if_splits)

text \<open>An occurrence that nothing after it overrides, in a sequence one longer.\<close>

lemma last_occurrence_snoc:
  "(\<exists>before later. xs @ [c] = before @ d # later \<and> (\<forall>e\<in>set later. \<not> P e)) \<longleftrightarrow>
     d = c \<or> \<not> P c \<and> (\<exists>before later. xs = before @ d # later \<and> (\<forall>e\<in>set later. \<not> P e))"
    (is "?L \<longleftrightarrow> ?R")
proof
  assume ?L
  then obtain before later where *: "xs @ [c] = before @ d # later" "\<forall>e\<in>set later. \<not> P e" by blast
  show ?R
  proof (cases later rule: rev_cases)
    case Nil
    with * show ?thesis by simp
  next
    case (snoc later' e)
    with * show ?thesis by auto
  qed
next
  assume ?R
  then show ?L
  proof (elim disjE conjE exE)
    assume "d = c"
    then show ?L by (intro exI [of _ xs] exI [of _ "[]"]) simp
  next
    fix before later assume "\<not> P c" "xs = before @ d # later" "\<forall>e\<in>set later. \<not> P e"
    then show ?L by (intro exI [of _ before] exI [of _ "later @ [c]"]) auto
  qed
qed

text \<open>The last element of a stable sort that adds one element to a sorted list.\<close>

lemma last_of_greatest:
  assumes "sorted (map f xs)" "xs \<noteq> []"
  shows "last xs = last (filter (\<lambda>x. f x = f (last xs)) xs)"
  using assms by (cases xs rule: rev_cases) auto

lemma last_sort_key_snoc:
  assumes "sorted (map f xs)"
  shows "last (sort_key f (xs @ [x])) = (if xs \<noteq> [] \<and> f x < f (last xs) then last xs else x)"
proof -
  let ?ys = "sort_key f (xs @ [x])"
  have ne: "?ys \<noteq> []" by (metis append_is_Nil_conv list.distinct(1) set_empty set_sort)
  have sub: "set ?ys = insert x (set xs)" by simp
  have max: "f y \<le> f (last ?ys)" if "y \<in> set ?ys" for y
  proof -
    have "?ys = butlast ?ys @ [last ?ys]" using ne by simp
    then have "sorted (map f (butlast ?ys @ [last ?ys]))" by (metis sorted_sort_key)
    then have "\<forall>z\<in>set (butlast ?ys). f z \<le> f (last ?ys)" by (simp add: sorted_append)
    moreover have "y \<in> set (butlast ?ys) \<or> y = last ?ys"
      using that \<open>?ys = butlast ?ys @ [last ?ys]\<close> by (metis Un_iff empty_iff empty_set set_ConsD set_append)
    ultimately show ?thesis by auto
  qed
  have key: "last ?ys = last (filter (\<lambda>y. f y = f (last ?ys)) (xs @ [x]))"
    using last_of_greatest [of f ?ys] ne sort_key_stable [of f "f (last ?ys)" "xs @ [x]"] by simp
  have below: "f y \<le> f (last xs)" if "y \<in> set xs" for y
    using assms that by (cases xs rule: rev_cases) (auto simp: sorted_append)
  show ?thesis
  proof (cases "xs \<noteq> [] \<and> f x < f (last xs)")
    case True
    then have "f (last ?ys) = f (last xs)"
      using max [of "last xs"] below last_in_set [OF ne] sub by (metis insert_iff last_in_set leD le_less)
    then show ?thesis using key True last_of_greatest [OF assms] by auto
  next
    case False
    then have "f (last ?ys) = f x"
      using max [of x] below last_in_set [OF ne] sub
      by (metis antisym insert_iff length_greater_0_conv length_pos_if_in_set linorder_not_less order_trans)
    then show ?thesis using key False by auto
  qed
qed

section \<open>First failures\<close>

text \<open>
  A list of checks, each with the error it stands for: the first check that fails decides.
  This is the reference the validating operations are compared with.
\<close>

fun first_error :: "(bool \<times> 'e) list \<Rightarrow> ('e, unit) outcome" where
  "first_error [] = Ok ()"
| "first_error ((passed, e) # checks) = (if passed then first_error checks else Err e)"

lemma first_error_append:
  "first_error (xs @ ys) = and_then (first_error xs) (\<lambda>_. first_error ys)"
  by (induction xs rule: first_error.induct) auto

lemma first_error_Ok_iff [ok_iffs]: "first_error checks = Ok () \<longleftrightarrow> list_all fst checks"
  by (induction checks rule: first_error.induct) auto

lemma first_error_not_Panic [simp]: "first_error checks \<noteq> Panic"
  by (induction checks rule: first_error.induct) auto

lemma first_error_Err_iff:
  "first_error checks = Err e \<longleftrightarrow>
     (\<exists>before later. checks = before @ (False, e) # later \<and> list_all fst before)"
proof (induction checks rule: first_error.induct)
  case (2 passed e' checks)
  then show ?case
    by (cases passed) (fastforce simp: Cons_eq_append_conv)+
qed simp

lemma and_then_assoc: "and_then (and_then r f) g = and_then r (\<lambda>x. and_then (f x) g)"
  by (cases r) auto

end
