(* ===== verification/Rust_Text.thy ===== *)
theory Rust_Text
  imports Prelude
begin

text \<open>
  What the crate uses of Rust's strings. A \<open>String\<close> or \<open>&str\<close> is the list of its
  UTF-8 bytes, one HOL character per byte, so that \<open>len\<close>, \<open>as_bytes\<close>, \<open>==\<close> and the
  ordering of strings (bytewise lexicographic, the order of List_Lexorder over Char_ord)
  are Rust's. The theory defines the formatting of integers (\<open>{}\<close>, \<open>{:02x}\<close>,
  \<open>{:016x}\<close>) and booleans, \<open>to_digit(16)\<close>, \<open>to_ascii_lowercase\<close>, \<open>join\<close> and
  \<open>trim().is_empty()\<close>, and proves what makes formatted texts unambiguous.
\<close>

section \<open>Bytes of a string\<close>

definition byte_of :: "char \<Rightarrow> u8" where
  "byte_of c = word_of_nat (of_char c)"

definition as_bytes :: "string \<Rightarrow> u8 list" where
  "as_bytes s = map byte_of s"

lemma unat_byte_of [simp]: "unat (byte_of c) = of_char c"
proof -
  have "(of_char c :: nat) < 256" by simp
  then show ?thesis by (simp add: byte_of_def unat_of_nat)
qed

lemma byte_of_inject [simp]: "byte_of c = byte_of d \<longleftrightarrow> c = d"
  by (metis of_char_eq_iff unat_byte_of)

lemma as_bytes_inject [simp]: "as_bytes s = as_bytes t \<longleftrightarrow> s = t"
  by (simp add: as_bytes_def inj_def)

lemma length_as_bytes [simp]: "length (as_bytes s) = length s"
  by (simp add: as_bytes_def)

lemma as_bytes_append: "as_bytes (s @ t) = as_bytes s @ as_bytes t"
  by (simp add: as_bytes_def)

section \<open>Decimal numbers\<close>

text \<open>\<open>format!("{}", n)\<close> for an unsigned integer: its decimal digits, most significant first.\<close>

definition digit_char :: "nat \<Rightarrow> char" where
  "digit_char d = char_of (48 + d)"

fun decimal :: "nat \<Rightarrow> string" where
  "decimal n = (if n < 10 then [digit_char n] else decimal (n div 10) @ [digit_char (n mod 10)])"

declare decimal.simps [simp del]

definition display :: "'n::len word \<Rightarrow> string" where
  "display w = decimal (unat w)"

definition is_digit :: "char \<Rightarrow> bool" where
  "is_digit c \<longleftrightarrow> 48 \<le> (of_char c :: nat) \<and> (of_char c :: nat) \<le> 57"

lemma of_char_digit_char: "d < 10 \<Longrightarrow> of_char (digit_char d) = 48 + d"
  by (simp add: digit_char_def)

lemma is_digit_digit_char: "d < 10 \<Longrightarrow> is_digit (digit_char d)"
  by (simp add: is_digit_def of_char_digit_char)

lemma decimal_digits: "c \<in> set (decimal n) \<Longrightarrow> is_digit c"
proof (induction n rule: decimal.induct)
  case (1 n)
  then show ?case
    by (subst (asm) (2) decimal.simps) (auto simp: is_digit_digit_char split: if_splits)
qed

text \<open>Reading the digits back gives the number, so two numbers with one text are equal.\<close>

definition read_decimal :: "string \<Rightarrow> nat" where
  "read_decimal s = foldl (\<lambda>a c. 10 * a + (of_char c - 48)) 0 s"

lemma read_decimal_snoc: "read_decimal (s @ [c]) = 10 * read_decimal s + (of_char c - 48)"
  by (simp add: read_decimal_def)

lemma read_decimal_decimal [simp]: "read_decimal (decimal n) = n"
proof (induction n rule: decimal.induct)
  case (1 n)
  show ?case
  proof (cases "n < 10")
    case True
    then show ?thesis
      by (subst decimal.simps) (simp add: read_decimal_def of_char_digit_char)
  next
    case False
    then have "read_decimal (decimal n) = 10 * read_decimal (decimal (n div 10)) + n mod 10"
      by (subst decimal.simps) (simp add: read_decimal_snoc of_char_digit_char)
    with False 1 show ?thesis by simp
  qed
qed

lemma decimal_inject [simp]: "decimal m = decimal n \<longleftrightarrow> m = n"
  by (metis read_decimal_decimal)

lemma display_inject [simp]: "display v = display w \<longleftrightarrow> v = w"
  by (simp add: display_def word_unat_eq_iff)

lemma decimal_nonempty [simp]: "decimal n \<noteq> []"
  by (subst decimal.simps) simp

lemma display_nonempty [simp]: "display w \<noteq> []"
  by (simp add: display_def)

text \<open>The separators of the crate's texts are not digits.\<close>

lemma not_in_decimal: "\<not> is_digit c \<Longrightarrow> c \<notin> set (decimal n)"
  using decimal_digits by blast

lemma not_in_display: "\<not> is_digit c \<Longrightarrow> c \<notin> set (display w)"
  by (simp add: display_def not_in_decimal)

lemma separators_not_digits [simp]:
  "\<not> is_digit (CHR ''|'')" "\<not> is_digit (CHR '','')" "\<not> is_digit (CHR ''.'')"
  "\<not> is_digit (CHR '':'')" "\<not> is_digit (CHR 0x0A)" "\<not> is_digit (CHR ''@'')" "\<not> is_digit (CHR ''-'')"
  by (simp_all add: is_digit_def)

lemma separator_not_in_display [simp]:
  "CHR ''|'' \<notin> set (display w)" "CHR '','' \<notin> set (display w)" "CHR ''.'' \<notin> set (display w)"
  "CHR '':'' \<notin> set (display w)" "CHR 0x0A \<notin> set (display w)"
  by (simp_all add: not_in_display)

definition display_bool :: "bool \<Rightarrow> string" where
  "display_bool b = (if b then ''true'' else ''false'')"

section \<open>Hexadecimal digits\<close>

text \<open>\<open>{:x}\<close> writes lower-case digits; \<open>char::to_digit(16)\<close> reads both cases.\<close>

definition hex_char :: "nat \<Rightarrow> char" where
  "hex_char d = (if d < 10 then char_of (48 + d) else char_of (87 + d))"

definition to_digit16 :: "char \<Rightarrow> nat option" where
  "to_digit16 c =
     (let n = of_char c in
      if 48 \<le> n \<and> n \<le> 57 then Some (n - 48)
      else if 97 \<le> n \<and> n \<le> 102 then Some (n - 87)
      else if 65 \<le> n \<and> n \<le> 70 then Some (n - 55)
      else None)"

definition fmt_02x :: "u8 \<Rightarrow> string" where
  "fmt_02x b = [hex_char (unat b div 16), hex_char (unat b mod 16)]"

definition fmt_016x :: "u64 \<Rightarrow> string" where
  "fmt_016x w = map (\<lambda>i. hex_char (unat w div 16 ^ (15 - i) mod 16)) [0..<16]"

definition is_lower_hex :: "char \<Rightarrow> bool" where
  "is_lower_hex c \<longleftrightarrow>
     (let n = (of_char c :: nat) in 48 \<le> n \<and> n \<le> 57 \<or> 97 \<le> n \<and> n \<le> 102)"

lemma to_digit16_hex_char: "d < 16 \<Longrightarrow> to_digit16 (hex_char d) = Some d"
  by (auto simp: to_digit16_def hex_char_def Let_def)

lemma to_digit16_less: "to_digit16 c = Some d \<Longrightarrow> d < 16"
  by (auto simp: to_digit16_def Let_def split: if_splits)

lemma is_lower_hex_hex_char: "d < 16 \<Longrightarrow> is_lower_hex (hex_char d)"
  by (auto simp: is_lower_hex_def hex_char_def)

lemma hex_char_inject: "d < 16 \<Longrightarrow> e < 16 \<Longrightarrow> hex_char d = hex_char e \<longleftrightarrow> d = e"
  by (metis option.inject to_digit16_hex_char)

lemma length_fmt_016x [simp]: "length (fmt_016x w) = 16"
  by (simp add: fmt_016x_def)

lemma fmt_016x_lower_hex: "c \<in> set (fmt_016x w) \<Longrightarrow> is_lower_hex c"
  by (auto simp: fmt_016x_def is_lower_hex_hex_char)

section \<open>Lower case, joining\<close>

definition to_ascii_lowercase :: "string \<Rightarrow> string" where
  "to_ascii_lowercase s =
     map (\<lambda>c. let n = of_char c in if 65 \<le> n \<and> n \<le> (90::nat) then char_of (n + 32) else c) s"

fun join :: "string \<Rightarrow> string list \<Rightarrow> string" where
  "join sep [] = []"
| "join sep [s] = s"
| "join sep (s # t # ss) = s @ sep @ join sep (t # ss)"

text \<open>Non-empty parts without the separator are read back from the joined text.\<close>

lemma join_inject:
  assumes "join [c] ss = join [c] ts"
    and "\<forall>s\<in>set ss. s \<noteq> [] \<and> c \<notin> set s" "\<forall>t\<in>set ts. t \<noteq> [] \<and> c \<notin> set t"
  shows "ss = ts"
  using assms
proof (induction "[c]" ss arbitrary: ts rule: join.induct)
  case 1
  then show ?case by (cases ts rule: remdups_adj.cases) auto
next
  case (2 s)
  then show ?case by (cases ts rule: remdups_adj.cases) auto
next
  case (3 s s' ss)
  then obtain t t' ts' where ts: "ts = t # t' # ts'"
    by (cases ts rule: remdups_adj.cases) auto
  with 3 have "s @ c # join [c] (s' # ss) = t @ c # join [c] (t' # ts')" by simp
  with 3 ts have "s = t \<and> join [c] (s' # ss) = join [c] (t' # ts')"
    by (intro split_at_separator) auto
  with 3 ts show ?case by auto
qed

lemma set_join: "x \<in> set (join sep ss) \<Longrightarrow> x \<in> set sep \<or> (\<exists>s\<in>set ss. x \<in> set s)"
  by (induction sep ss rule: join.induct) auto

section \<open>Blank strings\<close>

text \<open>
  \<open>s.trim().is_empty()\<close>: \<open>trim\<close> drops the leading and trailing characters with the Unicode
  property \<open>White_Space\<close>, so nothing is left exactly when the characters dropped from the
  left are all of them. \<open>white_len\<close> is the length of the UTF-8 encoding of the white-space
  character the string begins with (0 if it begins with no such character).
\<close>

definition ascii_white :: "char \<Rightarrow> bool" where
  "ascii_white c \<longleftrightarrow> (let n = (of_char c :: nat) in 9 \<le> n \<and> n \<le> 13 \<or> n = 32)"

definition white2 :: "nat \<Rightarrow> nat \<Rightarrow> bool" where
  "white2 a b \<longleftrightarrow> a = 0xC2 \<and> (b = 0x85 \<or> b = 0xA0)"

definition white3 :: "nat \<Rightarrow> nat \<Rightarrow> nat \<Rightarrow> bool" where
  "white3 a b c \<longleftrightarrow>
     a = 0xE1 \<and> b = 0x9A \<and> c = 0x80 \<or>
     a = 0xE2 \<and> b = 0x80 \<and> (0x80 \<le> c \<and> c \<le> 0x8A \<or> c = 0xA8 \<or> c = 0xA9 \<or> c = 0xAF) \<or>
     a = 0xE2 \<and> b = 0x81 \<and> c = 0x9F \<or>
     a = 0xE3 \<and> b = 0x80 \<and> c = 0x80"

fun white_len :: "string \<Rightarrow> nat" where
  "white_len [] = 0"
| "white_len [a] = (if ascii_white a then 1 else 0)"
| "white_len [a, b] =
     (if ascii_white a then 1 else if white2 (of_char a) (of_char b) then 2 else 0)"
| "white_len (a # b # c # s) =
     (if ascii_white a then 1 else if white2 (of_char a) (of_char b) then 2
      else if white3 (of_char a) (of_char b) (of_char c) then 3 else 0)"

function trim_start :: "string \<Rightarrow> string" where
  "trim_start s = (if white_len s = 0 then s else trim_start (drop (white_len s) s))"
  by pat_completeness auto
termination
proof (relation "measure length")
  fix s :: string
  assume "white_len s \<noteq> 0"
  then show "(drop (white_len s) s, s) \<in> measure length"
    by (cases s) auto
qed simp

declare trim_start.simps [simp del]

definition trim_is_empty :: "string \<Rightarrow> bool" where
  "trim_is_empty s \<longleftrightarrow> trim_start s = []"

lemma trim_is_empty_Nil [simp]: "trim_is_empty []"
  by (simp add: trim_is_empty_def trim_start.simps)

lemma white_len_ascii: "ascii_white c \<Longrightarrow> white_len (c # s) = 1"
  by (cases s rule: remdups_adj.cases) (auto simp: neq_Nil_conv)

lemma white_len_visible:
  assumes "\<not> ascii_white c" "of_char c < (128::nat)"
  shows "white_len (c # s) = 0"
  using assms by (cases s rule: remdups_adj.cases) (auto simp: white2_def white3_def)

lemma trim_is_empty_ascii [simp]: "ascii_white c \<Longrightarrow> trim_is_empty (c # s) = trim_is_empty s"
  by (simp add: trim_is_empty_def trim_start.simps [of "c # s"] white_len_ascii)

lemma trim_is_empty_visible [simp]:
  "\<not> ascii_white c \<Longrightarrow> of_char c < (128::nat) \<Longrightarrow> \<not> trim_is_empty (c # s)"
  by (simp add: trim_is_empty_def trim_start.simps [of "c # s"] white_len_visible)

lemma ascii_white_literal [simp]: "ascii_white CHR '' ''" "ascii_white CHR 0x0A" "ascii_white CHR 0x09"
  by (simp_all add: ascii_white_def)

lemma trim_is_empty_ascii_iff:
  assumes "\<forall>c\<in>set s. of_char c < (128::nat)"
  shows "trim_is_empty s \<longleftrightarrow> (\<forall>c\<in>set s. ascii_white c)"
  using assms
proof (induction s)
  case (Cons c s)
  then show ?case by (cases "ascii_white c") auto
qed simp

text \<open>A visible ASCII character anywhere makes a string non-blank.\<close>

lemma white_len_before_visible:
  assumes "\<not> ascii_white c" "of_char c < (128::nat)"
  shows "white_len (s @ c # t) \<le> length s"
proof (cases s rule: white_len.cases)
  case 1
  then show ?thesis using white_len_visible [OF assms] by simp
next
  case (2 a)
  with assms show ?thesis by (cases t) (auto simp: white2_def white3_def)
next
  case (3 a b)
  with assms show ?thesis by (auto simp: white3_def)
qed auto

lemma trim_is_empty_visible_inside:
  assumes "\<not> ascii_white c" "of_char c < (128::nat)"
  shows "\<not> trim_is_empty (s @ c # t)"
proof (induction s rule: length_induct)
  case (1 s)
  let ?n = "white_len (s @ c # t)"
  have n: "?n \<le> length s" by (rule white_len_before_visible [OF assms])
  show ?case
  proof (cases "?n = 0")
    case True
    then show ?thesis by (simp add: trim_is_empty_def trim_start.simps [of "s @ c # t"])
  next
    case False
    with n have "\<not> trim_is_empty (drop ?n s @ c # t)"
      by (intro 1 [rule_format]) simp
    with False n show ?thesis by (simp add: trim_is_empty_def trim_start.simps [of "s @ c # t"])
  qed
qed

end
