(* ===== verification/Security_Types.thy ===== *)
theory Security_Types
  imports Rust_Text
begin

text \<open>
  \<open>src/types.rs\<close>: the tier identifier, the FNV-1a hash and the hash names built on it,
  and the crate's own hexadecimal codec. The codec is also the implementation of the
  interface \<open>hex_codec\<close>, which is what the other components assume of the external
  \<open>hex\<close> crate.
\<close>

unbundle bit_operations_syntax

type_synonym tier_id = u16

section \<open>FNV-1a\<close>

definition fnv_prime :: u64 where
  "fnv_prime = 0x100000001b3"

definition fnv_offset :: u64 where
  "fnv_offset = 0xcbf29ce484222325"

definition fnv_step :: "u8 \<Rightarrow> u64 \<Rightarrow> u64" where
  "fnv_step byte hash = (hash XOR ucast byte) * fnv_prime"

definition fnv64 :: "u8 list \<Rightarrow> u64" where
  "fnv64 bytes = fold fnv_step bytes fnv_offset"

definition fnv64_hex :: "u8 list \<Rightarrow> string" where
  "fnv64_hex bytes = fmt_016x (fnv64 bytes)"

definition pseudo_sha256_hex :: "u8 list \<Rightarrow> string" where
  "pseudo_sha256_hex bytes =
     concat (map (\<lambda>salt. fnv64_hex (as_bytes salt @ bytes)) [''0'', ''1'', ''2'', ''3''])"

definition deterministic_hash_hex :: "string \<Rightarrow> u8 list \<Rightarrow> string option" where
  "deterministic_hash_hex algorithm bytes =
     (let name = to_ascii_lowercase algorithm in
      if name = ''fnv64'' then Some (fnv64_hex bytes)
      else if name = ''sha256'' then Some (pseudo_sha256_hex bytes)
      else None)"

section \<open>The hexadecimal codec\<close>

definition hex_encode :: "u8 list \<Rightarrow> string" where
  "hex_encode bytes = concat (map fmt_02x bytes)"

text \<open>
  The loop of \<open>hex_decode\<close> reads the bytes two at a time; the length is even, so the
  second byte of a pair exists (the equation for one byte is never reached).
\<close>

fun hex_pairs :: "string \<Rightarrow> u8 list option" where
  "hex_pairs [] = Some []"
| "hex_pairs [c] = None"
| "hex_pairs (c # d # rest) =
     (case to_digit16 c of None \<Rightarrow> None
      | Some hi \<Rightarrow>
          (case to_digit16 d of None \<Rightarrow> None
           | Some lo \<Rightarrow>
               (case hex_pairs rest of None \<Rightarrow> None
                | Some out \<Rightarrow> Some (ucast (push_bit 4 (word_of_nat hi :: u32) OR word_of_nat lo) # out))))"

definition hex_decode :: "string \<Rightarrow> u8 list option" where
  "hex_decode value = (if length value mod 2 \<noteq> 0 then None else hex_pairs value)"

section \<open>Facts about FNV-1a\<close>

text \<open>
  The prime is odd, so the multiplication by it has an inverse: one step is a bijection
  of the state for each byte, and of the byte for each state.
\<close>

definition fnv_prime_inverse :: u64 where
  "fnv_prime_inverse = 0xce965057aff6957b"

lemma fnv_prime_inverse_eq: "fnv_prime * fnv_prime_inverse = 1"
  by (simp add: fnv_prime_def fnv_prime_inverse_def)

lemma fnv_prime_cancel: "x * fnv_prime = y * fnv_prime \<longleftrightarrow> x = y"
proof
  assume "x * fnv_prime = y * fnv_prime"
  then have "x * (fnv_prime * fnv_prime_inverse) = y * (fnv_prime * fnv_prime_inverse)"
    by (simp add: mult.assoc [symmetric])
  then show "x = y" by (simp add: fnv_prime_inverse_eq)
qed simp

lemma xor_cancel_left: "(x :: 'a::len word) XOR y = x XOR z \<longleftrightarrow> y = z"
  by (metis xor.left_neutral xor.assoc xor_self_eq)

lemma ucast_u8_u64_inject: "(ucast (b :: u8) :: u64) = ucast c \<longleftrightarrow> b = c"
proof -
  have "unat (ucast x :: u64) = unat x" for x :: u8
  proof -
    have "unat x < 256" using unsigned_less [of x] by simp
    then show ?thesis by (simp add: unsigned_ucast_eq take_bit_nat_eq_self)
  qed
  then show ?thesis by (metis word_unat_eq_iff)
qed

lemma fnv_step_state_inject: "fnv_step b h = fnv_step b h' \<longleftrightarrow> h = h'"
  by (simp add: fnv_step_def fnv_prime_cancel) (metis xor.commute xor_cancel_left)

lemma fnv_step_byte_inject: "fnv_step b h = fnv_step c h \<longleftrightarrow> b = c"
  by (simp add: fnv_step_def fnv_prime_cancel xor_cancel_left ucast_u8_u64_inject)

lemma fold_fnv_step_inject: "fold fnv_step bs h = fold fnv_step bs h' \<longleftrightarrow> h = h'"
  by (induction bs arbitrary: h h') (auto simp: fnv_step_state_inject)

lemma digits_determine_number:
  "(\<And>i. i < k \<Longrightarrow> m div 16 ^ i mod 16 = n div 16 ^ i mod 16) \<Longrightarrow>
    m mod 16 ^ k = n mod (16 ^ k :: nat)"
proof (induction k)
  case (Suc k)
  then have "m mod 16 ^ k = n mod 16 ^ k" "m div 16 ^ k mod 16 = n div 16 ^ k mod 16" by auto
  then show ?case by (simp only: power_Suc2 mod_mult2_eq)
qed simp

lemma fmt_016x_inject: "fmt_016x v = fmt_016x w \<longleftrightarrow> v = w"
proof
  assume same: "fmt_016x v = fmt_016x w"
  have digit: "unat v div 16 ^ i mod 16 = unat w div 16 ^ i mod 16" if "i < 16" for i
  proof -
    have "fmt_016x v ! (15 - i) = fmt_016x w ! (15 - i)" using same by simp
    moreover have "15 - (15 - i) = i" using that by simp
    moreover have "[0..<16] ! (15 - i) = 15 - i"
      by (rule trans [OF nth_upt]) auto
    ultimately have "hex_char (unat v div 16 ^ i mod 16) = hex_char (unat w div 16 ^ i mod 16)"
      by (simp add: fmt_016x_def)
    then show ?thesis by (simp add: hex_char_inject)
  qed
  have "unat v mod 16 ^ 16 = unat w mod 16 ^ 16"
    by (rule digits_determine_number) (rule digit)
  moreover have "unat v < 16 ^ 16" "unat w < 16 ^ 16"
    using unsigned_less [of v] unsigned_less [of w] by simp_all
  ultimately show "v = w" by (simp add: word_unat_eq_iff)
qed simp

lemma fnv64_hex_inject: "fnv64_hex xs = fnv64_hex ys \<longleftrightarrow> fnv64 xs = fnv64 ys"
  by (simp add: fnv64_hex_def fmt_016x_inject)

lemma fnv64_hex_format:
  "length (fnv64_hex xs) = 16" "c \<in> set (fnv64_hex xs) \<Longrightarrow> is_lower_hex c"
  by (simp_all add: fnv64_hex_def fmt_016x_lower_hex)

lemma fnv64_one_byte: "fnv64 (xs @ b # ys) = fnv64 (xs @ c # ys) \<longleftrightarrow> b = c"
  by (simp add: fnv64_def fold_fnv_step_inject fnv_step_byte_inject)

section \<open>Facts about the codec\<close>

lemma hex_digits_byte:
  assumes "hi < 16" "lo < 16"
  shows "unat (ucast (push_bit 4 (word_of_nat hi :: u32) OR word_of_nat lo) :: u8) = 16 * hi + lo"
proof -
  let ?h = "push_bit 4 (word_of_nat hi :: u32)" and ?l = "word_of_nat lo :: u32"
  have h: "unat ?h = 16 * hi" and l: "unat ?l = lo"
    using assms by (simp_all add: push_bit_eq_mult unat_word_ariths unat_of_nat)
  have "?l = take_bit 4 ?l"
    using assms l by (simp add: word_unat_eq_iff unsigned_take_bit_eq take_bit_nat_eq_self)
  then have "?h AND ?l = push_bit 4 (word_of_nat hi) AND take_bit 4 ?l" by simp
  also have "\<dots> = 0" by (rule bit_eqI) (auto simp: bit_simps)
  finally have "?h OR ?l = ?h + ?l" by (metis add.left_neutral word_plus_and_or)
  then have "unat (?h OR ?l) = 16 * hi + lo"
    using assms h l by (simp add: unat_word_ariths)
  then show ?thesis using assms by (simp add: unsigned_ucast_eq take_bit_nat_eq_self)
qed

lemma hex_pairs_fmt:
  "hex_pairs (fmt_02x b @ s) = map_option ((#) b) (hex_pairs s)"
proof -
  have lt: "unat b < 256" using unsigned_less [of b] by simp
  then have hi: "unat b div 16 < 16" and lo: "unat b mod 16 < 16" by auto
  then have "ucast (push_bit 4 (word_of_nat (unat b div 16) :: u32) OR word_of_nat (unat b mod 16)) = b"
    unfolding word_unat_eq_iff by (simp add: hex_digits_byte)
  with hi lo show ?thesis
    by (simp add: fmt_02x_def to_digit16_hex_char split: option.splits)
qed

lemma length_hex_encode: "length (hex_encode bs) = 2 * length bs"
  by (induction bs) (simp_all add: hex_encode_def fmt_02x_def)

lemma hex_pairs_encode: "hex_pairs (hex_encode bs) = Some bs"
  by (induction bs) (simp_all add: hex_encode_def hex_pairs_fmt)

lemma hex_decode_encode: "hex_decode (hex_encode bs) = Some bs"
  by (simp add: hex_decode_def length_hex_encode hex_pairs_encode)

lemma hex_char_to_digit16:
  "to_digit16 c = Some d \<Longrightarrow> [hex_char d] = to_ascii_lowercase [c]"
  by (auto simp: to_digit16_def hex_char_def to_ascii_lowercase_def Let_def split: if_splits)

lemma hex_pairs_lowercase: "hex_pairs s = Some bs \<Longrightarrow> hex_encode bs = to_ascii_lowercase s"
proof (induction s arbitrary: bs rule: hex_pairs.induct)
  case (3 c d rest)
  then obtain hi lo out where
    parts: "to_digit16 c = Some hi" "to_digit16 d = Some lo" "hex_pairs rest = Some out"
    and bs: "bs = ucast (push_bit 4 (word_of_nat hi :: u32) OR word_of_nat lo) # out"
    by (auto split: option.splits)
  then have "hi < 16" "lo < 16" by (auto dest: to_digit16_less)
  then have byte: "fmt_02x (ucast (push_bit 4 (word_of_nat hi :: u32) OR word_of_nat lo))
      = [hex_char hi] @ [hex_char lo]"
    by (simp add: fmt_02x_def hex_digits_byte)
  have "hex_encode out = to_ascii_lowercase rest" using 3 parts by simp
  then show ?case
    using parts(1,2)[THEN hex_char_to_digit16] byte bs
    by (simp add: hex_encode_def to_ascii_lowercase_def)
qed (auto simp: hex_encode_def to_ascii_lowercase_def)

lemma hex_pairs_defined:
  "(\<exists>bs. hex_pairs s = Some bs) \<longleftrightarrow> even (length s) \<and> (\<forall>c\<in>set s. to_digit16 c \<noteq> None)"
  by (induction s rule: hex_pairs.induct) (auto split: option.splits)

text \<open>A text without capital letters is unchanged by \<open>to_ascii_lowercase\<close>.\<close>

lemma to_ascii_lowercase_idem:
  "to_ascii_lowercase (to_ascii_lowercase s) = to_ascii_lowercase s"
  by (auto simp: to_ascii_lowercase_def Let_def)

section \<open>Properties\<close>

text \<open>
  C33: \<open>hex_decode\<close> inverts \<open>hex_encode\<close> on every byte string, and accepts exactly the texts
  of even length made of hexadecimal digits, decoding each to bytes whose encoding is the
  text in lower case.
\<close>

theorem hex_codec_roundtrip:
  "hex_decode (hex_encode bs) = Some bs \<and>
   (hex_decode s = Some ds \<longleftrightarrow>
     even (length s) \<and> (\<nexists>c. c \<in> set s \<and> to_digit16 c = None) \<and> hex_encode ds = to_ascii_lowercase s)"
proof (intro conjI iffI)
  show "hex_decode (hex_encode bs) = Some bs" by (rule hex_decode_encode)
next
  assume "hex_decode s = Some ds"
  then have "even (length s)" and pairs: "hex_pairs s = Some ds"
    by (auto simp: hex_decode_def split: if_splits)
  then show "even (length s)" "\<nexists>c. c \<in> set s \<and> to_digit16 c = None"
    using hex_pairs_defined [of s] by auto
  from pairs show "hex_encode ds = to_ascii_lowercase s" by (rule hex_pairs_lowercase)
next
  assume s: "even (length s) \<and> (\<nexists>c. c \<in> set s \<and> to_digit16 c = None) \<and>
    hex_encode ds = to_ascii_lowercase s"
  then have "\<exists>bs. hex_pairs s = Some bs" unfolding hex_pairs_defined by auto
  then obtain bs where bs: "hex_pairs s = Some bs" ..
  then have "hex_encode bs = hex_encode ds" using hex_pairs_lowercase s by metis
  then have "bs = ds" using hex_pairs_encode by (metis option.inject)
  with s bs show "hex_decode s = Some ds" by (simp add: hex_decode_def even_iff_mod_2_eq_zero)
qed

text \<open>The four blocks of \<open>pseudo_sha256_hex\<close>.\<close>

definition hash_blocks :: "u8 list \<Rightarrow> string list" where
  "hash_blocks bytes = map (\<lambda>salt. fnv64_hex (as_bytes salt @ bytes)) [''0'', ''1'', ''2'', ''3'']"

lemma pseudo_sha256_hex_blocks: "pseudo_sha256_hex bytes = concat (hash_blocks bytes)"
  by (simp add: pseudo_sha256_hex_def hash_blocks_def)

lemma pseudo_sha256_hex_format:
  "length (pseudo_sha256_hex xs) = 64" "c \<in> set (pseudo_sha256_hex xs) \<Longrightarrow> is_lower_hex c"
  by (auto simp: pseudo_sha256_hex_def fnv64_hex_format(1) dest: fnv64_hex_format(2))

lemma lower_hex_digit: "is_lower_hex c \<Longrightarrow> to_digit16 c \<noteq> None"
  by (auto simp: is_lower_hex_def to_digit16_def Let_def)

lemma lower_hex_text:
  assumes "\<And>c. c \<in> set s \<Longrightarrow> is_lower_hex c"
  shows "to_ascii_lowercase s = s"
  unfolding to_ascii_lowercase_def
  by (rule map_idI) (use assms in \<open>fastforce simp: is_lower_hex_def Let_def\<close>)

text \<open>A text of lower-case digits of even length is the encoding of bytes, half as many.\<close>

lemma hex_text_decodes:
  assumes "\<And>c. c \<in> set s \<Longrightarrow> is_lower_hex c" "length s = 2 * n"
  shows "\<exists>bs. hex_decode s = Some bs \<and> length bs = n \<and> hex_encode bs = s"
proof -
  obtain bs where bs: "hex_pairs s = Some bs"
    using hex_pairs_defined [of s] assms lower_hex_digit by auto
  moreover have "hex_encode bs = s"
    using hex_pairs_lowercase [OF bs] lower_hex_text [OF assms(1)] by simp
  moreover have "length bs = n" using length_hex_encode [of bs] calculation(2) assms(2) by simp
  ultimately show ?thesis using assms(2) by (simp add: hex_decode_def)
qed

text \<open>
  C34: what \<open>deterministic_hash_hex\<close> returns. The algorithm is matched without regard to case;
  exactly \<open>fnv64\<close> and \<open>sha256\<close> are known; and the text is always lower-case hexadecimal, the
  encoding of 8 bytes for the one and of 32 bytes for the other.
\<close>

theorem hash_texts_well_formed:
  "(case deterministic_hash_hex algorithm xs of
      None \<Rightarrow> to_ascii_lowercase algorithm \<notin> {''fnv64'', ''sha256''}
    | Some h \<Rightarrow> list_all is_lower_hex h \<and>
        (\<exists>bs. hex_decode h = Some bs \<and> hex_encode bs = h \<and>
          length bs = (if to_ascii_lowercase algorithm = ''fnv64'' then 8 else 32))) \<and>
   deterministic_hash_hex (to_ascii_lowercase algorithm) xs = deterministic_hash_hex algorithm xs"
proof -
  have "\<exists>bs. hex_decode (fnv64_hex xs) = Some bs \<and> length bs = 8 \<and> hex_encode bs = fnv64_hex xs"
    by (rule hex_text_decodes) (simp_all add: fnv64_hex_format)
  moreover have "\<exists>bs. hex_decode (pseudo_sha256_hex xs) = Some bs \<and> length bs = 32 \<and>
      hex_encode bs = pseudo_sha256_hex xs"
    by (rule hex_text_decodes) (simp_all add: pseudo_sha256_hex_format)
  ultimately show ?thesis
    by (auto simp: deterministic_hash_hex_def Let_def to_ascii_lowercase_idem list_all_iff
        fnv64_hex_format(2) pseudo_sha256_hex_format(2))
qed

text \<open>
  Two inputs that differ in exactly one byte have different hashes: every step of the
  FNV-1a loop is a bijection of the state, and the step at the changed byte tells the two
  bytes apart. In \<open>pseudo_sha256_hex\<close>, which concatenates four salted FNV-1a hashes, all four
  blocks change.
\<close>

theorem fnv64_detects_one_byte_change:
  "(fnv64_hex (xs @ b # ys) = fnv64_hex (xs @ c # ys) \<longleftrightarrow> b = c) \<and>
   pseudo_sha256_hex xs = concat (hash_blocks xs) \<and>
   (list_all2 (\<noteq>) (hash_blocks (xs @ b # ys)) (hash_blocks (xs @ c # ys)) \<longleftrightarrow> b \<noteq> c)"
  using fnv64_one_byte [of "as_bytes salt @ xs" for salt]
  by (simp add: pseudo_sha256_hex_blocks hash_blocks_def fnv64_hex_inject fnv64_one_byte)

end
