(* ===== verification/External_Crypto.thy ===== *)
theory External_Crypto
  imports Security_Types
begin

text \<open>
  The third-party crates the components call are parameters of the model, gathered in one
  record: \<open>sha2\<close> (a digest is 32 or 64 bytes by its type; feeding a hasher piece by piece
  hashes the concatenation), \<open>hex\<close> and \<open>subtle\<close>. What the code relies on is stated as
  laws: the codec laws as the locale \<open>hex_codec\<close>, which the crate's own codec of
  \<open>src/types.rs\<close> also satisfies, and \<open>crypto_laws\<close>.
\<close>

section \<open>The codec interface\<close>

locale hex_codec =
  fixes enc :: "u8 list \<Rightarrow> string"
    and dec :: "string \<Rightarrow> u8 list option"
  assumes dec_enc: "dec (enc bs) = Some bs"
    and length_enc: "length (enc bs) = 2 * length bs"
begin

lemma enc_inject: "enc bs = enc cs \<longleftrightarrow> bs = cs"
  by (metis dec_enc option.inject)

lemma length_enc_array: "length (enc (slice_of (a :: 'n::len bytes))) = 2 * LENGTH('n)"
  by (simp add: length_enc)

lemma enc_array_inject: "enc (slice_of a) = enc (slice_of b) \<longleftrightarrow> a = b"
  by (simp add: enc_inject)

text \<open>An encoded array read back at its own length is the array.\<close>

lemma array_of_dec_enc: "dec (enc (slice_of a)) = Some bs \<Longrightarrow> array_of bs = Some a"
  by (auto simp: dec_enc)

end

interpretation own_hex: hex_codec hex_encode hex_decode
  by unfold_locales (simp_all add: hex_decode_encode length_hex_encode)

section \<open>The parameters\<close>

record crypto =
  sha256 :: "u8 list \<Rightarrow> 32 bytes"
  sha512 :: "u8 list \<Rightarrow> 64 bytes"
  hex_enc :: "u8 list \<Rightarrow> string"
  hex_dec :: "string \<Rightarrow> string + u8 list" \<comment> \<open>Inl: the text of the crate's error\<close>
  ct_eq :: "u8 list \<Rightarrow> u8 list \<Rightarrow> bool"

definition hex_dec_opt :: "crypto \<Rightarrow> string \<Rightarrow> u8 list option" where
  "hex_dec_opt C s = (case hex_dec C s of Inl e \<Rightarrow> None | Inr bs \<Rightarrow> Some bs)"

text \<open>
  The documented behaviour of \<open>hex\<close> and \<open>subtle\<close>: decoding inverts encoding, a byte is
  two digits, and the constant-time comparison of slices of one length is equality.
\<close>

definition crypto_laws :: "crypto \<Rightarrow> bool" where
  "crypto_laws C \<longleftrightarrow>
     hex_codec (hex_enc C) (hex_dec_opt C) \<and>
     (\<forall>a b. length a = length b \<longrightarrow> ct_eq C a b = (a = b))"

text \<open>The digest of the empty message, a published test vector of SHA-256.\<close>

definition sha256_of_nothing :: string where
  "sha256_of_nothing = ''e3b0c44298fc1c149afbf4c8996fb92427ae41e4649b934ca495991b7852b855''"

definition sha256_vector :: "crypto \<Rightarrow> bool" where
  "sha256_vector C \<longleftrightarrow> hex_enc C (slice_of (sha256 C [])) = sha256_of_nothing"

text \<open>
  A collision among given messages. Collisions of a hash function exist (there are more
  messages than digests), so a statement about tampering names the messages: the ones the
  code has hashed in the runs the statement is about.
\<close>

definition sha256_collision :: "crypto \<Rightarrow> u8 list list \<Rightarrow> bool" where
  "sha256_collision C ms \<longleftrightarrow> (\<exists>x\<in>set ms. \<exists>y\<in>set ms. x \<noteq> y \<and> sha256 C x = sha256 C y)"

definition sha512_collision :: "crypto \<Rightarrow> u8 list list \<Rightarrow> bool" where
  "sha512_collision C ms \<longleftrightarrow> (\<exists>x\<in>set ms. \<exists>y\<in>set ms. x \<noteq> y \<and> sha512 C x = sha512 C y)"

section \<open>The two idioms the code uses them in\<close>

text \<open>\<open>hex::encode(Sha256::digest(bytes))\<close>\<close>

definition sha256_hex :: "crypto \<Rightarrow> u8 list \<Rightarrow> string" where
  "sha256_hex C bytes = hex_enc C (slice_of (sha256 C bytes))"

text \<open>\<open>a.len() == b.len() && bool::from(a.as_bytes().ct_eq(b.as_bytes()))\<close>\<close>

definition same_text :: "crypto \<Rightarrow> string \<Rightarrow> string \<Rightarrow> bool" where
  "same_text C a b \<longleftrightarrow> length a = length b \<and> ct_eq C (as_bytes a) (as_bytes b)"

lemma crypto_hex: "crypto_laws C \<Longrightarrow> hex_codec (hex_enc C) (hex_dec_opt C)"
  by (simp add: crypto_laws_def)

lemma hex_dec_enc: "crypto_laws C \<Longrightarrow> hex_dec C (hex_enc C bs) = Inr bs"
  using hex_codec.dec_enc [OF crypto_hex] by (fastforce simp: hex_dec_opt_def split: sum.splits)

lemma same_text_iff [ok_iffs]: "crypto_laws C \<Longrightarrow> same_text C a b \<longleftrightarrow> a = b"
  by (auto simp: crypto_laws_def same_text_def)

lemma length_sha256_hex: "crypto_laws C \<Longrightarrow> length (sha256_hex C bs) = 64"
  by (simp add: sha256_hex_def hex_codec.length_enc [OF crypto_hex])

lemma sha256_hex_inject: "crypto_laws C \<Longrightarrow> sha256_hex C x = sha256_hex C y \<longleftrightarrow> sha256 C x = sha256 C y"
  by (simp add: sha256_hex_def hex_codec.enc_array_inject [OF crypto_hex])

lemma sha256_hex_collision:
  assumes "crypto_laws C" "\<not> sha256_collision C ms" "x \<in> set ms" "y \<in> set ms"
    and "sha256_hex C x = sha256_hex C y"
  shows "x = y"
  using assms by (auto simp: sha256_hex_inject sha256_collision_def)

lemma sha256_hex_text:
  assumes "crypto_laws C" "\<not> sha256_collision C (map as_bytes ts)" "s \<in> set ts" "t \<in> set ts"
  shows "sha256_hex C (as_bytes s) = sha256_hex C (as_bytes t) \<longleftrightarrow> s = t"
  using sha256_hex_collision [OF assms(1,2), of "as_bytes s" "as_bytes t"] assms(3,4) by auto

lemma sha256_collision_mono:
  "sha256_collision C ms \<Longrightarrow> set ms \<subseteq> set ns \<Longrightarrow> sha256_collision C ns"
  by (auto simp: sha256_collision_def)

lemma length_sha256_of_nothing: "length sha256_of_nothing = 64"
  by (simp add: sha256_of_nothing_def)

section \<open>Concrete parameters\<close>

text \<open>
  Concrete functions that satisfy the laws, for the applications of the theorems at
  concrete inputs: the crate's own codec, equality, and a digest that pads or truncates
  its message (with the published value for the empty one).
\<close>

definition sample_crypto :: crypto where
  "sample_crypto =
     \<lparr>sha256 = (\<lambda>m. array_pad (if m = [] then the (hex_decode sha256_of_nothing) else m)),
      sha512 = array_pad,
      hex_enc = hex_encode,
      hex_dec = (\<lambda>s. case hex_decode s of None \<Rightarrow> Inl ''invalid hex'' | Some bs \<Rightarrow> Inr bs),
      ct_eq = (=)\<rparr>"

lemma sample_crypto_laws: "crypto_laws sample_crypto"
proof -
  have "hex_dec_opt sample_crypto = hex_decode"
    by (auto simp: hex_dec_opt_def sample_crypto_def fun_eq_iff split: option.splits)
  then show ?thesis
    by (simp add: crypto_laws_def own_hex.hex_codec_axioms) (simp add: sample_crypto_def own_hex.hex_codec_axioms)
qed

lemma hex_decode_nothing:
  "\<exists>bs. hex_decode sha256_of_nothing = Some ([0xe3, 0xb0, 0xc4, 0x42] @ bs) \<and> length bs = 28 \<and>
    hex_encode ([0xe3, 0xb0, 0xc4, 0x42] @ bs) = sha256_of_nothing"
  by (simp add: sha256_of_nothing_def hex_decode_def to_digit16_def hex_encode_def fmt_02x_def
      hex_char_def char_of_def bit_0)

lemma sample_sha256_vector: "sha256_vector sample_crypto"
  using hex_decode_nothing by (auto simp: sha256_vector_def sample_crypto_def)

end
