(* ===== verification/Security_Error.thy ===== *)
theory Security_Error
  imports Rust_Text
begin

text \<open>
  \<open>src/error.rs\<close>: the error type of the crate, its \<open>Display\<close> text, and \<open>SecurityResult\<close>.
\<close>

datatype security_error =
    InvalidConfig string
  | InvalidInput string
  | InvalidState string
  | ParseError string
  | Unauthorized string
  | IntegrityViolation string
  | SignatureInvalid string
  | EncryptionFailed string
  | DecryptionFailed string
  | KeyNotFound string
  | KeyRevoked string
  | SandboxDenied string
  | TamperDetected string
  | ComplianceGap string
  | IoError string

type_synonym 'a security_result = "(security_error, 'a) outcome"

fun security_error_fmt :: "security_error \<Rightarrow> string" where
  "security_error_fmt (InvalidConfig msg) = ''invalid config: '' @ msg"
| "security_error_fmt (InvalidInput msg) = ''invalid input: '' @ msg"
| "security_error_fmt (InvalidState msg) = ''invalid state: '' @ msg"
| "security_error_fmt (ParseError msg) = ''parse error: '' @ msg"
| "security_error_fmt (Unauthorized msg) = ''unauthorized: '' @ msg"
| "security_error_fmt (IntegrityViolation msg) = ''integrity violation: '' @ msg"
| "security_error_fmt (SignatureInvalid msg) = ''signature invalid: '' @ msg"
| "security_error_fmt (EncryptionFailed msg) = ''encryption failed: '' @ msg"
| "security_error_fmt (DecryptionFailed msg) = ''decryption failed: '' @ msg"
| "security_error_fmt (KeyNotFound msg) = ''key not found: '' @ msg"
| "security_error_fmt (KeyRevoked msg) = ''key revoked: '' @ msg"
| "security_error_fmt (SandboxDenied msg) = ''sandbox denied: '' @ msg"
| "security_error_fmt (TamperDetected msg) = ''tamper detected: '' @ msg"
| "security_error_fmt (ComplianceGap msg) = ''compliance gap: '' @ msg"
| "security_error_fmt (IoError msg) = ''io error: '' @ msg"

text \<open>
  \<open>impl Error\<close>: no error wraps another one, so \<open>source\<close> is \<open>None\<close>.
  \<open>impl From<std::io::Error>\<close> keeps the text of the operating-system error, which is
  the argument here.
\<close>

definition security_error_source :: "security_error \<Rightarrow> security_error option" where
  "security_error_source e = None"

definition security_error_from_io :: "string \<Rightarrow> security_error" where
  "security_error_from_io text_of_error = IoError text_of_error"

text \<open>The text up to the first colon tells the variants apart, so no two errors read alike.\<close>

lemma security_error_fmt_inject: "security_error_fmt e = security_error_fmt f \<Longrightarrow> e = f"
  by (cases e; cases f) simp_all

end
