(* ===== verification/BTree_Map.thy ===== *)
theory BTree_Map
  imports Prelude
begin

text \<open>
  \<open>std::collections::BTreeMap\<close>, the dictionary of every component: \<open>get\<close>, \<open>insert\<close>,
  \<open>remove\<close> and iteration in key order. A map is the list of its entries, keys strictly
  increasing; the interface the components rely on is the locale \<open>ordered_map\<close>.
\<close>

section \<open>The interface\<close>

locale ordered_map =
  fixes new_map :: "'m"
    and get :: "'m \<Rightarrow> 'k::linorder \<Rightarrow> 'v option"
    and put :: "'k \<Rightarrow> 'v \<Rightarrow> 'm \<Rightarrow> 'm"
    and del :: "'k \<Rightarrow> 'm \<Rightarrow> 'm"
    and entries :: "'m \<Rightarrow> ('k \<times> 'v) list"
    and wf :: "'m \<Rightarrow> bool"
  assumes get_new: "get new_map k = None"
    and get_put: "get (put k v m) k' = (if k' = k then Some v else get m k')"
    and get_del: "get (del k m) k' = (if k' = k then None else get m k')"
    and wf_new: "wf new_map"
    and wf_put: "wf m \<Longrightarrow> wf (put k v m)"
    and wf_del: "wf m \<Longrightarrow> wf (del k m)"
    and entries_sorted: "wf m \<Longrightarrow> sorted_wrt (<) (map fst (entries m))"
    and entries_get: "wf m \<Longrightarrow> (k, v) \<in> set (entries m) \<longleftrightarrow> get m k = Some v"
begin

lemma get_put_same: "get (put k v m) k = Some v"
  by (simp add: get_put)

lemma get_put_other: "k' \<noteq> k \<Longrightarrow> get (put k v m) k' = get m k'"
  by (simp add: get_put)

lemma get_del_same: "get (del k m) k = None"
  by (simp add: get_del)

lemma get_put_Some_iff:
  "get (put k v m) k' = Some w \<longleftrightarrow> (if k' = k then w = v else get m k' = Some w)"
  by (auto simp: get_put)

text \<open>A property of all stored values is kept by an insertion that satisfies it and by removals.\<close>

lemma put_all:
  assumes "\<And>k w. get m k = Some w \<Longrightarrow> P k w" "P k v" "get (put k v m) k' = Some w"
  shows "P k' w"
  using assms by (auto simp: get_put split: if_splits)

lemma del_all:
  assumes "\<And>k w. get m k = Some w \<Longrightarrow> P k w" "get (del k m) k' = Some w"
  shows "P k' w"
  using assms by (auto simp: get_del split: if_splits)

text \<open>Selecting keys by their values lists the selected keys once each, in order.\<close>

lemma selected_keys_sorted:
  assumes "wf m"
  shows "sorted_wrt (<) (map fst (filter P (entries m)))"
proof -
  have "sorted_wrt (<) (map fst es) \<Longrightarrow> sorted_wrt (<) (map fst (filter P es))" for es
    by (induction es) auto
  with assms show ?thesis by (simp add: entries_sorted)
qed

lemma selected_keys_set:
  assumes "wf m"
  shows "k \<in> set (map fst (filter (\<lambda>(k, v). P k v) (entries m))) \<longleftrightarrow>
    (\<exists>v. get m k = Some v \<and> P k v)"
  using assms by (auto simp: entries_get [symmetric] image_iff)

end

section \<open>The implementation\<close>

type_synonym ('k, 'v) btree_map = "('k \<times> 'v) list"

definition bt_new :: "('k, 'v) btree_map" where
  "bt_new = []"

fun bt_get :: "('k, 'v) btree_map \<Rightarrow> 'k \<Rightarrow> 'v option" where
  "bt_get [] k = None"
| "bt_get ((k', v) # m) k = (if k = k' then Some v else bt_get m k)"

fun bt_insert :: "'k::linorder \<Rightarrow> 'v \<Rightarrow> ('k, 'v) btree_map \<Rightarrow> ('k, 'v) btree_map" where
  "bt_insert k v [] = [(k, v)]"
| "bt_insert k v ((k', v') # m) =
     (if k < k' then (k, v) # (k', v') # m
      else if k = k' then (k, v) # m
      else (k', v') # bt_insert k v m)"

fun bt_remove :: "'k \<Rightarrow> ('k, 'v) btree_map \<Rightarrow> ('k, 'v) btree_map" where
  "bt_remove k [] = []"
| "bt_remove k ((k', v) # m) = (if k = k' then bt_remove k m else (k', v) # bt_remove k m)"

definition bt_entries :: "('k, 'v) btree_map \<Rightarrow> ('k \<times> 'v) list" where
  "bt_entries m = m"

definition bt_wf :: "('k::linorder, 'v) btree_map \<Rightarrow> bool" where
  "bt_wf m \<longleftrightarrow> sorted_wrt (<) (map fst m)"

lemma bt_get_insert: "bt_get (bt_insert k v m) k' = (if k' = k then Some v else bt_get m k')"
  by (induction k v m rule: bt_insert.induct) auto

lemma bt_get_remove: "bt_get (bt_remove k m) k' = (if k' = k then None else bt_get m k')"
  by (induction k m rule: bt_remove.induct) auto

lemma keys_bt_insert: "fst ` set (bt_insert k v m) = insert k (fst ` set m)"
  by (induction k v m rule: bt_insert.induct) auto

lemma set_bt_remove: "set (bt_remove k m) \<subseteq> set m"
  by (induction k m rule: bt_remove.induct) auto

lemma bt_wf_insert: "bt_wf m \<Longrightarrow> bt_wf (bt_insert k v m)"
proof (induction k v m rule: bt_insert.induct)
  case (2 k v k' v' m)
  then show ?case
    using keys_bt_insert [of k v m] by (auto simp: bt_wf_def image_iff dest: less_trans)
qed (simp add: bt_wf_def)

lemma bt_wf_remove: "bt_wf m \<Longrightarrow> bt_wf (bt_remove k m)"
proof (induction k m rule: bt_remove.induct)
  case (2 k k' v m)
  then show ?case
    using set_bt_remove [of k m] by (auto simp: bt_wf_def)
qed (simp add: bt_wf_def)

lemma bt_get_mem: "bt_get m k = Some v \<Longrightarrow> (k, v) \<in> set m"
  by (induction m k rule: bt_get.induct) (auto split: if_splits)

lemma bt_mem_get: "bt_wf m \<Longrightarrow> (k, v) \<in> set m \<Longrightarrow> bt_get m k = Some v"
  by (induction m k rule: bt_get.induct) (auto simp: bt_wf_def image_iff)

interpretation bt: ordered_map bt_new bt_get bt_insert bt_remove bt_entries bt_wf
proof unfold_locales
  fix m :: "('a :: linorder \<times> 'b) list" and k v
  assume "bt_wf m"
  then show "(k, v) \<in> set (bt_entries m) \<longleftrightarrow> bt_get m k = Some v"
    by (auto simp: bt_entries_def intro: bt_get_mem bt_mem_get)
qed (simp_all add: bt_get_insert bt_get_remove bt_wf_insert bt_wf_remove,
     simp_all add: bt_new_def bt_wf_def bt_entries_def)

lemmas bt_simps [simp] = bt.get_new bt.get_put bt.get_del bt.wf_new bt.wf_put bt.wf_del

end
