(* ===== verification/Integrity.thy ===== *)
theory Integrity
  imports External_Crypto Security_Error BTree_Map "HOL-Library.Multiset"
begin

text \<open>
  \<open>src/integrity.rs\<close>: digests of artifacts, signed model manifests and the secure model
  loader. The external crate \<open>ed25519-dalek\<close> is a record of parameters; the trait
  \<open>ArtifactStore\<close> is a locale, which the in-memory store implements and against which the
  loader is proved to accept what a publisher signed.
\<close>

section \<open>The signature crate\<close>

text \<open>
  \<open>'sk\<close> and \<open>'vk\<close> are the crate's signing and verifying keys. A signature is handled as its
  64 bytes: \<open>ed_sign\<close> is \<open>sign\<close> followed by \<open>to_bytes\<close>, \<open>ed_verify_strict\<close> is
  \<open>Signature::from_bytes\<close> (which does not fail) followed by \<open>verify_strict\<close>.
\<close>

record ('sk, 'vk) ed25519 =
  ed_public :: "'sk \<Rightarrow> 'vk"
  ed_sign :: "'sk \<Rightarrow> u8 list \<Rightarrow> 64 bytes"
  ed_verify_strict :: "'vk \<Rightarrow> u8 list \<Rightarrow> 64 bytes \<Rightarrow> bool"
  ed_to_bytes :: "'vk \<Rightarrow> 32 bytes"
  ed_from_bytes :: "32 bytes \<Rightarrow> string + 'vk" \<comment> \<open>Inl: the text of the crate's error\<close>

text \<open>A genuine signature verifies under its public key; a public key survives its bytes.\<close>

definition ed25519_laws :: "('sk, 'vk) ed25519 \<Rightarrow> bool" where
  "ed25519_laws E \<longleftrightarrow>
     (\<forall>sk msg. ed_verify_strict E (ed_public E sk) msg (ed_sign E sk msg)) \<and>
     (\<forall>sk. ed_from_bytes E (ed_to_bytes E (ed_public E sk)) = Inr (ed_public E sk))"

section \<open>Digests\<close>

record artifact_digest =
  ad_algorithm :: string
  ad_hex :: string

definition digest_sha256 :: "crypto \<Rightarrow> u8 list \<Rightarrow> artifact_digest" where
  "digest_sha256 C payload =
     \<lparr>ad_algorithm = ''sha256'', ad_hex = hex_enc C (slice_of (sha256 C payload))\<rparr>"

definition digest_sha512 :: "crypto \<Rightarrow> u8 list \<Rightarrow> artifact_digest" where
  "digest_sha512 C payload =
     \<lparr>ad_algorithm = ''sha512'', ad_hex = hex_enc C (slice_of (sha512 C payload))\<rparr>"

definition digest_from_payload :: "crypto \<Rightarrow> u8 list \<Rightarrow> string \<Rightarrow> artifact_digest security_result" where
  "digest_from_payload C payload algorithm =
     (if algorithm = ''sha256'' then Ok (digest_sha256 C payload)
      else if algorithm = ''sha512'' then Ok (digest_sha512 C payload)
      else Err (InvalidConfig ''unsupported digest algorithm''))"

definition verify_digest :: "crypto \<Rightarrow> u8 list \<Rightarrow> artifact_digest \<Rightarrow> unit security_result" where
  "verify_digest C payload expected =
     and_then (digest_from_payload C payload (ad_algorithm expected)) (\<lambda>actual.
       if \<not> same_text C (ad_hex actual) (ad_hex expected)
       then Err (IntegrityViolation (''digest mismatch for algorithm '' @ ad_algorithm expected))
       else Ok ())"

section \<open>Key pairs\<close>

record ('sk, 'vk) ed25519_keypair =
  ek_signing_key :: 'sk
  ek_verifying_key :: 'vk
  ek_key_id :: string

text \<open>\<open>generate\<close> draws the signing key from the operating system; the draw is the argument.\<close>

definition keypair_generate :: "('sk, 'vk) ed25519 \<Rightarrow> 'sk \<Rightarrow> string \<Rightarrow> ('sk, 'vk) ed25519_keypair" where
  "keypair_generate E drawn key_id =
     \<lparr>ek_signing_key = drawn, ek_verifying_key = ed_public E drawn, ek_key_id = key_id\<rparr>"

definition keypair_sign ::
  "crypto \<Rightarrow> ('sk, 'vk) ed25519 \<Rightarrow> ('sk, 'vk) ed25519_keypair \<Rightarrow> u8 list \<Rightarrow> string" where
  "keypair_sign C E keypair message = hex_enc C (slice_of (ed_sign E (ek_signing_key keypair) message))"

definition public_key_hex :: "crypto \<Rightarrow> ('sk, 'vk) ed25519 \<Rightarrow> ('sk, 'vk) ed25519_keypair \<Rightarrow> string" where
  "public_key_hex C E keypair = hex_enc C (slice_of (ed_to_bytes E (ek_verifying_key keypair)))"

section \<open>Manifests\<close>

record signature_envelope =
  se_signer_id :: string
  se_key_id :: string
  se_signature_hex :: string

record manifest_shard =
  ms_path :: string
  ms_tier :: tier_id
  ms_digest :: artifact_digest
  ms_bytes :: u64

record secure_model_manifest =
  mf_model_id :: string
  mf_version_major :: u32
  mf_version_minor :: u32
  mf_version_patch :: u32
  mf_tiers :: "tier_id list"
  mf_shards :: "manifest_shard list"
  mf_manifest_hash_hex :: string
  mf_signature :: signature_envelope

abbreviation newline :: string where
  "newline \<equiv> [CHR 0x0A]"

definition shard_line :: "manifest_shard \<Rightarrow> string" where
  "shard_line shard =
     ''shard|'' @ ms_path shard @ ''|'' @ display (ms_tier shard) @ ''|'' @
     ad_algorithm (ms_digest shard) @ ''|'' @ ad_hex (ms_digest shard) @ ''|'' @
     display (ms_bytes shard) @ newline"

definition canonical_payload :: "secure_model_manifest \<Rightarrow> string" where
  "canonical_payload m =
     (let tiers = sort (mf_tiers m); shards = sort_key ms_path (mf_shards m) in
      ''model_id='' @ mf_model_id m @ newline @
      ''version='' @ display (mf_version_major m) @ ''.'' @ display (mf_version_minor m) @ ''.'' @
        display (mf_version_patch m) @ newline @
      ''tiers='' @ join '','' (map display tiers) @ newline @
      concat (map shard_line shards))"

definition recompute_hash :: "crypto \<Rightarrow> secure_model_manifest \<Rightarrow> string" where
  "recompute_hash C m = sha256_hex C (as_bytes (canonical_payload m))"

fun validate_shards :: "manifest_shard list \<Rightarrow> unit security_result" where
  "validate_shards [] = Ok ()"
| "validate_shards (shard # shards) =
     (if trim_is_empty (ms_path shard) then Err (InvalidInput ''shard path is required'')
      else if ms_bytes shard = 0 then Err (InvalidInput ''shard bytes must be positive'')
      else validate_shards shards)"

definition validate_shape :: "secure_model_manifest \<Rightarrow> unit security_result" where
  "validate_shape m =
     (if trim_is_empty (mf_model_id m) then Err (InvalidInput ''manifest model_id is required'')
      else if mf_tiers m = [] then Err (InvalidInput ''manifest tiers are required'')
      else if mf_shards m = [] then Err (InvalidInput ''manifest shards are required'')
      else validate_shards (mf_shards m))"

text \<open>\<open>sign_with\<close> panics (\<open>expect\<close>) when the stored hash is not hexadecimal.\<close>

definition sign_with ::
  "crypto \<Rightarrow> ('sk, 'vk) ed25519 \<Rightarrow> secure_model_manifest \<Rightarrow> ('sk, 'vk) ed25519_keypair \<Rightarrow> string \<Rightarrow>
   secure_model_manifest security_result" where
  "sign_with C E m keypair signer_id =
     (case hex_dec C (mf_manifest_hash_hex m) of
        Inl e \<Rightarrow> Panic
      | Inr hash_bytes \<Rightarrow>
          Ok (m\<lparr>mf_signature := \<lparr>se_signer_id = signer_id, se_key_id = ek_key_id keypair,
            se_signature_hex = keypair_sign C E keypair hash_bytes\<rparr>\<rparr>))"

section \<open>The signature verifier\<close>

record 'vk signature_verifier =
  sv_pub_keys :: "(string, 'vk) btree_map"

definition signature_verifier_default :: "'vk signature_verifier" where
  "signature_verifier_default = \<lparr>sv_pub_keys = bt_new\<rparr>"

definition register_key :: "'vk signature_verifier \<Rightarrow> string \<Rightarrow> 'vk \<Rightarrow> 'vk signature_verifier" where
  "register_key V key_id verifying_key =
     V\<lparr>sv_pub_keys := bt_insert key_id verifying_key (sv_pub_keys V)\<rparr>"

definition register_key_from_hex ::
  "crypto \<Rightarrow> ('sk, 'vk) ed25519 \<Rightarrow> 'vk signature_verifier \<Rightarrow> string \<Rightarrow> string \<Rightarrow>
   unit security_result \<times> 'vk signature_verifier" where
  "register_key_from_hex C E V key_id hex_bytes =
     (let vk =
        and_then (map_err (\<lambda>e. InvalidConfig (''invalid public key hex: '' @ e)) (hex_dec C hex_bytes)) (\<lambda>bytes.
        and_then (ok_or (InvalidConfig ''public key must be 32 bytes'') (array_of bytes)) (\<lambda>array.
        map_err (\<lambda>e. InvalidConfig (''invalid verifying key: '' @ e)) (ed_from_bytes E array))) in
      case vk of
        Ok v \<Rightarrow> (Ok (), V\<lparr>sv_pub_keys := bt_insert key_id v (sv_pub_keys V)\<rparr>)
      | Err e \<Rightarrow> (Err e, V)
      | Panic \<Rightarrow> (Panic, V))"

definition verify_signature ::
  "crypto \<Rightarrow> ('sk, 'vk) ed25519 \<Rightarrow> 'vk signature_verifier \<Rightarrow> string \<Rightarrow> signature_envelope \<Rightarrow>
   unit security_result" where
  "verify_signature C E V manifest_hash_hex envelope =
     and_then (ok_or (KeyNotFound (se_key_id envelope)) (bt_get (sv_pub_keys V) (se_key_id envelope)))
     (\<lambda>verifying_key.
     and_then (map_err (\<lambda>e. IntegrityViolation (''invalid manifest hash hex: '' @ e))
       (hex_dec C manifest_hash_hex)) (\<lambda>hash_bytes.
     and_then (map_err (\<lambda>e. IntegrityViolation (''invalid signature hex: '' @ e))
       (hex_dec C (se_signature_hex envelope))) (\<lambda>sig_bytes.
     and_then (ok_or (IntegrityViolation ''signature must be 64 bytes'') (array_of sig_bytes)) (\<lambda>signature.
       if ed_verify_strict E verifying_key hash_bytes signature then Ok ()
       else Err (SignatureInvalid
         (''signature verification failed for signer '' @ se_signer_id envelope))))))"

section \<open>Artifact stores\<close>

locale artifact_store =
  fixes empty_store :: "'s"
    and store_insert :: "'s \<Rightarrow> string \<Rightarrow> u8 list \<Rightarrow> 's"
    and store_read :: "'s \<Rightarrow> string \<Rightarrow> u8 list option"
  assumes read_empty: "store_read empty_store path = None"
    and read_insert: "store_read (store_insert S path payload) path' =
      (if path' = path then Some payload else store_read S path')"
begin

text \<open>A store filled with artifacts under distinct paths returns each of them.\<close>

lemma read_filled_other:
  "path \<notin> fst ` set arts \<Longrightarrow>
    store_read (fold (\<lambda>(p, x) S. store_insert S p x) arts S) path = store_read S path"
  by (induction arts arbitrary: S) (auto simp: read_insert)

lemma read_filled:
  assumes "distinct (map fst arts)" "(path, payload) \<in> set arts"
  shows "store_read (fold (\<lambda>(p, x) S. store_insert S p x) arts S) path = Some payload"
  using assms
proof (induction arts arbitrary: S)
  case (Cons a arts)
  then show ?case
    by (cases a) (auto simp: read_filled_other read_insert image_iff)
qed simp

end

type_synonym in_memory_store = "(string, u8 list) btree_map"

definition in_memory_insert :: "in_memory_store \<Rightarrow> string \<Rightarrow> u8 list \<Rightarrow> in_memory_store" where
  "in_memory_insert objects path payload = bt_insert path payload objects"

definition in_memory_read :: "in_memory_store \<Rightarrow> string \<Rightarrow> u8 list option" where
  "in_memory_read objects path = bt_get objects path"

interpretation in_memory: artifact_store bt_new in_memory_insert in_memory_read
  by unfold_locales (simp_all add: in_memory_insert_def in_memory_read_def)

section \<open>The loader\<close>

record loaded_model =
  lm_model_id :: string
  lm_loaded_tiers :: "tier_id list"
  lm_verified_shards :: "string list"

text \<open>The field \<open>verifier\<close> of the loader is the unit struct \<open>CryptographicDigestVerifier\<close>.\<close>

record 'vk secure_model_loader =
  ld_signature_verifier :: "'vk signature_verifier"
  ld_supported_major_version :: u32
  ld_expected_tiers :: "tier_id set"

fun load_shards ::
  "crypto \<Rightarrow> (string \<Rightarrow> u8 list option) \<Rightarrow> tier_id set \<Rightarrow> manifest_shard list \<Rightarrow> string list \<Rightarrow>
   string list security_result" where
  "load_shards C read actual_tiers [] verified_shards = Ok verified_shards"
| "load_shards C read actual_tiers (shard # shards) verified_shards =
     (if ms_tier shard \<notin> actual_tiers
      then Err (IntegrityViolation (''shard '' @ [CHR 39] @ ms_path shard @ [CHR 39] @
        '' references unknown tier '' @ display (ms_tier shard)))
      else
        and_then (ok_or (IntegrityViolation (''missing shard: '' @ ms_path shard)) (read (ms_path shard)))
        (\<lambda>payload.
          if word_of_nat (length payload) \<noteq> ms_bytes shard
          then Err (IntegrityViolation (''byte size mismatch for shard '' @ ms_path shard))
          else
            and_then (verify_digest C payload (ms_digest shard)) (\<lambda>_.
              load_shards C read actual_tiers shards (verified_shards @ [ms_path shard]))))"

definition load ::
  "crypto \<Rightarrow> ('sk, 'vk) ed25519 \<Rightarrow> 'vk secure_model_loader \<Rightarrow> secure_model_manifest \<Rightarrow>
   (string \<Rightarrow> u8 list option) \<Rightarrow> loaded_model security_result" where
  "load C E loader m read =
     and_then (validate_shape m) (\<lambda>_.
       if mf_version_major m \<noteq> ld_supported_major_version loader
       then Err (IntegrityViolation ''manifest major version is unsupported'')
       else
         let actual_tiers = set (mf_tiers m) in
         if actual_tiers \<noteq> ld_expected_tiers loader
         then Err (IntegrityViolation ''manifest tiers do not match expected tier set'')
         else
           let recomputed_hash = recompute_hash C m in
           if \<not> same_text C recomputed_hash (mf_manifest_hash_hex m)
           then Err (IntegrityViolation ''manifest hash mismatch'')
           else
             and_then (verify_signature C E (ld_signature_verifier loader)
               (mf_manifest_hash_hex m) (mf_signature m)) (\<lambda>_.
             and_then (load_shards C read actual_tiers (mf_shards m) []) (\<lambda>verified_shards.
               Ok \<lparr>lm_model_id = mf_model_id m, lm_loaded_tiers = mf_tiers m,
                  lm_verified_shards = sort verified_shards\<rparr>)))"

definition rollback_target :: "string \<Rightarrow> string" where
  "rollback_target previously_verified_model_id = previously_verified_model_id"

section \<open>Digest verification\<close>

definition digest_matches :: "crypto \<Rightarrow> u8 list \<Rightarrow> artifact_digest \<Rightarrow> bool" where
  "digest_matches C payload d \<longleftrightarrow>
     d = digest_sha256 C payload \<or> d = digest_sha512 C payload"

text \<open>
  The contract of the trait \<open>IntegrityVerifier\<close>: while the crates keep their laws, a payload
  is accepted for a digest exactly when it is the digest of the payload.
\<close>

locale integrity_verifier =
  fixes lawful :: bool
    and verify :: "u8 list \<Rightarrow> 'd \<Rightarrow> ('err, unit) outcome"
    and matches :: "u8 list \<Rightarrow> 'd \<Rightarrow> bool"
  assumes verify_Ok: "lawful \<Longrightarrow> verify payload d = Ok () \<longleftrightarrow> matches payload d"
    and verify_total: "verify payload d \<noteq> Panic"
begin

lemma verify_refuses: "lawful \<Longrightarrow> \<not> matches payload d \<Longrightarrow> \<exists>e. verify payload d = Err e"
  using verify_Ok [of payload d] verify_total [of payload d] by (cases "verify payload d") auto

text \<open>Two payloads accepted for one digest stand in the relation the digest guarantees.\<close>

lemma accepted_related:
  assumes "lawful" "verify p d = Ok ()" "verify q d = Ok ()"
    and "\<And>p q. matches p d \<Longrightarrow> matches q d \<Longrightarrow> R p q"
  shows "R p q"
  using assms(2,3) unfolding verify_Ok [OF assms(1)] by (rule assms(4))

end

lemma verify_digest_Ok_iff:
  "crypto_laws C \<Longrightarrow> verify_digest C payload d = Ok () \<longleftrightarrow> digest_matches C payload d"
  by (cases d) (auto simp: verify_digest_def digest_from_payload_def digest_matches_def
      digest_sha256_def digest_sha512_def same_text_iff)

interpretation digest_verifier: integrity_verifier "crypto_laws C" "verify_digest C" "digest_matches C" for C
  by unfold_locales
    (auto simp: verify_digest_Ok_iff, auto simp: verify_digest_def digest_from_payload_def
      split: if_splits)

section \<open>Facts about loading\<close>

definition shard_intact :: "crypto \<Rightarrow> (string \<Rightarrow> u8 list option) \<Rightarrow> manifest_shard \<Rightarrow> bool" where
  "shard_intact C read s \<longleftrightarrow>
     (\<exists>payload. read (ms_path s) = Some payload \<and> word_of_nat (length payload) = ms_bytes s \<and>
       digest_matches C payload (ms_digest s))"

lemma load_shards_Ok_iff:
  assumes "crypto_laws C"
  shows "load_shards C read tiers shards acc = Ok r \<longleftrightarrow>
    (\<forall>s\<in>set shards. ms_tier s \<in> tiers \<and> shard_intact C read s) \<and> r = acc @ map ms_path shards"
  by (induction shards arbitrary: acc)
    (auto simp: ok_iffs verify_digest_Ok_iff [OF assms] shard_intact_def)

lemma validate_shards_Ok_iff:
  "validate_shards shards = Ok () \<longleftrightarrow>
     (\<forall>s\<in>set shards. \<not> trim_is_empty (ms_path s) \<and> ms_bytes s \<noteq> 0)"
  by (induction shards) auto

definition shape_ok :: "secure_model_manifest \<Rightarrow> bool" where
  "shape_ok m \<longleftrightarrow>
     \<not> trim_is_empty (mf_model_id m) \<and> mf_tiers m \<noteq> [] \<and> mf_shards m \<noteq> [] \<and>
     (\<forall>s\<in>set (mf_shards m). \<not> trim_is_empty (ms_path s) \<and> ms_bytes s \<noteq> 0)"

lemma validate_shape_Ok_iff: "validate_shape m = Ok () \<longleftrightarrow> shape_ok m"
  by (auto simp: validate_shape_def shape_ok_def validate_shards_Ok_iff)

text \<open>The signature of the envelope verifies the given bytes under a registered key.\<close>

definition signed_by_registered ::
  "crypto \<Rightarrow> ('sk, 'vk) ed25519 \<Rightarrow> 'vk signature_verifier \<Rightarrow> u8 list \<Rightarrow> signature_envelope \<Rightarrow> bool" where
  "signed_by_registered C E V msg env \<longleftrightarrow>
     (\<exists>vk bytes sig. bt_get (sv_pub_keys V) (se_key_id env) = Some vk \<and>
       hex_dec C (se_signature_hex env) = Inr bytes \<and> array_of bytes = Some sig \<and>
       ed_verify_strict E vk msg sig)"

lemma verify_signature_Ok_iff:
  "verify_signature C E V h env = Ok () \<longleftrightarrow>
     (\<exists>msg. hex_dec C h = Inr msg \<and> signed_by_registered C E V msg env)"
  by (auto simp: verify_signature_def ok_iffs signed_by_registered_def)

lemma load_Ok_iff:
  assumes "crypto_laws C"
  shows "load C E ld m read = Ok r \<longleftrightarrow>
    shape_ok m \<and> mf_version_major m = ld_supported_major_version ld \<and>
    set (mf_tiers m) = ld_expected_tiers ld \<and> mf_manifest_hash_hex m = recompute_hash C m \<and>
    signed_by_registered C E (ld_signature_verifier ld)
      (slice_of (sha256 C (as_bytes (canonical_payload m)))) (mf_signature m) \<and>
    (\<forall>s\<in>set (mf_shards m). ms_tier s \<in> set (mf_tiers m) \<and> shard_intact C read s) \<and>
    r = \<lparr>lm_model_id = mf_model_id m, lm_loaded_tiers = mf_tiers m,
      lm_verified_shards = sort (map ms_path (mf_shards m))\<rparr>"
proof -
  have "hex_dec C (recompute_hash C m) = Inr (slice_of (sha256 C (as_bytes (canonical_payload m))))"
    by (simp add: recompute_hash_def sha256_hex_def hex_dec_enc [OF assms])
  then show ?thesis
    unfolding load_def
    by (auto simp: ok_iffs Let_def validate_shape_Ok_iff same_text_iff [OF assms]
        verify_signature_Ok_iff load_shards_Ok_iff [OF assms])
qed

section \<open>What the canonical payload says\<close>

text \<open>The line of a shard without its newline.\<close>

definition shard_body :: "manifest_shard \<Rightarrow> string" where
  "shard_body s =
     ''shard|'' @ ms_path s @ ''|'' @ display (ms_tier s) @ ''|'' @ ad_algorithm (ms_digest s) @ ''|'' @
     ad_hex (ms_digest s) @ ''|'' @ display (ms_bytes s)"

lemma shard_line_body: "shard_line s = shard_body s @ newline"
  by (simp add: shard_line_def shard_body_def)

definition free_of :: "char list \<Rightarrow> string \<Rightarrow> bool" where
  "free_of cs s \<longleftrightarrow> set cs \<inter> set s = {}"

definition plain_shard :: "manifest_shard \<Rightarrow> bool" where
  "plain_shard s \<longleftrightarrow>
     free_of (CHR ''|'' # newline) (ms_path s) \<and>
     free_of (CHR ''|'' # newline) (ad_algorithm (ms_digest s)) \<and>
     free_of (CHR ''|'' # newline) (ad_hex (ms_digest s))"

definition plain_manifest :: "secure_model_manifest \<Rightarrow> bool" where
  "plain_manifest m \<longleftrightarrow> free_of newline (mf_model_id m) \<and> list_all plain_shard (mf_shards m)"

lemma shard_body_no_newline: "plain_shard s \<Longrightarrow> CHR 0x0A \<notin> set (shard_body s)"
  by (auto simp: shard_body_def plain_shard_def free_of_def)

lemma shard_body_inject:
  assumes "shard_body s = shard_body t" "plain_shard s" "plain_shard t"
  shows "s = t"
proof -
  let ?bar = "CHR ''|''"
  have 1: "ms_path s @ ?bar # display (ms_tier s) @ ?bar # ad_algorithm (ms_digest s) @ ?bar #
      ad_hex (ms_digest s) @ ?bar # display (ms_bytes s) =
    ms_path t @ ?bar # display (ms_tier t) @ ?bar # ad_algorithm (ms_digest t) @ ?bar #
      ad_hex (ms_digest t) @ ?bar # display (ms_bytes t)"
    using assms(1) by (simp add: shard_body_def)
  note 2 = split_at_separator [OF 1]
  note 3 = split_at_separator [OF conjunct2 [OF 2]]
  note 4 = split_at_separator [OF conjunct2 [OF 3]]
  note 5 = split_at_separator [OF conjunct2 [OF 4]]
  have "ms_digest s = ms_digest t" if "ad_algorithm (ms_digest s) = ad_algorithm (ms_digest t)"
    "ad_hex (ms_digest s) = ad_hex (ms_digest t)" using that by simp
  then show ?thesis
    using 2 3 4 5 assms(2,3) by (cases s; cases t) (simp add: plain_shard_def free_of_def)
qed

lemma shard_lines_inject:
  assumes "concat (map shard_line ss) = concat (map shard_line ts)"
    and "list_all plain_shard ss" "list_all plain_shard ts"
  shows "ss = ts"
proof -
  have "map shard_body ss = map shard_body ts"
    using assms by (intro concat_lines_inject [where c = "CHR 0x0A"])
      (auto simp: shard_line_body [abs_def] list_all_iff shard_body_no_newline)
  then show ?thesis using assms(2,3) by (rule map_inj_on_list) (rule shard_body_inject)
qed

lemma tier_list_inject:
  "join '','' (map display (ts :: tier_id list)) = join '','' (map display us) \<longleftrightarrow> ts = us"
proof
  assume "join '','' (map display ts) = join '','' (map display us)"
  then have "map display ts = map display us"
    by (rule join_inject) auto
  then show "ts = us" by (simp add: inj_def)
qed simp

lemma newline_not_in_tier_list: "CHR 0x0A \<notin> set (join '','' (map display (ts :: tier_id list)))"
  by (auto dest!: set_join)

lemma list_all_sort_key [simp]: "list_all P (sort_key f xs) = list_all P xs"
  by (simp add: list_all_iff)

lemma canonical_payload_inject:
  assumes "canonical_payload m = canonical_payload n" "plain_manifest m" "plain_manifest n"
  shows "mf_model_id m = mf_model_id n" "mf_version_major m = mf_version_major n"
    "mf_version_minor m = mf_version_minor n" "mf_version_patch m = mf_version_patch n"
    "sort (mf_tiers m) = sort (mf_tiers n)"
    "sort_key ms_path (mf_shards m) = sort_key ms_path (mf_shards n)"
proof -
  let ?lf = "CHR 0x0A" and ?dot = "CHR ''.''"
  let ?shards = "\<lambda>m. concat (map shard_line (sort_key ms_path (mf_shards m)))"
  let ?tiers = "\<lambda>m. join '','' (map display (sort (mf_tiers m))) @ ?lf # ?shards m"
  let ?version = "\<lambda>m. display (mf_version_major m) @ ?dot # display (mf_version_minor m) @ ?dot #
    display (mf_version_patch m) @ ?lf # ''tiers='' @ ?tiers m"
  have "mf_model_id m @ ?lf # ''version='' @ ?version m = mf_model_id n @ ?lf # ''version='' @ ?version n"
    using assms(1) by (simp add: canonical_payload_def Let_def)
  from split_at_separator [OF this] assms(2,3)
  have model_id: "mf_model_id m = mf_model_id n" and 1: "?version m = ?version n"
    by (simp_all add: plain_manifest_def free_of_def)
  show "mf_model_id m = mf_model_id n" by (rule model_id)
  note 2 = split_at_separator [OF 1]
  note 3 = split_at_separator [OF conjunct2 [OF 2]]
  note 4 = split_at_separator [OF conjunct2 [OF 3]]
  show "mf_version_major m = mf_version_major n" "mf_version_minor m = mf_version_minor n"
    "mf_version_patch m = mf_version_patch n"
    using 2 3 4 by simp_all
  have "?tiers m = ?tiers n" using 4 by simp
  from split_at_separator [OF this] newline_not_in_tier_list
  have 5: "join '','' (map display (sort (mf_tiers m))) = join '','' (map display (sort (mf_tiers n)))"
    and 6: "?shards m = ?shards n" by blast+
  from 5 show "sort (mf_tiers m) = sort (mf_tiers n)" by (simp only: tier_list_inject)
  from 6 show "sort_key ms_path (mf_shards m) = sort_key ms_path (mf_shards n)"
    by (rule shard_lines_inject) (use assms(2,3) in \<open>simp_all add: plain_manifest_def\<close>)
qed

lemma canonical_payload_update [simp]:
  "canonical_payload (m\<lparr>mf_manifest_hash_hex := h\<rparr>) = canonical_payload m"
  "canonical_payload (m\<lparr>mf_signature := s\<rparr>) = canonical_payload m"
  by (simp_all add: canonical_payload_def)

lemma recompute_hash_update [simp]:
  "recompute_hash C (m\<lparr>mf_manifest_hash_hex := h\<rparr>) = recompute_hash C m"
  "recompute_hash C (m\<lparr>mf_signature := s\<rparr>) = recompute_hash C m"
  by (simp_all add: recompute_hash_def)

section \<open>What a publisher makes\<close>

text \<open>The manifest entry of an artifact, as the documentation builds it.\<close>

definition shard_for :: "crypto \<Rightarrow> tier_id \<Rightarrow> string \<times> u8 list \<Rightarrow> manifest_shard" where
  "shard_for C t art =
     \<lparr>ms_path = fst art, ms_tier = t, ms_digest = digest_sha256 C (snd art),
      ms_bytes = word_of_nat (length (snd art))\<rparr>"

lemma signed_by_keypair:
  assumes "crypto_laws C" "ed25519_laws E" "keypair = keypair_generate E drawn kid"
    and "bt_get (sv_pub_keys V) kid = Some (ek_verifying_key keypair)"
  shows "signed_by_registered C E V msg
    \<lparr>se_signer_id = signer, se_key_id = ek_key_id keypair, se_signature_hex = keypair_sign C E keypair msg\<rparr>"
  using assms
  by (auto simp: signed_by_registered_def keypair_generate_def keypair_sign_def hex_dec_enc ed25519_laws_def)

lemma shard_for_intact:
  "read (fst art) = Some (snd art) \<Longrightarrow> shard_intact C read (shard_for C t art)"
  by (simp add: shard_intact_def shard_for_def digest_matches_def)

definition signed_manifest ::
  "crypto \<Rightarrow> ('sk, 'vk) ed25519 \<Rightarrow> secure_model_manifest \<Rightarrow> ('sk, 'vk) ed25519_keypair \<Rightarrow> string \<Rightarrow>
   secure_model_manifest" where
  "signed_manifest C E m keypair signer =
     m\<lparr>mf_manifest_hash_hex := recompute_hash C m, mf_signature :=
       \<lparr>se_signer_id = signer, se_key_id = ek_key_id keypair, se_signature_hex =
         keypair_sign C E keypair (slice_of (sha256 C (as_bytes (canonical_payload m))))\<rparr>\<rparr>"

lemma sign_with_hash:
  "crypto_laws C \<Longrightarrow>
    sign_with C E (m\<lparr>mf_manifest_hash_hex := recompute_hash C m\<rparr>) keypair signer =
      Ok (signed_manifest C E m keypair signer)"
  by (simp add: signed_manifest_def sign_with_def recompute_hash_def sha256_hex_def hex_dec_enc)

lemma published_manifest_loads:
  assumes "crypto_laws C" "ed25519_laws E"
    and "keypair = keypair_generate E drawn kid"
    and "mf_shards m = map (\<lambda>art. shard_for C (tier art) art) arts"
    and "shape_ok m" "tier ` set arts \<subseteq> set (mf_tiers m)"
    and "ld_signature_verifier ld = register_key V kid (ek_verifying_key keypair)"
    and "ld_supported_major_version ld = mf_version_major m" "ld_expected_tiers ld = set (mf_tiers m)"
    and "\<And>art. art \<in> set arts \<Longrightarrow> read (fst art) = Some (snd art)"
  shows "load C E ld (signed_manifest C E m keypair signer) read =
    Ok \<lparr>lm_model_id = mf_model_id m, lm_loaded_tiers = mf_tiers m,
      lm_verified_shards = sort (map fst arts)\<rparr>"
proof -
  have intact: "shard_intact C read s \<and> ms_tier s \<in> set (mf_tiers m)" if "s \<in> set (mf_shards m)" for s
    using that assms(4,6,10) by (auto simp: shard_for_def intro!: shard_for_intact [unfolded shard_for_def])
  have paths: "map ms_path (mf_shards m) = map fst arts"
    using assms(4) by (simp add: shard_for_def comp_def)
  have key: "bt_get (sv_pub_keys (ld_signature_verifier ld)) kid = Some (ek_verifying_key keypair)"
    using assms(7) by (simp add: register_key_def)
  show ?thesis
    using intact paths assms(5,8,9) signed_by_keypair [OF assms(1-3) key]
    by (simp add: signed_manifest_def load_Ok_iff [OF assms(1)] shape_ok_def)
qed

section \<open>Properties\<close>

text \<open>
  C1: \<open>load\<close> succeeds exactly when the manifest has the required fields, the supported
  major version, the expected tier set and its own hash, its signature verifies the digest
  of the canonical payload under a registered key, and every shard names a tier of the
  manifest and is in the store with the stated length and digest; it then reports the
  model id, the tiers as listed and the shard paths in sorted order.
\<close>

theorem load_exact:
  assumes "crypto_laws C"
  shows "load C E ld m read = Ok r \<longleftrightarrow>
    shape_ok m \<and> mf_version_major m = ld_supported_major_version ld \<and>
    set (mf_tiers m) = ld_expected_tiers ld \<and> mf_manifest_hash_hex m = recompute_hash C m \<and>
    (\<exists>vk bytes sig. bt_get (sv_pub_keys (ld_signature_verifier ld)) (se_key_id (mf_signature m)) = Some vk \<and>
      hex_dec C (se_signature_hex (mf_signature m)) = Inr bytes \<and> slice_of sig = bytes \<and>
      ed_verify_strict E vk (slice_of (sha256 C (as_bytes (canonical_payload m)))) sig) \<and>
    list_all (\<lambda>s. ms_tier s \<in> set (mf_tiers m) \<and> shard_intact C read s) (mf_shards m) \<and>
    r = \<lparr>lm_model_id = mf_model_id m, lm_loaded_tiers = mf_tiers m,
      lm_verified_shards = sort (map ms_path (mf_shards m))\<rparr>"
  by (auto simp: load_Ok_iff [OF assms] signed_by_registered_def list_all_iff array_of_Some_iff)


lemma digest_matches_unique:
  assumes "crypto_laws C" "digest_matches C p d" "digest_matches C q d"
  shows "p = q \<or> sha256_collision C [p, q] \<or> sha512_collision C [p, q]"
  using assms
  by (auto simp: digest_matches_def digest_sha256_def digest_sha512_def sha256_collision_def
      sha512_collision_def hex_codec.enc_array_inject [OF crypto_hex])

text \<open>
  C22: the stored bytes are pinned. If one manifest loads from two stores, then every shard
  is in both, with the same payload in both, or else the two payloads are themselves a
  collision of SHA-256 or SHA-512.
\<close>

theorem loaded_payloads_are_pinned:
  assumes "crypto_laws C" "load C E ld m read = Ok r" "load C E ld' m read' = Ok r'"
    and "s \<in> set (mf_shards m)"
  shows "\<exists>p q. read (ms_path s) = Some p \<and> read' (ms_path s) = Some q \<and>
    (p = q \<or> sha256_collision C [p, q] \<or> sha512_collision C [p, q])"
proof -
  have "shard_intact C read s" "shard_intact C read' s"
    using assms(2-4) by (auto simp: load_Ok_iff [OF assms(1)])
  then obtain p q where "read (ms_path s) = Some p" "read' (ms_path s) = Some q"
    and ok: "verify_digest C p (ms_digest s) = Ok ()" "verify_digest C q (ms_digest s) = Ok ()"
    by (auto simp: shard_intact_def verify_digest_Ok_iff [OF assms(1)])
  then show ?thesis
    using digest_verifier.accepted_related [OF assms(1) ok digest_matches_unique [OF assms(1)]]
    by simp
qed

text \<open>Equal up to the order in which tiers and shards are listed, the hash and signature aside.\<close>

definition same_content :: "secure_model_manifest \<Rightarrow> secure_model_manifest \<Rightarrow> bool" where
  "same_content m n \<longleftrightarrow>
     mf_model_id m = mf_model_id n \<and> mf_version_major m = mf_version_major n \<and>
     mf_version_minor m = mf_version_minor n \<and> mf_version_patch m = mf_version_patch n \<and>
     mset (mf_tiers m) = mset (mf_tiers n) \<and> mset (mf_shards m) = mset (mf_shards n)"

lemma same_content_payload:
  assumes "same_content m n" "distinct (map ms_path (mf_shards m))"
  shows "canonical_payload m = canonical_payload n"
proof -
  have "sort (mf_tiers m) = sort (mf_tiers n)"
    using assms(1) by (intro properties_for_sort) (simp_all add: same_content_def)
  moreover have "sort_key ms_path (mf_shards m) = sort_key ms_path (mf_shards n)"
    using assms by (intro sort_key_inj_key_eq) (simp_all add: distinct_map same_content_def)
  ultimately show ?thesis using assms(1) by (simp add: same_content_def canonical_payload_def)
qed

lemma payload_same_content:
  assumes "canonical_payload m = canonical_payload n" "plain_manifest m" "plain_manifest n"
  shows "same_content m n"
proof -
  note eqs = canonical_payload_inject [OF assms]
  from eqs(5) have "mset (mf_tiers m) = mset (mf_tiers n)" by (metis mset_sort)
  moreover from eqs(6) have "mset (mf_shards m) = mset (mf_shards n)" by (metis mset_sort)
  ultimately show ?thesis using eqs(1-4) by (simp add: same_content_def)
qed

text \<open>
  C18: the hash does not depend on the order in which tiers and shards are listed (shard
  paths being distinct), and it does determine the content: two manifests without the
  separator characters in their texts that have the same hash agree on model id, version,
  tiers and shards up to order, or else their two payloads collide under SHA-256.
\<close>

theorem manifest_hash_determines_content:
  assumes "crypto_laws C"
  shows "(same_content m n \<and> distinct (map ms_path (mf_shards m)) \<longrightarrow>
      recompute_hash C m = recompute_hash C n) \<and>
    (plain_manifest m \<and> plain_manifest n \<and> recompute_hash C m = recompute_hash C n \<longrightarrow>
      same_content m n \<or>
      sha256_collision C (map as_bytes [canonical_payload m, canonical_payload n]))"
proof (intro conjI impI; elim conjE)
  assume "same_content m n" "distinct (map ms_path (mf_shards m))"
  then show "recompute_hash C m = recompute_hash C n"
    by (simp add: recompute_hash_def same_content_payload [of m n])
next
  assume "plain_manifest m" "plain_manifest n" "recompute_hash C m = recompute_hash C n"
  then show "same_content m n \<or>
      sha256_collision C (map as_bytes [canonical_payload m, canonical_payload n])"
    using sha256_hex_text [OF assms, of "[canonical_payload m, canonical_payload n]"]
      payload_same_content by (fastforce simp: recompute_hash_def)
qed

definition merged_path :: "manifest_shard \<Rightarrow> manifest_shard \<Rightarrow> string" where
  "merged_path a b =
     ms_path a @ ''|'' @ display (ms_tier a) @ ''|'' @ ad_algorithm (ms_digest a) @ ''|'' @
     ad_hex (ms_digest a) @ ''|'' @ display (ms_bytes a) @ newline @ ''shard|'' @ ms_path b"

lemma merged_payload:
  "ms_path a \<le> ms_path b \<Longrightarrow>
    canonical_payload (m\<lparr>mf_shards := [b\<lparr>ms_path := merged_path a b\<rparr>]\<rparr>) =
    canonical_payload (m\<lparr>mf_shards := [a, b]\<rparr>)"
  by (simp add: canonical_payload_def shard_line_def merged_path_def Let_def)

lemma merged_path_not_blank: "\<not> trim_is_empty (merged_path a b)"
  unfolding merged_path_def
  using trim_is_empty_visible_inside [of "CHR ''|''" "ms_path a"] by (simp add: ascii_white_def)

text \<open>
  C36: the canonical payload does not escape its separators, so one signature covers more
  than one manifest. Two shards \<open>a\<close>, \<open>b\<close>, in the order of their paths, and the single shard whose path is the line of \<open>a\<close>
  followed by the path of \<open>b\<close> have the same payload: when a manifest with the two shards
  loads, the one-shard manifest with the same hash and signature loads as well, from a
  store that has the bytes of \<open>b\<close> under the odd path and need not have those of \<open>a\<close>.
\<close>

theorem separators_are_not_escaped:
  assumes "crypto_laws C" "ms_path a \<le> ms_path b"
    and "load C E ld (m\<lparr>mf_shards := [a, b]\<rparr>) read = Ok r"
  shows "load C E ld (m\<lparr>mf_shards := [b\<lparr>ms_path := merged_path a b\<rparr>]\<rparr>)
      (Map.empty(merged_path a b := read (ms_path b))) =
    Ok \<lparr>lm_model_id = mf_model_id m, lm_loaded_tiers = mf_tiers m,
      lm_verified_shards = [merged_path a b]\<rparr>"
  using assms(3) merged_payload [OF assms(2), of m] merged_path_not_blank [of a b]
  by (auto simp: load_Ok_iff [OF assms(1)] shape_ok_def shard_intact_def recompute_hash_def)

text \<open>
  The envelope's signer is not covered by the signature: changing \<open>signer_id\<close> never
  turns a verified envelope into a refused one, nor a refused one into a verified one.
\<close>

theorem signer_id_is_not_signed:
  "(verify_signature C E V h (env\<lparr>se_signer_id := s\<rparr>) = Ok ()) = (verify_signature C E V h env = Ok ())"
  by (simp add: verify_signature_Ok_iff signed_by_registered_def)

text \<open>
  A public key distributed as hexadecimal text is registered as itself:
  \<open>register_key_from_hex\<close> of \<open>public_key_hex\<close> does what \<open>register_key\<close> does; and on any text
  it refuses, the registered keys stay as they were.
\<close>

theorem public_key_hex_roundtrip:
  assumes "crypto_laws C" "ed25519_laws E" "keypair = keypair_generate E drawn kid"
  shows "register_key_from_hex C E V kid (public_key_hex C E keypair) =
      (Ok (), register_key V kid (ek_verifying_key keypair)) \<and>
    (\<not> is_ok (fst (register_key_from_hex C E V kid txt)) \<longrightarrow>
      snd (register_key_from_hex C E V kid txt) = V)"
proof
  show "register_key_from_hex C E V kid (public_key_hex C E keypair) =
      (Ok (), register_key V kid (ek_verifying_key keypair))"
    using assms(2,3)
    by (simp add: register_key_from_hex_def public_key_hex_def hex_dec_enc [OF assms(1)] Let_def
        ed25519_laws_def keypair_generate_def register_key_def)
qed (auto simp: register_key_from_hex_def Let_def split: outcome.splits)

section \<open>Applications at concrete inputs\<close>

definition sample_ed25519 :: "(32 bytes, 32 bytes) ed25519" where
  "sample_ed25519 =
     \<lparr>ed_public = (\<lambda>sk. sk), ed_sign = (\<lambda>sk msg. array_pad (slice_of sk @ msg)),
      ed_verify_strict = (\<lambda>vk msg sig. sig = array_pad (slice_of vk @ msg)),
      ed_to_bytes = (\<lambda>vk. vk), ed_from_bytes = Inr\<rparr>"

lemma sample_ed25519_laws: "ed25519_laws sample_ed25519"
  by (simp add: ed25519_laws_def sample_ed25519_def)

definition sample_keypair :: "(32 bytes, 32 bytes) ed25519_keypair" where
  "sample_keypair = keypair_generate sample_ed25519 (array_pad [7]) ''pub-1''"

definition sample_artifacts :: "(string \<times> u8 list) list" where
  "sample_artifacts = [(''a.bin'', as_bytes ''weights-tier1''), (''b.bin'', as_bytes ''weights-tier2'')]"

definition sample_tier :: "string \<times> u8 list \<Rightarrow> tier_id" where
  "sample_tier art = (if fst art = ''a.bin'' then 1 else 2)"

definition sample_manifest :: secure_model_manifest where
  "sample_manifest =
     \<lparr>mf_model_id = ''lite-llm'', mf_version_major = 1, mf_version_minor = 0, mf_version_patch = 0,
      mf_tiers = [1, 2], mf_shards =
        map (\<lambda>art. shard_for sample_crypto (sample_tier art) art) sample_artifacts,
      mf_manifest_hash_hex = [], mf_signature =
        \<lparr>se_signer_id = ''publisher'', se_key_id = ''pub-1'', se_signature_hex = []\<rparr>\<rparr>"

definition sample_loader :: "32 bytes secure_model_loader" where
  "sample_loader =
     \<lparr>ld_signature_verifier =
        register_key signature_verifier_default ''pub-1'' (ek_verifying_key sample_keypair),
      ld_supported_major_version = 1, ld_expected_tiers = {1, 2}\<rparr>"

definition sample_read :: "string \<Rightarrow> u8 list option" where
  "sample_read = map_of sample_artifacts"

lemma sample_shape_ok: "shape_ok sample_manifest"
  by (simp add: shape_ok_def sample_manifest_def sample_artifacts_def shard_for_def ascii_white_def)

abbreviation sample_signed :: secure_model_manifest where
  "sample_signed \<equiv> signed_manifest sample_crypto sample_ed25519 sample_manifest sample_keypair ''publisher''"

lemma sample_loads:
  "load sample_crypto sample_ed25519 sample_loader sample_signed sample_read =
     Ok \<lparr>lm_model_id = mf_model_id sample_manifest, lm_loaded_tiers = mf_tiers sample_manifest,
        lm_verified_shards = sort (map fst sample_artifacts)\<rparr>"
  by (rule published_manifest_loads [OF sample_crypto_laws sample_ed25519_laws sample_keypair_def,
        where tier = sample_tier])
    (simp_all add: sample_shape_ok, simp_all add: sample_manifest_def sample_loader_def sample_read_def
      sample_artifacts_def sample_tier_def, auto)

theorem load_exact_witness:
  "is_ok (load sample_crypto sample_ed25519 sample_loader sample_signed sample_read) \<and>
   mf_manifest_hash_hex sample_signed = recompute_hash sample_crypto sample_signed \<and>
   list_all (shard_intact sample_crypto sample_read) (mf_shards sample_signed) \<and>
   \<not> is_ok (load sample_crypto sample_ed25519 sample_loader sample_signed (sample_read(''b.bin'' := None)))"
proof -
  note exact = load_exact [OF sample_crypto_laws, of sample_ed25519 sample_loader sample_signed]
  have "\<exists>s\<in>set (mf_shards sample_signed). ms_path s = ''b.bin''"
    by (simp add: signed_manifest_def sample_manifest_def sample_artifacts_def shard_for_def)
  then have "\<not> is_ok (load sample_crypto sample_ed25519 sample_loader sample_signed
      (sample_read(''b.bin'' := None)))"
    by (auto simp: is_ok_iff exact list_all_iff shard_intact_def)
  moreover have "mf_manifest_hash_hex sample_signed = recompute_hash sample_crypto sample_signed"
      "list_all (shard_intact sample_crypto sample_read) (mf_shards sample_signed)"
    using sample_loads by (simp_all add: exact list_all_iff)
  ultimately show ?thesis by (simp add: sample_loads)
qed


lemma fuller_store_loads:
  "load sample_crypto sample_ed25519 sample_loader sample_signed (sample_read(''c.bin'' \<mapsto> [])) =
     Ok \<lparr>lm_model_id = mf_model_id sample_manifest, lm_loaded_tiers = mf_tiers sample_manifest,
        lm_verified_shards = sort (map fst sample_artifacts)\<rparr>"
  by (rule published_manifest_loads [OF sample_crypto_laws sample_ed25519_laws sample_keypair_def,
        where tier = sample_tier])
    (simp_all add: sample_shape_ok, simp_all add: sample_manifest_def sample_loader_def sample_read_def
      sample_artifacts_def sample_tier_def, auto)

theorem loaded_payloads_are_pinned_witness:
  "\<exists>p q. sample_read ''a.bin'' = Some p \<and> (sample_read(''c.bin'' \<mapsto> [])) ''a.bin'' = Some q \<and>
    (p = q \<or> sha256_collision sample_crypto [p, q] \<or> sha512_collision sample_crypto [p, q])"
proof -
  have "shard_for sample_crypto 1 (''a.bin'', as_bytes ''weights-tier1'') \<in> set (mf_shards sample_signed)"
    by (simp add: signed_manifest_def sample_manifest_def sample_artifacts_def sample_tier_def)
  from loaded_payloads_are_pinned [OF sample_crypto_laws sample_loads fuller_store_loads this]
  show ?thesis by (simp add: shard_for_def)
qed

theorem manifest_hash_determines_content_witness:
  "recompute_hash sample_crypto sample_manifest =
     recompute_hash sample_crypto (sample_manifest\<lparr>mf_tiers := [2, 1]\<rparr>)"
proof -
  have "same_content sample_manifest (sample_manifest\<lparr>mf_tiers := [2, 1]\<rparr>) \<and>
      distinct (map ms_path (mf_shards sample_manifest))"
    by (simp add: same_content_def sample_manifest_def sample_artifacts_def shard_for_def)
  with manifest_hash_determines_content [OF sample_crypto_laws] show ?thesis by blast
qed

theorem separators_are_not_escaped_witness:
  "\<exists>a b. is_ok (load sample_crypto sample_ed25519 sample_loader
     (sample_signed\<lparr>mf_shards := [b\<lparr>ms_path := merged_path a b\<rparr>]\<rparr>)
     (Map.empty(merged_path a b := sample_read (ms_path b))))"
proof -
  let ?a = "shard_for sample_crypto 1 (''a.bin'', as_bytes ''weights-tier1'')"
  let ?b = "shard_for sample_crypto 2 (''b.bin'', as_bytes ''weights-tier2'')"
  have "sample_signed\<lparr>mf_shards := [?a, ?b]\<rparr> = sample_signed"
    by (simp add: signed_manifest_def sample_manifest_def sample_artifacts_def sample_tier_def)
  then have ok: "is_ok (load sample_crypto sample_ed25519 sample_loader
      (sample_signed\<lparr>mf_shards := [?a, ?b]\<rparr>) sample_read)"
    using sample_loads by simp
  have le: "ms_path ?a \<le> ms_path ?b" by (simp add: shard_for_def less_eq_char_def)
  from ok obtain r where "load sample_crypto sample_ed25519 sample_loader
      (sample_signed\<lparr>mf_shards := [?a, ?b]\<rparr>) sample_read = Ok r"
    by (auto simp: is_ok_iff)
  from separators_are_not_escaped [OF sample_crypto_laws le this] show ?thesis by (auto simp: is_ok_iff)
qed

theorem public_key_hex_roundtrip_witness:
  "register_key_from_hex sample_crypto sample_ed25519 signature_verifier_default ''pub-1''
     (public_key_hex sample_crypto sample_ed25519 sample_keypair) =
   (Ok (), register_key signature_verifier_default ''pub-1'' (ek_verifying_key sample_keypair))"
  using public_key_hex_roundtrip [OF sample_crypto_laws sample_ed25519_laws sample_keypair_def,
      of signature_verifier_default] by blast

end
