(* ===== verification/Load_Checks.thy ===== *)
theory Load_Checks
  imports Integrity
begin

text \<open>
  The errors of \<open>SecureModelLoader::load\<close> (\<open>src/integrity.rs\<close>): the checks of the loader
  written down as one list, in the order they are made, each with the error it stands for,
  and the proof that the loader reports the first check that fails.
\<close>

section \<open>The checks\<close>

definition shape_checks :: "secure_model_manifest \<Rightarrow> (bool \<times> security_error) list" where
  "shape_checks m =
     [(\<not> trim_is_empty (mf_model_id m), InvalidInput ''manifest model_id is required''),
      (mf_tiers m \<noteq> [], InvalidInput ''manifest tiers are required''),
      (mf_shards m \<noteq> [], InvalidInput ''manifest shards are required'')] @
     concat (map (\<lambda>s.
       [(\<not> trim_is_empty (ms_path s), InvalidInput ''shard path is required''),
        (ms_bytes s \<noteq> 0, InvalidInput ''shard bytes must be positive'')]) (mf_shards m))"

definition content_checks ::
  "crypto \<Rightarrow> 'vk secure_model_loader \<Rightarrow> secure_model_manifest \<Rightarrow> (bool \<times> security_error) list" where
  "content_checks C ld m =
     [(mf_version_major m = ld_supported_major_version ld,
        IntegrityViolation ''manifest major version is unsupported''),
      (set (mf_tiers m) = ld_expected_tiers ld,
        IntegrityViolation ''manifest tiers do not match expected tier set''),
      (mf_manifest_hash_hex m = recompute_hash C m, IntegrityViolation ''manifest hash mismatch'')]"

text \<open>The envelope \<open>env\<close> has to sign the 32 bytes \<open>msg\<close>.\<close>

definition signature_checks ::
  "crypto \<Rightarrow> ('sk, 'vk) ed25519 \<Rightarrow> 'vk signature_verifier \<Rightarrow> u8 list \<Rightarrow> signature_envelope \<Rightarrow>
   (bool \<times> security_error) list" where
  "signature_checks C E V msg env =
     [(bt_get (sv_pub_keys V) (se_key_id env) \<noteq> None, KeyNotFound (se_key_id env))] @
     (case hex_dec C (se_signature_hex env) of
        Inl e \<Rightarrow> [(False, IntegrityViolation (''invalid signature hex: '' @ e))]
      | Inr bytes \<Rightarrow> [(length bytes = 64, IntegrityViolation ''signature must be 64 bytes'')]) @
     [(signed_by_registered C E V msg env,
        SignatureInvalid (''signature verification failed for signer '' @ se_signer_id env))]"

definition shard_checks ::
  "crypto \<Rightarrow> (string \<Rightarrow> u8 list option) \<Rightarrow> tier_id set \<Rightarrow> manifest_shard \<Rightarrow>
   (bool \<times> security_error) list" where
  "shard_checks C read tiers s =
     [(ms_tier s \<in> tiers, IntegrityViolation (''shard '' @ [CHR 39] @ ms_path s @ [CHR 39] @
        '' references unknown tier '' @ display (ms_tier s)))] @
     (case read (ms_path s) of
        None \<Rightarrow> [(False, IntegrityViolation (''missing shard: '' @ ms_path s))]
      | Some payload \<Rightarrow>
          [(word_of_nat (length payload) = ms_bytes s,
              IntegrityViolation (''byte size mismatch for shard '' @ ms_path s)),
           (ad_algorithm (ms_digest s) = ''sha256'' \<or> ad_algorithm (ms_digest s) = ''sha512'',
              InvalidConfig ''unsupported digest algorithm''),
           (digest_matches C payload (ms_digest s),
              IntegrityViolation (''digest mismatch for algorithm '' @ ad_algorithm (ms_digest s)))])"

definition load_checks ::
  "crypto \<Rightarrow> ('sk, 'vk) ed25519 \<Rightarrow> 'vk secure_model_loader \<Rightarrow> secure_model_manifest \<Rightarrow>
   (string \<Rightarrow> u8 list option) \<Rightarrow> (bool \<times> security_error) list" where
  "load_checks C E ld m read =
     shape_checks m @ content_checks C ld m @
     signature_checks C E (ld_signature_verifier ld)
       (slice_of (sha256 C (as_bytes (canonical_payload m)))) (mf_signature m) @
     concat (map (shard_checks C read (set (mf_tiers m))) (mf_shards m))"

section \<open>The loader makes these checks\<close>

lemma validate_shards_checks:
  "validate_shards shards = first_error (concat (map (\<lambda>s.
     [(\<not> trim_is_empty (ms_path s), InvalidInput ''shard path is required''),
      (ms_bytes s \<noteq> 0, InvalidInput ''shard bytes must be positive'')]) shards))"
  by (induction shards) simp_all

lemma validate_shape_checks: "validate_shape m = first_error (shape_checks m)"
  by (simp add: validate_shape_def shape_checks_def validate_shards_checks)

lemma verify_digest_checks:
  assumes "crypto_laws C"
  shows "verify_digest C payload d = first_error
    [(ad_algorithm d = ''sha256'' \<or> ad_algorithm d = ''sha512'',
        InvalidConfig ''unsupported digest algorithm''),
     (digest_matches C payload d,
        IntegrityViolation (''digest mismatch for algorithm '' @ ad_algorithm d))]"
  by (cases d) (auto simp: verify_digest_def digest_from_payload_def digest_matches_def
      digest_sha256_def digest_sha512_def same_text_iff [OF assms])

lemma load_shards_checks:
  assumes "crypto_laws C"
  shows "load_shards C read tiers shards acc =
    and_then (first_error (concat (map (shard_checks C read tiers) shards)))
      (\<lambda>_. Ok (acc @ map ms_path shards))"
proof (induction shards arbitrary: acc)
  case (Cons s shards)
  then show ?case
    by (simp add: shard_checks_def verify_digest_checks [OF assms] ok_or_def split: option.split)
qed simp

lemma verify_signature_checks:
  assumes "hex_dec C h = Inr msg"
  shows "verify_signature C E V h env = first_error (signature_checks C E V msg env)"
  using assms
  by (auto simp: verify_signature_def signature_checks_def signed_by_registered_def ok_or_def
      map_err_def array_of_def split: option.split sum.split)

lemma load_first_failure:
  assumes "crypto_laws C"
  shows "load C E ld m read =
    and_then (first_error (load_checks C E ld m read)) (\<lambda>_.
      Ok \<lparr>lm_model_id = mf_model_id m, lm_loaded_tiers = mf_tiers m,
         lm_verified_shards = sort (map ms_path (mf_shards m))\<rparr>)"
proof -
  note simps = load_def load_checks_def content_checks_def first_error_append and_then_assoc
    validate_shape_checks load_shards_checks [OF assms] same_text_iff [OF assms] Let_def
  show ?thesis
  proof (cases "mf_manifest_hash_hex m = recompute_hash C m")
    case True
    then have "hex_dec C (mf_manifest_hash_hex m) = Inr (slice_of (sha256 C (as_bytes (canonical_payload m))))"
      by (simp add: recompute_hash_def sha256_hex_def hex_dec_enc [OF assms])
    from verify_signature_checks [OF this, of E "ld_signature_verifier ld"] True show ?thesis
      by (cases "first_error (shape_checks m)") (auto simp: simps)
  qed (cases "first_error (shape_checks m)"; auto simp: simps)
qed

section \<open>Property\<close>

text \<open>
  C8: the errors of the loader. \<open>load\<close> makes its checks in this order: the shape of the
  manifest, its major version, its tier set, its hash, the signing key, the signature's
  encoding and length, the signature, and then for each shard in listed order its tier, its
  presence, its length, the digest algorithm and the digest. The error returned is that of
  the first check that fails; when none fails the model is loaded. It never panics.
\<close>

theorem load_reports_first_failure:
  assumes "crypto_laws C"
  shows "load C E ld m read =
    and_then (first_error (load_checks C E ld m read)) (\<lambda>_.
      Ok \<lparr>lm_model_id = mf_model_id m, lm_loaded_tiers = mf_tiers m,
         lm_verified_shards = sort (map ms_path (mf_shards m))\<rparr>)"
  by (rule load_first_failure [OF assms])

theorem load_reports_first_failure_witness:
  "load sample_crypto sample_ed25519 sample_loader (sample_signed\<lparr>mf_version_major := 2\<rparr>) sample_read =
     Err (IntegrityViolation ''manifest major version is unsupported'')"
  unfolding load_reports_first_failure [OF sample_crypto_laws]
  by (simp add: load_checks_def shape_checks_def content_checks_def signed_manifest_def
      sample_manifest_def sample_artifacts_def shard_for_def sample_loader_def ascii_white_def)

end
