(* ===== verification/Byte_Order.thy ===== *)
theory Byte_Order
  imports Prelude
begin

text \<open>
  Numbers as byte strings, most significant byte first: \<open>be_bytes\<close> writes a number in a given
  count of bytes, \<open>be_number\<close> reads it, and each inverts the other.
\<close>

fun be_bytes :: "nat \<Rightarrow> nat \<Rightarrow> u8 list" where
  "be_bytes 0 n = []"
| "be_bytes (Suc k) n = be_bytes k (n div 256) @ [word_of_nat n]"

definition be_number :: "u8 list \<Rightarrow> nat" where
  "be_number bs = foldl (\<lambda>a b. a * 256 + unat b) 0 bs"

lemma be_number_snoc [simp]: "be_number (bs @ [b]) = be_number bs * 256 + unat b"
  by (simp add: be_number_def)

lemma length_be_bytes [simp]: "length (be_bytes k n) = k"
  by (induction k arbitrary: n) auto

lemma be_number_be_bytes: "be_number (be_bytes k n) = n mod 256 ^ k"
proof (induction k arbitrary: n)
  case (Suc k)
  have "n mod 256 ^ Suc k = (n div 256 mod 256 ^ k) * 256 + n mod 256"
    using mod_mult2_eq [of n 256 "256 ^ k"] by (simp add: ac_simps)
  with Suc show ?case by (simp add: unat_of_nat)
qed (simp add: be_number_def)

lemma be_bytes_be_number: "be_bytes (length bs) (be_number bs) = bs"
proof (induction bs rule: rev_induct)
  case (snoc b bs)
  have "unat b < 256" using unat_bound [of b] by simp
  then have "(be_number bs * 256 + unat b) div 256 = be_number bs" by simp
  moreover have "word_of_nat (be_number bs * 256 + unat b) = b"
    using \<open>unat b < 256\<close> by (simp only: word_unat_eq_iff unat_of_nat) simp
  ultimately show ?case using snoc by simp
qed simp

lemma be_number_bound: "be_number bs < 256 ^ length bs"
proof -
  have "be_number bs = be_number bs mod 256 ^ length bs"
    using be_number_be_bytes [of "length bs" "be_number bs"] by (simp add: be_bytes_be_number)
  also have "\<dots> < 256 ^ length bs" by simp
  finally show ?thesis .
qed

end
