(* ===== verification/Transition_System.thy ===== *)
theory Transition_System
  imports Prelude
begin

text \<open>
  A component with private state changes it only through its public methods: its states
  are the ones reachable from a constructor by calls. The invariant of such a component is
  a predicate its constructors establish and its methods keep; the locales state this once
  for the audit log, the key manager, the sandbox and the access controller.
\<close>

inductive reachable :: "('s \<Rightarrow> bool) \<Rightarrow> ('s \<Rightarrow> 's \<Rightarrow> bool) \<Rightarrow> 's \<Rightarrow> bool"
  for init :: "'s \<Rightarrow> bool" and step :: "'s \<Rightarrow> 's \<Rightarrow> bool" where
  start: "init s \<Longrightarrow> reachable init step s"
| move: "reachable init step s \<Longrightarrow> step s t \<Longrightarrow> reachable init step t"

lemma reachable_steps: "step\<^sup>*\<^sup>* s t \<Longrightarrow> reachable init step s \<Longrightarrow> reachable init step t"
  by (induction rule: rtranclp_induct) (auto intro: reachable.move)

locale invariant_system =
  fixes init :: "'s \<Rightarrow> bool" and step :: "'s \<Rightarrow> 's \<Rightarrow> bool" and inv :: "'s \<Rightarrow> bool"
  assumes init_inv: "init s \<Longrightarrow> inv s"
    and step_inv: "inv s \<Longrightarrow> step s t \<Longrightarrow> inv t"
begin

lemma steps_inv: "step\<^sup>*\<^sup>* s t \<Longrightarrow> inv s \<Longrightarrow> inv t"
  by (induction rule: rtranclp_induct) (auto intro: step_inv)

lemma reachable_inv: "reachable init step s \<Longrightarrow> inv s"
  by (induction rule: reachable.induct) (auto intro: init_inv step_inv)

end

text \<open>
  A fact that is stable: once it holds in a state of the system, no further call undoes it
  (a revoked key stays revoked, an audit record stays in the log).
\<close>

locale stable_fact = invariant_system init step inv
  for init :: "'s \<Rightarrow> bool" and step :: "'s \<Rightarrow> 's \<Rightarrow> bool" and inv :: "'s \<Rightarrow> bool" +
  fixes fact :: "'f \<Rightarrow> 's \<Rightarrow> bool"
  assumes step_fact: "inv s \<Longrightarrow> fact f s \<Longrightarrow> step s t \<Longrightarrow> fact f t"
begin

lemma steps_fact: "step\<^sup>*\<^sup>* s t \<Longrightarrow> inv s \<Longrightarrow> fact f s \<Longrightarrow> fact f t"
proof (induction rule: rtranclp_induct)
  case (step t u)
  then show ?case using steps_inv step_fact by blast
qed

lemma reachable_fact:
  "reachable init step s \<Longrightarrow> fact f s \<Longrightarrow> step\<^sup>*\<^sup>* s t \<Longrightarrow> fact f t"
  using reachable_inv steps_fact by blast

end

section \<open>Components as automata\<close>

text \<open>
  A component seen from its client: a call changes the state and gives a reply. A sequence of
  calls gives the sequence of replies; a component implements a specification when an
  abstraction of its states makes every reply and every state change agree.
\<close>

fun replies :: "('c \<Rightarrow> 's \<Rightarrow> 'r \<times> 's) \<Rightarrow> 's \<Rightarrow> 'c list \<Rightarrow> 'r list" where
  "replies exec s [] = []"
| "replies exec s (c # cs) = fst (exec c s) # replies exec (snd (exec c s)) cs"

definition after :: "('c \<Rightarrow> 's \<Rightarrow> 'r \<times> 's) \<Rightarrow> 's \<Rightarrow> 'c list \<Rightarrow> 's" where
  "after exec s cs = fold (\<lambda>c s. snd (exec c s)) cs s"

lemma after_simps [simp]:
  "after exec s [] = s" "after exec s (c # cs) = after exec (snd (exec c s)) cs"
  by (simp_all add: after_def)

locale implements =
  fixes exec :: "'c \<Rightarrow> 's \<Rightarrow> 'r \<times> 's" and spec :: "'c \<Rightarrow> 'a \<Rightarrow> 'r \<times> 'a"
    and abs :: "'s \<Rightarrow> 'a" and inv :: "'s \<Rightarrow> bool"
  assumes exec_inv: "inv s \<Longrightarrow> inv (snd (exec c s))"
    and reply_agrees: "inv s \<Longrightarrow> fst (exec c s) = fst (spec c (abs s))"
    and state_agrees: "inv s \<Longrightarrow> abs (snd (exec c s)) = snd (spec c (abs s))"
begin

lemma replies_agree: "inv s \<Longrightarrow> replies exec s cs = replies spec (abs s) cs"
  by (induction cs arbitrary: s) (simp_all add: exec_inv reply_agrees state_agrees)

lemma after_agrees: "inv s \<Longrightarrow> abs (after exec s cs) = after spec (abs s) cs \<and> inv (after exec s cs)"
  by (induction cs arbitrary: s) (simp_all add: exec_inv state_agrees)

text \<open>States with the same abstraction cannot be told apart by any calls.\<close>

lemma same_abs_same_replies:
  "inv s \<Longrightarrow> inv t \<Longrightarrow> abs s = abs t \<Longrightarrow> replies exec s cs = replies exec t cs"
  by (simp add: replies_agree)

end

end
