(* ===== verification/Key_Management.thy ===== *)
theory Key_Management
  imports External_Crypto Security_Error BTree_Map Transition_System "HOL-Library.While_Combinator"
begin

text \<open>
  \<open>src/key_management.rs\<close>: the key manager. The theory models its data, the derivation of
  key material, and every method; the abstraction \<open>lookup_key\<close> reads a manager as a map from
  key id and version to the key that \<open>retrieve_key\<close> would find, and the methods are shown to
  refine operations on that map.
\<close>

section \<open>Data\<close>

datatype key_kind = Encryption | Signature | Tls

fun debug_key_kind :: "key_kind \<Rightarrow> string" where
  "debug_key_kind Encryption = ''Encryption''"
| "debug_key_kind Signature = ''Signature''"
| "debug_key_kind Tls = ''Tls''"

record key_material_ref =
  kr_key_id :: string
  kr_version :: u32
  kr_kind :: key_kind

record key_rotation_policy =
  rotate_every_days :: u32
  overlap_days :: u32

definition rotation_policy_is_valid :: "key_rotation_policy \<Rightarrow> bool" where
  "rotation_policy_is_valid p \<longleftrightarrow> rotate_every_days p > 0 \<and> overlap_days p \<le> rotate_every_days p"

record key_access_policy =
  kp_identity :: string
  allowed_key_ids :: "string set"
  allowed_kinds :: "key_kind set"

record managed_key =
  mk_reference :: key_material_ref
  mk_material :: "u8 list"
  mk_activated_day :: u32
  mk_expires_day :: u32
  mk_revoked :: bool

record key_manager =
  km_rotation_policy :: key_rotation_policy
  km_keys :: "(string, managed_key list) btree_map"
  km_policies :: "(string, key_access_policy) btree_map"

abbreviation mk_version :: "managed_key \<Rightarrow> u32" where
  "mk_version k \<equiv> kr_version (mk_reference k)"

section \<open>Key material\<close>

text \<open>
  The loop of \<open>derive_key_material\<close>. A digest has 32 bytes, so the loop makes one turn; the
  counter, a \<open>u64\<close>, is far from its bound.
\<close>

definition derive_input :: "string \<Rightarrow> key_kind \<Rightarrow> u32 \<Rightarrow> u64 \<Rightarrow> u64 \<Rightarrow> u8 list" where
  "derive_input key_id kind version seed counter =
     as_bytes ''lite-llm::key-derivation'' @ as_bytes key_id @
     as_bytes (debug_key_kind kind @ ''|'' @ display version @ ''|'' @ display seed @ ''|'' @
       display counter)"

function derive_loop ::
  "crypto \<Rightarrow> string \<Rightarrow> key_kind \<Rightarrow> u32 \<Rightarrow> u64 \<Rightarrow> u8 list \<Rightarrow> u64 \<Rightarrow> u8 list" where
  "derive_loop C key_id kind version seed out counter =
     (if length out < 32
      then derive_loop C key_id kind version seed
        (out @ slice_of (sha256 C (derive_input key_id kind version seed counter))) (counter + 1)
      else out)"
  by pat_completeness auto
termination
  by (relation "measure (\<lambda>(C, key_id, kind, version, seed, out, counter). 32 - length out)") auto

declare derive_loop.simps [simp del]

definition derive_key_material :: "crypto \<Rightarrow> string \<Rightarrow> key_kind \<Rightarrow> u32 \<Rightarrow> u64 \<Rightarrow> u8 list" where
  "derive_key_material C key_id kind version seed =
     take 32 (derive_loop C key_id kind version seed [] 0)"

section \<open>Methods of the key manager\<close>

definition key_manager_new :: "key_rotation_policy \<Rightarrow> key_manager security_result" where
  "key_manager_new rotation_policy =
     (if \<not> rotation_policy_is_valid rotation_policy
      then Err (InvalidConfig ''invalid key rotation policy'')
      else Ok \<lparr>km_rotation_policy = rotation_policy, km_keys = bt_new, km_policies = bt_new\<rparr>)"

definition add_access_policy :: "key_manager \<Rightarrow> key_access_policy \<Rightarrow> key_manager" where
  "add_access_policy M policy =
     M\<lparr>km_policies := bt_insert (kp_identity policy) policy (km_policies M)\<rparr>"

text \<open>\<open>entry(key_id).or_default()\<close>\<close>

definition bucket :: "key_manager \<Rightarrow> string \<Rightarrow> managed_key list" where
  "bucket M key_id = (case bt_get (km_keys M) key_id of None \<Rightarrow> [] | Some ks \<Rightarrow> ks)"

definition generate_key ::
  "crypto \<Rightarrow> build \<Rightarrow> key_manager \<Rightarrow> string \<Rightarrow> key_kind \<Rightarrow> u32 \<Rightarrow> u32 \<Rightarrow> u64 \<Rightarrow>
   key_material_ref security_result \<times> key_manager" where
  "generate_key C bld M key_id kind version activated_day seed =
     (if trim_is_empty key_id then (Err (InvalidInput ''key_id must not be empty''), M)
      else if version = 0 then (Err (InvalidInput ''key version must be greater than zero''), M)
      else
        let material = derive_key_material C key_id kind version seed;
            reference = \<lparr>kr_key_id = key_id, kr_version = version, kr_kind = kind\<rparr> in
        case add_checked bld activated_day (rotate_every_days (km_rotation_policy M)) of
          Err e \<Rightarrow> (Err e, M)
        | Panic \<Rightarrow> (Panic, M)
        | Ok expires_day \<Rightarrow>
            let managed = \<lparr>mk_reference = reference, mk_material = material,
                  mk_activated_day = activated_day, mk_expires_day = expires_day,
                  mk_revoked = False\<rparr>;
                versions = sort_key mk_version (bucket M key_id @ [managed]) in
            (Ok reference, M\<lparr>km_keys := bt_insert key_id versions (km_keys M)\<rparr>))"

definition rotate_key ::
  "crypto \<Rightarrow> build \<Rightarrow> key_manager \<Rightarrow> string \<Rightarrow> u32 \<Rightarrow> u64 \<Rightarrow>
   key_material_ref security_result \<times> key_manager" where
  "rotate_key C bld M key_id day seed =
     (case bt_get (km_keys M) key_id of
        None \<Rightarrow> (Err (KeyNotFound key_id), M)
      | Some versions \<Rightarrow>
          (if versions = [] then (Err (KeyNotFound key_id), M)
           else
             let latest = last versions in
             case add_checked bld (mk_version latest) 1 of
               Err e \<Rightarrow> (Err e, M)
             | Panic \<Rightarrow> (Panic, M)
             | Ok next \<Rightarrow>
                 generate_key C bld M key_id (kr_kind (mk_reference latest)) next day seed))"

text \<open>The loop of \<open>revoke_key\<close>: mark the first key of the version and stop.\<close>

fun revoke_first :: "u32 \<Rightarrow> managed_key list \<Rightarrow> managed_key list \<times> bool" where
  "revoke_first version [] = ([], False)"
| "revoke_first version (key # keys) =
     (if mk_version key = version then (key\<lparr>mk_revoked := True\<rparr> # keys, True)
      else case revoke_first version keys of (keys', found) \<Rightarrow> (key # keys', found))"

definition versioned_name :: "string \<Rightarrow> u32 \<Rightarrow> string" where
  "versioned_name key_id version = key_id @ ''@'' @ display version"

definition revoke_key :: "key_manager \<Rightarrow> string \<Rightarrow> u32 \<Rightarrow> unit security_result \<times> key_manager" where
  "revoke_key M key_id version =
     (case bt_get (km_keys M) key_id of
        None \<Rightarrow> (Err (KeyNotFound key_id), M)
      | Some versions \<Rightarrow>
          (case revoke_first version versions of (versions', found) \<Rightarrow>
             if \<not> found then (Err (KeyNotFound (versioned_name key_id version)), M)
             else (Ok (), M\<lparr>km_keys := bt_insert key_id versions' (km_keys M)\<rparr>)))"

definition authorize_key :: "key_manager \<Rightarrow> string \<Rightarrow> key_material_ref \<Rightarrow> unit security_result" where
  "authorize_key M identity reference =
     and_then
       (ok_or (Unauthorized (''identity '' @ [CHR 39] @ identity @ [CHR 39] @ '' has no key policy''))
         (bt_get (km_policies M) identity))
       (\<lambda>policy.
         if kr_key_id reference \<notin> allowed_key_ids policy
         then Err (Unauthorized (''identity '' @ [CHR 39] @ identity @ [CHR 39] @
           '' not allowed for key '' @ [CHR 39] @ kr_key_id reference @ [CHR 39]))
         else if kr_kind reference \<notin> allowed_kinds policy
         then Err (Unauthorized (''identity '' @ [CHR 39] @ identity @ [CHR 39] @
           '' not allowed for key kind '' @ debug_key_kind (kr_kind reference)))
         else Ok ())"

definition retrieve_key ::
  "build \<Rightarrow> key_manager \<Rightarrow> string \<Rightarrow> key_material_ref \<Rightarrow> u32 \<Rightarrow> u8 list security_result" where
  "retrieve_key bld M identity reference day =
     and_then (authorize_key M identity reference) (\<lambda>_.
     and_then (ok_or (KeyNotFound (kr_key_id reference)) (bt_get (km_keys M) (kr_key_id reference)))
     (\<lambda>versions.
     and_then
       (ok_or (KeyNotFound (versioned_name (kr_key_id reference) (kr_version reference)))
         (find (\<lambda>key. mk_version key = kr_version reference) versions))
     (\<lambda>key.
       let name = versioned_name (kr_key_id (mk_reference key)) (mk_version key) in
       if mk_revoked key then Err (KeyRevoked name)
       else
         and_then (add_checked bld (mk_expires_day key) (overlap_days (km_rotation_policy M)))
         (\<lambda>last_day.
           if day > last_day then Err (KeyRevoked (name @ '' expired''))
           else Ok (mk_material key)))))"

section \<open>The keys a manager holds\<close>

text \<open>
  The abstraction: the key a reference to \<open>key_id\<close> and \<open>version\<close> resolves to. When a
  version was generated twice, it is the first.
\<close>

definition lookup_key :: "key_manager \<Rightarrow> string \<Rightarrow> u32 \<Rightarrow> managed_key option" where
  "lookup_key M key_id version = find (\<lambda>key. mk_version key = version) (bucket M key_id)"

lemma derive_key_material_eq:
  "derive_key_material C key_id kind version seed =
     slice_of (sha256 C (derive_input key_id kind version seed 0))"
  by (simp add: derive_key_material_def derive_loop.simps)

text \<open>What \<open>generate_key\<close> stores when it succeeds.\<close>

definition fresh_key ::
  "crypto \<Rightarrow> key_manager \<Rightarrow> string \<Rightarrow> key_kind \<Rightarrow> u32 \<Rightarrow> u32 \<Rightarrow> u64 \<Rightarrow> managed_key" where
  "fresh_key C M key_id kind version activated_day seed =
     \<lparr>mk_reference = \<lparr>kr_key_id = key_id, kr_version = version, kr_kind = kind\<rparr>,
      mk_material = derive_key_material C key_id kind version seed,
      mk_activated_day = activated_day,
      mk_expires_day = activated_day + rotate_every_days (km_rotation_policy M),
      mk_revoked = False\<rparr>"

lemma fresh_key_simps [simp]:
  "mk_reference (fresh_key C M kid kd v d s) = \<lparr>kr_key_id = kid, kr_version = v, kr_kind = kd\<rparr>"
  "mk_material (fresh_key C M kid kd v d s) = derive_key_material C kid kd v s"
  "mk_revoked (fresh_key C M kid kd v d s) = False"
  "mk_expires_day (fresh_key C M kid kd v d s) = d + rotate_every_days (km_rotation_policy M)"
  by (simp_all add: fresh_key_def)

lemma generate_key_cases:
  obtains (refused) "\<not> is_ok (fst (generate_key C bld M kid kd v d s))"
      "snd (generate_key C bld M kid kd v d s) = M"
  | (stored) "generate_key C bld M kid kd v d s =
       (Ok \<lparr>kr_key_id = kid, kr_version = v, kr_kind = kd\<rparr>,
        M\<lparr>km_keys := bt_insert kid
          (sort_key mk_version (bucket M kid @ [fresh_key C M kid kd v d s])) (km_keys M)\<rparr>)"
      "\<not> trim_is_empty kid" "v \<noteq> 0"
      "add_checked bld d (rotate_every_days (km_rotation_policy M)) =
        (Ok (d + rotate_every_days (km_rotation_policy M)) :: u32 security_result)"
proof (cases "trim_is_empty kid \<or> v = 0")
  case True
  show thesis by (rule refused) (use True in \<open>auto simp: generate_key_def\<close>)
next
  case False
  show thesis
  proof (cases "add_checked bld d (rotate_every_days (km_rotation_policy M)) :: u32 security_result")
    case (Ok e)
    then have "e = d + rotate_every_days (km_rotation_policy M)" by (rule add_checked_Ok_value)
    with Ok False show thesis
      by (intro stored) (auto simp: generate_key_def Let_def fresh_key_def)
  qed (use False in \<open>auto simp: generate_key_def Let_def intro: refused\<close>)
qed

lemma bucket_insert:
  "bucket (M\<lparr>km_keys := bt_insert kid ks (km_keys M)\<rparr>) kid' = (if kid' = kid then ks else bucket M kid')"
  by (simp add: bucket_def)

lemma bucket_add_access_policy [simp]: "bucket (add_access_policy M p) kid = bucket M kid"
  by (simp add: bucket_def add_access_policy_def)

lemma find_bucket_insert_fresh:
  "find (\<lambda>key. mk_version key = v') (sort_key mk_version (ks @ [k])) =
     (case find (\<lambda>key. mk_version key = v') ks of
        Some k' \<Rightarrow> Some k' | None \<Rightarrow> if mk_version k = v' then Some k else None)"
  by (simp add: find_sort_key find_append split: option.split)

text \<open>Generation adds the key only when the version is not there yet.\<close>

lemma lookup_generate_key:
  assumes "generate_key C bld M kid kd v d s = (Ok r, M')"
  shows "lookup_key M' kid' v' =
    (if kid' = kid \<and> v' = v \<and> lookup_key M kid v = None then Some (fresh_key C M kid kd v d s)
     else lookup_key M kid' v')"
  using assms
  by (cases rule: generate_key_cases [of C bld M kid kd v d s])
    (auto simp: lookup_key_def bucket_insert find_bucket_insert_fresh split: option.splits)

lemma revoke_first_find:
  "revoke_first v ks = (ks', found) \<Longrightarrow>
    (found \<longleftrightarrow> find (\<lambda>k. mk_version k = v) ks \<noteq> None) \<and>
    find (\<lambda>k. mk_version k = v') ks' =
      (if v' = v then map_option (mk_revoked_update (\<lambda>_. True)) (find (\<lambda>k. mk_version k = v) ks)
       else find (\<lambda>k. mk_version k = v') ks)"
  by (induction v ks arbitrary: ks' rule: revoke_first.induct) (auto split: prod.splits if_splits)

lemma revoke_key_cases:
  obtains (unknown) "lookup_key M kid v = None" "\<not> is_ok (fst (revoke_key M kid v))"
      "snd (revoke_key M kid v) = M"
  | (revoked) ks' k where "lookup_key M kid v = Some k"
      "revoke_first v (bucket M kid) = (ks', True)"
      "revoke_key M kid v = (Ok (), M\<lparr>km_keys := bt_insert kid ks' (km_keys M)\<rparr>)"
proof (cases "bt_get (km_keys M) kid")
  case None
  then show thesis by (intro unknown) (auto simp: lookup_key_def bucket_def revoke_key_def)
next
  case (Some ks)
  obtain ks' found where f: "revoke_first v ks = (ks', found)" by fastforce
  show thesis
  proof (cases found)
    case True
    with f obtain k where "find (\<lambda>k. mk_version k = v) ks = Some k"
      using revoke_first_find [OF f, of v] by auto
    with True f Some show thesis
      by (intro revoked [of k ks']) (auto simp: lookup_key_def bucket_def revoke_key_def)
  next
    case False
    with f have "find (\<lambda>k. mk_version k = v) ks = None" using revoke_first_find [OF f, of v] by auto
    with False f Some show thesis
      by (intro unknown) (auto simp: lookup_key_def bucket_def revoke_key_def)
  qed
qed

lemma lookup_revoke_key:
  "lookup_key (snd (revoke_key M kid v)) kid' v' =
     (if kid' = kid \<and> v' = v then map_option (mk_revoked_update (\<lambda>_. True)) (lookup_key M kid v)
      else lookup_key M kid' v')"
proof (cases rule: revoke_key_cases [of M kid v])
  case (revoked ks' k)
  with revoke_first_find [OF revoked(2), of v'] show ?thesis
    by (auto simp: lookup_key_def bucket_insert)
qed auto

text \<open>Rotation is generation under the version after the last, or changes nothing.\<close>

lemma rotate_key_cases:
  obtains (refused) "\<not> is_ok (fst (rotate_key C bld M kid d s))" "snd (rotate_key C bld M kid d s) = M"
  | (generated) "bucket M kid \<noteq> []"
      "add_checked bld (mk_version (last (bucket M kid))) 1 =
        (Ok (mk_version (last (bucket M kid)) + 1) :: u32 security_result)"
      "rotate_key C bld M kid d s = generate_key C bld M kid
        (kr_kind (mk_reference (last (bucket M kid)))) (mk_version (last (bucket M kid)) + 1) d s"
proof (cases "bt_get (km_keys M) kid")
  case None
  then show thesis by (intro refused) (auto simp: rotate_key_def)
next
  case (Some ks)
  show thesis
  proof (cases "ks = []")
    case True
    with Some show thesis by (intro refused) (auto simp: rotate_key_def)
  next
    case False
    show thesis
    proof (cases "add_checked bld (mk_version (last ks)) 1 :: u32 security_result")
      case (Ok n)
      then have "n = mk_version (last ks) + 1" by (rule add_checked_Ok_value)
      with Ok False Some show thesis
        by (intro generated) (auto simp: rotate_key_def bucket_def Let_def)
    qed (use False Some in \<open>auto simp: rotate_key_def Let_def intro: refused\<close>)
  qed
qed

section \<open>The manager as a system\<close>

inductive km_step :: "crypto \<Rightarrow> build \<Rightarrow> key_manager \<Rightarrow> key_manager \<Rightarrow> bool" for C bld where
  policy: "km_step C bld M (add_access_policy M p)"
| generate: "km_step C bld M (snd (generate_key C bld M kid kd v d s))"
| rotate: "km_step C bld M (snd (rotate_key C bld M kid d s))"
| revoke: "km_step C bld M (snd (revoke_key M kid v))"

definition km_init :: "key_manager \<Rightarrow> bool" where
  "km_init M \<longleftrightarrow> (\<exists>p. key_manager_new p = Ok M)"

text \<open>
  Every call is one of three changes: the policies, an insertion of a fresh key, or the
  revocation of a key that is there; or it changes nothing.
\<close>

lemma km_step_cases:
  assumes "km_step C bld M M'"
  obtains (unchanged) "M' = M"
  | (policy) p where "M' = add_access_policy M p"
  | (generated) kid kd v d s where
      "generate_key C bld M kid kd v d s = (Ok \<lparr>kr_key_id = kid, kr_version = v, kr_kind = kd\<rparr>, M')"
      "\<not> trim_is_empty kid" "v \<noteq> 0"
  | (revoked) kid v where "M' = snd (revoke_key M kid v)"
  using assms
proof cases
  case (generate kid kd v d s)
  then show thesis
    by (cases rule: generate_key_cases [of C bld M kid kd v d s])
      (auto intro: unchanged generated)
next
  case (rotate kid d s)
  show thesis
  proof (cases rule: rotate_key_cases [of C bld M kid d s])
    case refused
    with rotate unchanged show thesis by simp
  next
    case generated
    with rotate show thesis
      by (cases rule: generate_key_cases [of C bld M kid
            "kr_kind (mk_reference (last (bucket M kid)))" "mk_version (last (bucket M kid)) + 1" d s])
        (auto intro: unchanged that(3))
  qed
qed (auto intro: that)

definition managed_key_ok :: "string \<Rightarrow> managed_key \<Rightarrow> bool" where
  "managed_key_ok kid k \<longleftrightarrow>
     kr_key_id (mk_reference k) = kid \<and> mk_version k \<noteq> 0 \<and> length (mk_material k) = 32"

definition bucket_ok :: "string \<Rightarrow> managed_key list \<Rightarrow> bool" where
  "bucket_ok kid ks \<longleftrightarrow>
     ks \<noteq> [] \<and> sorted (map mk_version ks) \<and> \<not> trim_is_empty kid \<and> (\<forall>k\<in>set ks. managed_key_ok kid k)"

definition km_wf :: "key_manager \<Rightarrow> bool" where
  "km_wf M \<longleftrightarrow>
     rotation_policy_is_valid (km_rotation_policy M) \<and> bt_wf (km_keys M) \<and> bt_wf (km_policies M) \<and>
     (\<forall>kid ks. bt_get (km_keys M) kid = Some ks \<longrightarrow> bucket_ok kid ks) \<and>
     (\<forall>i p. bt_get (km_policies M) i = Some p \<longrightarrow> kp_identity p = i)"

lemma managed_key_ok_fresh:
  "v \<noteq> 0 \<Longrightarrow> managed_key_ok kid (fresh_key C M kid kd v d s)"
  by (simp add: managed_key_ok_def derive_key_material_eq)

lemma km_wf_bucket: "km_wf M \<Longrightarrow> bucket M kid \<noteq> [] \<Longrightarrow> bucket_ok kid (bucket M kid)"
  by (auto simp: km_wf_def bucket_def split: option.splits)

lemma bt_get_bucket:
  assumes "km_wf M"
  shows "bt_get (km_keys M) kid = (if bucket M kid = [] then None else Some (bucket M kid))"
  using assms by (auto simp: bucket_def km_wf_def bucket_ok_def split: option.split)

lemma km_wf_bucket_sorted: "km_wf M \<Longrightarrow> sorted (map mk_version (bucket M kid))"
  using km_wf_bucket [of M kid] by (cases "bucket M kid = []") (auto simp: bucket_ok_def)

lemma bucket_ok_generate:
  assumes "km_wf M" "\<not> trim_is_empty kid" "managed_key_ok kid k"
  shows "bucket_ok kid (sort_key mk_version (bucket M kid @ [k]))"
proof -
  have "\<forall>k\<in>set (bucket M kid). managed_key_ok kid k"
    using km_wf_bucket [OF assms(1), of kid] by (cases "bucket M kid = []") (auto simp: bucket_ok_def)
  moreover have "sort_key mk_version (bucket M kid @ [k]) \<noteq> []"
    by (metis append_is_Nil_conv list.distinct(1) set_empty set_sort)
  ultimately show ?thesis
    using assms by (auto simp: bucket_ok_def)
qed

lemma revoke_first_references:
  "map mk_reference (fst (revoke_first v ks)) = map mk_reference ks"
  "map mk_material (fst (revoke_first v ks)) = map mk_material ks"
  by (induction v ks rule: revoke_first.induct) (auto split: prod.splits)

lemma bucket_ok_cong:
  assumes "map mk_reference ks' = map mk_reference ks" "map mk_material ks' = map mk_material ks"
    "bucket_ok kid ks"
  shows "bucket_ok kid ks'"
proof -
  have len: "length ks' = length ks" using assms(1) by (rule map_eq_imp_length_eq)
  have "map mk_version ks' = map mk_version ks"
    using arg_cong [OF assms(1), of "map kr_version"] by (simp add: comp_def)
  moreover have "\<forall>k\<in>set ks'. managed_key_ok kid k"
  proof
    fix k assume "k \<in> set ks'"
    then obtain i where i: "i < length ks'" "k = ks' ! i" by (auto simp: in_set_conv_nth)
    then have "mk_reference k = mk_reference (ks ! i)" "mk_material k = mk_material (ks ! i)"
      using assms(1,2) len by (metis nth_map)+
    then show "managed_key_ok kid k"
      using assms(3) i len by (auto simp: bucket_ok_def managed_key_ok_def)
  qed
  ultimately show ?thesis using assms(3) len by (auto simp: bucket_ok_def)
qed

lemma km_wf_insert:
  "km_wf M \<Longrightarrow> bucket_ok kid ks \<Longrightarrow> km_wf (M\<lparr>km_keys := bt_insert kid ks (km_keys M)\<rparr>)"
  by (auto simp: km_wf_def)

lemma km_wf_revoke: "km_wf M \<Longrightarrow> km_wf (snd (revoke_key M kid v))"
proof (cases rule: revoke_key_cases [of M kid v])
  case (revoked ks' k)
  assume wf: "km_wf M"
  have "bucket M kid \<noteq> []" using revoked(1) by (auto simp: lookup_key_def)
  with wf have "bucket_ok kid (bucket M kid)" by (rule km_wf_bucket)
  then have "bucket_ok kid ks'"
    using bucket_ok_cong revoke_first_references [of v "bucket M kid"] revoked(2) by simp
  with wf revoked(3) show ?thesis by (simp add: km_wf_insert)
qed simp

lemma km_step_wf: "km_wf M \<Longrightarrow> km_step C bld M M' \<Longrightarrow> km_wf M'"
proof (erule km_step_cases)
  fix p assume "km_wf M" "M' = add_access_policy M p"
  then show "km_wf M'" by (auto simp: km_wf_def add_access_policy_def)
next
  fix kid kd v d s
  assume "km_wf M" "\<not> trim_is_empty kid" "v \<noteq> 0"
    "generate_key C bld M kid kd v d s = (Ok \<lparr>kr_key_id = kid, kr_version = v, kr_kind = kd\<rparr>, M')"
  then show "km_wf M'"
    by (cases rule: generate_key_cases [of C bld M kid kd v d s])
      (auto intro!: km_wf_insert bucket_ok_generate managed_key_ok_fresh)
qed (auto intro: km_wf_revoke)

lemma km_init_wf: "km_init M \<Longrightarrow> km_wf M"
  by (auto simp: km_init_def key_manager_new_def km_wf_def split: if_splits)

definition revoked_fact :: "string \<times> u32 \<Rightarrow> key_manager \<Rightarrow> bool" where
  "revoked_fact f M \<longleftrightarrow> (\<exists>k. lookup_key M (fst f) (snd f) = Some k \<and> mk_revoked k)"

definition material_fact :: "string \<times> u32 \<times> key_kind \<times> u8 list \<Rightarrow> key_manager \<Rightarrow> bool" where
  "material_fact f M \<longleftrightarrow>
     (case f of (kid, v, kd, mat) \<Rightarrow>
       \<exists>k. lookup_key M kid v = Some k \<and> mk_material k = mat \<and> kr_kind (mk_reference k) = kd)"

lemma lookup_add_access_policy [simp]: "lookup_key (add_access_policy M p) kid v = lookup_key M kid v"
  by (simp add: lookup_key_def)

lemma km_step_lookup:
  assumes "km_step C bld M M'" "lookup_key M kid v = Some k"
  shows "lookup_key M' kid v = Some k \<or> lookup_key M' kid v = Some (k\<lparr>mk_revoked := True\<rparr>)"
  using assms by (auto elim!: km_step_cases simp: lookup_generate_key lookup_revoke_key)

interpretation revocation: stable_fact km_init "km_step C bld" km_wf revoked_fact for C bld
  by unfold_locales
    (auto simp: km_init_wf km_step_wf revoked_fact_def dest: km_step_lookup)

interpretation material: stable_fact km_init "km_step C bld" km_wf material_fact for C bld
  by unfold_locales (auto simp: material_fact_def dest: km_step_lookup)

lemma debug_key_kind_suffix:
  "xs @ debug_key_kind kd = ys @ debug_key_kind kd' \<longleftrightarrow> xs = ys \<and> kd = kd'"
proof
  assume eq: "xs @ debug_key_kind kd = ys @ debug_key_kind kd'"
  then have "last (xs @ debug_key_kind kd) = last (ys @ debug_key_kind kd')" by simp
  then have "kd = kd'" by (cases kd; cases kd') simp_all
  with eq show "xs = ys \<and> kd = kd'" by simp
qed simp

text \<open>
  The hashed text has no separator between key id and kind, but it can be read from the
  right: three numbers, then a kind, whose last letter tells the kinds apart.
\<close>

lemma derive_input_inject:
  "derive_input kid kd v s c = derive_input kid' kd' v' s' c' \<longleftrightarrow>
     kid = kid' \<and> kd = kd' \<and> v = v' \<and> s = s' \<and> c = c'"
proof
  let ?sep = "CHR ''|''"
  assume "derive_input kid kd v s c = derive_input kid' kd' v' s' c'"
  then have 1: "(kid @ debug_key_kind kd @ ?sep # display v @ ?sep # display s) @ ?sep # display c =
      (kid' @ debug_key_kind kd' @ ?sep # display v' @ ?sep # display s') @ ?sep # display c'"
    by (simp add: derive_input_def flip: as_bytes_append)
  from split_at_last_separator [OF 1]
  have 2: "(kid @ debug_key_kind kd @ ?sep # display v) @ ?sep # display s =
      (kid' @ debug_key_kind kd' @ ?sep # display v') @ ?sep # display s'" and "c = c'"
    by simp_all
  moreover from split_at_last_separator [OF 2]
  have 3: "(kid @ debug_key_kind kd) @ ?sep # display v = (kid' @ debug_key_kind kd') @ ?sep # display v'"
    and "s = s'" by simp_all
  moreover from split_at_last_separator [OF 3]
  have "kid @ debug_key_kind kd = kid' @ debug_key_kind kd'" and "v = v'" by simp_all
  ultimately show "kid = kid' \<and> kd = kd' \<and> v = v' \<and> s = s' \<and> c = c'"
    by (simp add: debug_key_kind_suffix)
qed simp

section \<open>Properties\<close>

text \<open>One turn of the \<open>while\<close> loop of \<open>derive_key_material\<close>, on the buffer and the counter.\<close>

definition derive_turn ::
  "crypto \<Rightarrow> string \<Rightarrow> key_kind \<Rightarrow> u32 \<Rightarrow> u64 \<Rightarrow> u8 list \<times> u64 \<Rightarrow> u8 list \<times> u64" where
  "derive_turn C key_id kind version seed =
     (\<lambda>(out, counter).
       (out @ slice_of (sha256 C (derive_input key_id kind version seed counter)), counter + 1))"

text \<open>
  C32: the derivation loop ends. Run as the \<open>while\<close> loop it is, from any buffer and counter, it
  stops with the buffer \<open>derive_loop\<close> computes, after one turn when fewer than 32 bytes are
  there and none otherwise (so the counter, a 64-bit number, does not overflow); the
  material is the 32 bytes of the digest under counter 0.
\<close>

theorem derivation_loop_terminates:
  "while_option (\<lambda>(out, counter). length out < 32) (derive_turn C kid kd v s) (out, counter) =
     Some (derive_loop C kid kd v s out counter, if length out < 32 then counter + 1 else counter) \<and>
   length (derive_key_material C kid kd v s) = 32 \<and>
   derive_key_material C kid kd v s = slice_of (sha256 C (derive_input kid kd v s 0))"
proof -
  have "while_option (\<lambda>(out, counter). length out < 32) (derive_turn C kid kd v s) (out, counter) =
      Some (derive_loop C kid kd v s out counter, if length out < 32 then counter + 1 else counter)"
  proof (cases "length out < 32")
    case True
    then show ?thesis
      by (subst while_option_unfold, subst while_option_unfold)
        (simp add: derive_turn_def derive_loop.simps [of C kid kd v s out]
          derive_loop.simps [of C kid kd v s "out @ x" for x])
  next
    case False
    then show ?thesis
      by (subst while_option_unfold) (simp add: derive_loop.simps [of C kid kd v s out])
  qed
  then show ?thesis by (simp add: derive_key_material_eq)
qed

text \<open>
  C27: keys of different id, kind, version or seed have different material, unless the two
  texts hashed for them are themselves a collision of SHA-256.
\<close>

theorem derivation_separates_keys:
  "derive_key_material C kid kd v s = derive_key_material C kid' kd' v' s' \<longleftrightarrow>
     (kid = kid' \<and> kd = kd' \<and> v = v' \<and> s = s') \<or>
     sha256_collision C [derive_input kid kd v s 0, derive_input kid' kd' v' s' 0]"
  by (auto simp: derive_key_material_eq sha256_collision_def derive_input_inject)


lemma authorize_key_Ok_iff [ok_iffs]:
  "authorize_key M i r = Ok () \<longleftrightarrow>
     (\<exists>p. bt_get (km_policies M) i = Some p \<and> kr_key_id r \<in> allowed_key_ids p \<and>
       kr_kind r \<in> allowed_kinds p)"
  by (auto simp: authorize_key_def ok_iffs)

lemma find_bucket:
  "(\<exists>ks. bt_get (km_keys M) kid = Some ks \<and> find (\<lambda>key. mk_version key = v) ks = Some k) \<longleftrightarrow>
     lookup_key M kid v = Some k"
  by (auto simp: lookup_key_def bucket_def split: option.splits)

lemma retrieve_key_Ok_iff:
  "retrieve_key bld M i r day = Ok m \<longleftrightarrow>
     authorize_key M i r = Ok () \<and>
     (\<exists>k last. lookup_key M (kr_key_id r) (kr_version r) = Some k \<and> \<not> mk_revoked k \<and>
       add_checked bld (mk_expires_day k) (overlap_days (km_rotation_policy M)) =
         (Ok last :: u32 security_result) \<and> day \<le> last \<and> m = mk_material k)"
  unfolding retrieve_key_def find_bucket [symmetric]
  by (auto simp: ok_iffs Let_def linorder_not_less)

lemma served_until:
  "(\<exists>last. add_checked bld a b = (Ok last :: u32 security_result) \<and> day \<le> last) \<longleftrightarrow>
    (if unat a + unat b < 2 ^ 32 then unat day \<le> unat a + unat b
     else bld = Release \<and> unat day + 2 ^ 32 \<le> unat a + unat b)"
proof (cases "unat a + unat b < 2 ^ 32")
  case True
  then show ?thesis by (auto simp: add_checked_fits unat_add_fits word_le_nat_alt)
next
  case False
  then have "unat (a + b) = unat a + unat b - 2 ^ 32"
    using unat_bound [of a] unat_bound [of b] by (simp add: unat_word_ariths le_mod_geq)
  with False show ?thesis
    by (cases bld) (auto simp: add_checked_def word_le_nat_alt)
qed

text \<open>
  C14: \<open>retrieve_key\<close> returns material exactly when the identity has a policy that allows the
  key id and the kind named in the reference, a key of that id and version is stored (the
  first of that version counts), it is not revoked, and the day is not after its expiry plus
  the overlap; it then returns the material of that key. Where expiry plus overlap does not
  fit 32 bits a debug build returns nothing, and a release build compares with the wrapped
  sum. The activation day plays no part.
\<close>

theorem retrieve_key_exact:
  "retrieve_key bld M identity r day = Ok m \<longleftrightarrow>
    (\<exists>p. bt_get (km_policies M) identity = Some p \<and> kr_key_id r \<in> allowed_key_ids p \<and>
      kr_kind r \<in> allowed_kinds p) \<and>
    (\<exists>k. lookup_key M (kr_key_id r) (kr_version r) = Some k \<and> \<not> mk_revoked k \<and> m = mk_material k \<and>
      (let last_day = unat (mk_expires_day k) + unat (overlap_days (km_rotation_policy M)) in
       if last_day < 2 ^ 32 then unat day \<le> last_day
       else bld = Release \<and> unat day + 2 ^ 32 \<le> last_day))"
  unfolding Let_def served_until [symmetric] by (auto simp: retrieve_key_Ok_iff authorize_key_Ok_iff)

text \<open>
  C6: a revocation is final. Once \<open>revoke_key\<close> has returned \<open>Ok\<close> for a key id and version,
  no sequence of further calls (generating the same version again, rotating, changing
  policies) makes \<open>retrieve_key\<close> return material for that version, to anyone, on any day.
\<close>

theorem revoked_key_stays_revoked:
  assumes "reachable km_init (km_step C bld) M" "fst (revoke_key M kid v) = Ok ()"
    and "(km_step C bld)\<^sup>*\<^sup>* (snd (revoke_key M kid v)) M'"
    and "kr_key_id r = kid" "kr_version r = v"
  shows "\<not> is_ok (retrieve_key bld' M' identity r day)"
proof -
  have "reachable km_init (km_step C bld) (snd (revoke_key M kid v))"
    using assms(1) km_step.revoke by (rule reachable.move)
  moreover have "lookup_key M kid v \<noteq> None"
    using assms(2) by (cases rule: revoke_key_cases [of M kid v]) auto
  then have "revoked_fact (kid, v) (snd (revoke_key M kid v))"
    by (auto simp: revoked_fact_def lookup_revoke_key)
  ultimately have "revoked_fact (kid, v) M'"
    using assms(3) by (rule revocation.reachable_fact)
  then show ?thesis using assms(4,5)
    by (auto simp: is_ok_iff retrieve_key_Ok_iff revoked_fact_def)
qed

lemma succ_greater: "w + 1 \<noteq> 0 \<Longrightarrow> w < w + (1 :: 'n::len word)"
  by unat_arith

lemma bucket_versions:
  assumes "km_wf M" "k \<in> set (bucket M kid)"
  shows "mk_version k \<le> mk_version (last (bucket M kid))"
proof -
  have "sorted (map mk_version (bucket M kid))" by (rule km_wf_bucket_sorted [OF assms(1)])
  then show ?thesis
    using assms(2) by (cases "bucket M kid" rule: rev_cases) (auto simp: sorted_append)
qed

lemma rotate_key_greatest_version:
  assumes "km_wf M" "bucket M kid \<noteq> []" "mk_version (last (bucket M kid)) = -1"
  shows "rotate_key C bld M kid day seed =
    (case bld of Debug \<Rightarrow> Panic
      | Release \<Rightarrow> Err (InvalidInput ''key version must be greater than zero''), M)"
proof -
  from km_wf_bucket [OF assms(1,2)] have "\<not> trim_is_empty kid" by (simp add: bucket_ok_def)
  moreover obtain ks where ks: "bt_get (km_keys M) kid = Some ks" "bucket M kid = ks"
    using assms(2) by (auto simp: bucket_def split: option.splits)
  moreover have "add_checked bld (-1) 1 =
      ((case bld of Debug \<Rightarrow> Panic | Release \<Rightarrow> Ok 0) :: u32 security_result)"
    by (simp add: add_checked_def unsigned_minus_1_eq_mask mask_eq_exp_minus_1 split: build.splits)
  ultimately show ?thesis
    using assms(2,3) by (simp add: rotate_key_def generate_key_def Let_def split: build.splits)
qed

text \<open>Generating a version above all others appends it.\<close>

lemma generate_key_appends:
  assumes "km_wf M" "\<not> trim_is_empty kid" "v \<noteq> 0" "\<And>k. k \<in> set (bucket M kid) \<Longrightarrow> mk_version k < v"
  shows "generate_key C bld M kid kd v d s =
    (if bld = Debug \<and> 2 ^ 32 \<le> unat d + unat (rotate_every_days (km_rotation_policy M)) then (Panic, M)
     else (Ok \<lparr>kr_key_id = kid, kr_version = v, kr_kind = kd\<rparr>,
       M\<lparr>km_keys := bt_insert kid (bucket M kid @ [fresh_key C M kid kd v d s]) (km_keys M)\<rparr>))"
proof -
  let ?k = "fresh_key C M kid kd v d s"
  have "sorted (map mk_version (bucket M kid @ [?k]))"
    using km_wf_bucket_sorted [OF assms(1), of kid] assms(4) by (auto simp: sorted_append intro: less_imp_le)
  then have "sort_key mk_version (bucket M kid @ [?k]) = bucket M kid @ [?k]"
    by (rule sort_key_id_if_sorted)
  then show ?thesis
    using assms(2,3)
    by (cases bld) (auto simp: generate_key_def add_checked_def fresh_key_def Let_def not_less)
qed

text \<open>
  C20: \<open>rotate_key\<close> on a manager reached by calls, in closed form. Without keys of that id it
  is an error. Otherwise the manager gets one more key at the end of the list of that id,
  generated under the version after the last with the kind of the last, and nothing else of
  it changes, neither other keys nor policies; that version is greater than every version of
  the id. The two exceptions change nothing: when the last version is the greatest 32-bit
  number the addition panics in a debug build, and in a release build the wrapped version 0
  is refused; and when the expiry day does not fit 32 bits a debug build panics.
\<close>

theorem rotate_key_adds_newest_version:
  assumes "reachable km_init (km_step C bld) M"
  shows "rotate_key C bld M kid day seed =
      (let ks = bucket M kid; newest = mk_reference (last ks); v = kr_version newest + 1 in
       if ks = [] then (Err (KeyNotFound kid), M)
       else if kr_version newest = -1
       then (case bld of Debug \<Rightarrow> Panic
           | Release \<Rightarrow> Err (InvalidInput ''key version must be greater than zero''), M)
       else if bld = Debug \<and> 2 ^ 32 \<le> unat day + unat (rotate_every_days (km_rotation_policy M))
       then (Panic, M)
       else (Ok \<lparr>kr_key_id = kid, kr_version = v, kr_kind = kr_kind newest\<rparr>,
         M\<lparr>km_keys := bt_insert kid (ks @ [fresh_key C M kid (kr_kind newest) v day seed]) (km_keys M)\<rparr>)) \<and>
    (\<forall>k. k \<in> set (bucket M kid) \<and> mk_version (last (bucket M kid)) \<noteq> -1 \<longrightarrow>
      mk_version k < mk_version (last (bucket M kid)) + 1)"
proof -
  have wf: "km_wf M" using assms by (rule revocation.reachable_inv)
  let ?v = "mk_version (last (bucket M kid))"
  have above: "mk_version k < ?v + 1" if "k \<in> set (bucket M kid)" "?v \<noteq> -1" for k
  proof -
    have "?v + 1 \<noteq> 0" using that(2) by (metis add_eq_0_iff2)
    then show ?thesis using bucket_versions [OF wf that(1)] succ_greater [of ?v] by (meson order.strict_trans1)
  qed
  consider (none) "bucket M kid = []" | (greatest) "bucket M kid \<noteq> []" "?v = -1"
    | (later) "bucket M kid \<noteq> []" "?v \<noteq> -1" by blast
  then show ?thesis
  proof cases
    case none
    then show ?thesis by (simp add: rotate_key_def bt_get_bucket [OF wf])
  next
    case greatest
    then show ?thesis using rotate_key_greatest_version [OF wf greatest] by (simp add: Let_def)
  next
    case later
    have fits: "add_checked bld ?v 1 = (Ok (?v + 1) :: u32 security_result)"
    proof (rule add_checked_fits)
      have "unat ?v \<noteq> 2 ^ 32 - 1"
        using later(2) by (simp add: word_unat_eq_iff unsigned_minus_1_eq_mask mask_eq_exp_minus_1)
      then show "unat ?v + unat (1 :: u32) < 2 ^ LENGTH(32)" using unat_bound [of ?v] by simp
    qed
    have "\<not> trim_is_empty kid" using km_wf_bucket [OF wf later(1)] by (simp add: bucket_ok_def)
    moreover have "?v + 1 \<noteq> 0" using later(2) by (metis add_eq_0_iff2)
    ultimately show ?thesis
      using later above generate_key_appends [OF wf, of kid "?v + 1"] fits
      by (auto simp: rotate_key_def bt_get_bucket [OF wf] Let_def)
  qed
qed

lemma generate_key_stored:
  assumes "generate_key C bld M kid kd v d s = (Ok r, M')"
  shows "r = \<lparr>kr_key_id = kid, kr_version = v, kr_kind = kd\<rparr>"
    and "km_rotation_policy M' = km_rotation_policy M" "km_policies M' = km_policies M"
    and "kid' \<noteq> kid \<Longrightarrow> bt_get (km_keys M') kid' = bt_get (km_keys M) kid'"
    and "bt_get (km_keys M') kid \<noteq> None"
  using assms by (cases rule: generate_key_cases [of C bld M kid kd v d s]; auto)+

lemma generated_key_served:
  assumes "lookup_key M kid v = None" "generate_key C bld M kid kd v d s = (Ok r, M')"
    and "authorize_key M' identity r = Ok ()"
    and "unat d + unat (rotate_every_days (km_rotation_policy M)) +
      unat (overlap_days (km_rotation_policy M)) < 2 ^ 32"
    and "unat day \<le> unat d + unat (rotate_every_days (km_rotation_policy M)) +
      unat (overlap_days (km_rotation_policy M))"
  shows "retrieve_key bld' M' identity r day = Ok (derive_key_material C kid kd v s)"
proof -
  note stored = generate_key_stored [OF assms(2)]
  have "lookup_key M' kid v = Some (fresh_key C M kid kd v d s)"
    using assms(1) by (simp add: lookup_generate_key [OF assms(2)])
  moreover have "unat (d + rotate_every_days (km_rotation_policy M)) =
      unat d + unat (rotate_every_days (km_rotation_policy M))"
    using assms(4) by (intro unat_add_fits) simp
  ultimately show ?thesis
    using assms(3-5) stored(1,2)
    by (simp add: retrieve_key_Ok_iff add_checked_fits unat_add_fits word_le_nat_alt)
qed

lemma generated_key_material_stable:
  assumes "reachable km_init (km_step C bld) M" "lookup_key M kid v = None"
    and "generate_key C bld M kid kd v d s = (Ok r, M')" "(km_step C bld)\<^sup>*\<^sup>* M' M''"
    and "retrieve_key bld' M'' identity q day = Ok m" "kr_key_id q = kid" "kr_version q = v"
  shows "m = derive_key_material C kid kd v s"
proof -
  have "km_step C bld M M'" using km_step.generate [of C bld M kid kd v d s] assms(3) by simp
  then have "reachable km_init (km_step C bld) M'" by (rule reachable.move [OF assms(1)])
  moreover have "material_fact (kid, v, kd, derive_key_material C kid kd v s) M'"
    using assms(2) by (simp add: material_fact_def lookup_generate_key [OF assms(3)])
  ultimately have "material_fact (kid, v, kd, derive_key_material C kid kd v s) M''"
    using assms(4) by (rule material.reachable_fact)
  then show ?thesis using assms(5-7) by (auto simp: material_fact_def retrieve_key_Ok_iff)
qed

text \<open>
  Generating a version a second time returns \<open>Ok\<close>, but stores a key nothing can
  retrieve: every retrieval answers as it did before, with the first key's material.
\<close>

theorem regenerated_version_is_unreachable:
  assumes "lookup_key M kid v \<noteq> None" "generate_key C bld M kid kd v d s = (Ok r, M')"
  shows "retrieve_key bld' M' identity q day = retrieve_key bld' M identity q day"
proof -
  note stored = generate_key_stored [OF assms(2)]
  have look: "lookup_key M' kid' v' = lookup_key M kid' v'" for kid' v'
    using assms(1) by (auto simp: lookup_generate_key [OF assms(2)])
  obtain ks where ks: "bt_get (km_keys M) kid = Some ks"
    using assms(1) by (auto simp: lookup_key_def bucket_def split: option.splits)
  obtain ks' where ks': "bt_get (km_keys M') kid = Some ks'"
    using stored(5) by blast
  have found: "find (\<lambda>key. mk_version key = v') ks' = find (\<lambda>key. mk_version key = v') ks" for v'
    using look [of kid v'] ks ks' by (simp add: lookup_key_def bucket_def)
  have "authorize_key M' identity q = authorize_key M identity q"
    by (simp add: authorize_key_def stored(3))
  then show ?thesis
    by (cases "kr_key_id q = kid") (simp_all add: retrieve_key_def stored(2,4) ks ks' found Let_def cong: if_cong)
qed

definition loader_policy :: key_access_policy where
  "loader_policy =
     \<lparr>kp_identity = ''loader'', allowed_key_ids = {''model-key''}, allowed_kinds = {Encryption}\<rparr>"

definition policy_manager :: key_manager where
  "policy_manager = add_access_policy
     \<lparr>km_rotation_policy = \<lparr>rotate_every_days = 30, overlap_days = 7\<rparr>,
      km_keys = bt_new, km_policies = bt_new\<rparr> loader_policy"

definition one_key_manager :: "crypto \<Rightarrow> build \<Rightarrow> key_kind \<Rightarrow> key_manager" where
  "one_key_manager C bld kd = snd (generate_key C bld policy_manager ''model-key'' kd 1 0 42)"

definition model_key :: "crypto \<Rightarrow> key_kind \<Rightarrow> managed_key" where
  "model_key C kd =
     \<lparr>mk_reference = \<lparr>kr_key_id = ''model-key'', kr_version = 1, kr_kind = kd\<rparr>,
      mk_material = derive_key_material C ''model-key'' kd 1 42, mk_activated_day = 0,
      mk_expires_day = 30, mk_revoked = False\<rparr>"

lemma generate_model_key:
  "generate_key C bld policy_manager ''model-key'' kd 1 0 42 =
     (Ok \<lparr>kr_key_id = ''model-key'', kr_version = 1, kr_kind = kd\<rparr>, one_key_manager C bld kd)"
  by (simp add: one_key_manager_def generate_key_def policy_manager_def add_access_policy_def
      add_checked_def ascii_white_def Let_def)

lemma policy_manager_reachable: "reachable km_init (km_step C bld) policy_manager"
proof -
  have "reachable km_init (km_step C bld)
      \<lparr>km_rotation_policy = \<lparr>rotate_every_days = 30, overlap_days = 7\<rparr>,
       km_keys = bt_new, km_policies = bt_new\<rparr>"
    by (rule reachable.start)
      (auto simp: km_init_def key_manager_new_def rotation_policy_is_valid_def
        intro!: exI [of _ "\<lparr>rotate_every_days = 30, overlap_days = 7\<rparr>"])
  then show ?thesis unfolding policy_manager_def using km_step.policy by (rule reachable.move)
qed

lemma one_key_manager_reachable: "reachable km_init (km_step C bld) (one_key_manager C bld kd)"
  unfolding one_key_manager_def using policy_manager_reachable km_step.generate by (rule reachable.move)

lemma policy_manager_simps [simp]:
  "bucket policy_manager kid = []" "lookup_key policy_manager kid v = None"
  "bt_get (km_policies policy_manager) ''loader'' = Some loader_policy"
  "km_rotation_policy policy_manager = \<lparr>rotate_every_days = 30, overlap_days = 7\<rparr>"
  by (simp_all add: policy_manager_def add_access_policy_def bucket_def lookup_key_def loader_policy_def)

lemma one_key_manager_simps [simp]:
  "lookup_key (one_key_manager C bld kd) ''model-key'' 1 = Some (model_key C kd)"
  "bt_get (km_policies (one_key_manager C bld kd)) ''loader'' = Some loader_policy"
  "km_rotation_policy (one_key_manager C bld kd) = \<lparr>rotate_every_days = 30, overlap_days = 7\<rparr>"
  using lookup_generate_key [OF generate_model_key, where kid' = "''model-key''" and v' = 1]
    generate_key_stored [OF generate_model_key]
  by (simp_all add: fresh_key_def model_key_def)

lemma add_30_7 [simp]: "add_checked bld 30 7 = (Ok 37 :: u32 security_result)"
  by (simp add: add_checked_def)

text \<open>A manager with the kinds of its stored keys replaced.\<close>

definition relabel :: "(managed_key \<Rightarrow> key_kind) \<Rightarrow> managed_key \<Rightarrow> managed_key" where
  "relabel f k = k\<lparr>mk_reference := (mk_reference k)\<lparr>kr_kind := f k\<rparr>\<rparr>"

definition relabel_kinds :: "(managed_key \<Rightarrow> key_kind) \<Rightarrow> key_manager \<Rightarrow> key_manager" where
  "relabel_kinds f M = M\<lparr>km_keys := map (\<lambda>(kid, ks). (kid, map (relabel f) ks)) (km_keys M)\<rparr>"

lemma bt_get_map_values: "bt_get (map (\<lambda>(i, x). (i, g x)) m) i = map_option g (bt_get m i)"
  by (induction m i rule: bt_get.induct) auto

lemma find_map_same: "(\<And>x. P (g x) = P x) \<Longrightarrow> find P (map g xs) = map_option g (find P xs)"
  by (induction xs) auto

lemma retrieve_relabelled: "retrieve_key bld (relabel_kinds f M) identity r day = retrieve_key bld M identity r day"
proof -
  have "find (\<lambda>key. mk_version key = v) (map (relabel f) ks) =
      map_option (relabel f) (find (\<lambda>key. mk_version key = v) ks)" for v ks
    by (rule find_map_same) (simp add: relabel_def)
  then show ?thesis
    by (cases "bt_get (km_keys M) (kr_key_id r)")
      (simp_all add: retrieve_key_def authorize_key_def relabel_kinds_def bt_get_map_values ok_or_def
        relabel_def Let_def split: option.split cong: if_cong)
qed


text \<open>
  C40: expiry days at the end of the 32-bit range. Take a key that is not revoked and a
  reference to it that the policy of the identity allows. When the sum of expiry and overlap
  does not fit, \<open>retrieve_key\<close> panics in a debug build on every day, and in a release build the sum
  wraps: a key asked for on any day from the overlap up to its expiry is refused as
  expired, although its last day has not come.
\<close>

theorem expiry_overflow:
  assumes "authorize_key M identity r = Ok ()" "lookup_key M (kr_key_id r) (kr_version r) = Some k"
    and "\<not> mk_revoked k"
    and "2 ^ 32 \<le> unat (mk_expires_day k) + unat (overlap_days (km_rotation_policy M))"
    and "overlap_days (km_rotation_policy M) \<le> day" "day \<le> mk_expires_day k"
  shows "retrieve_key Debug M identity r any_day = Panic \<and>
    retrieve_key Release M identity r day = Err (KeyRevoked
      (versioned_name (kr_key_id (mk_reference k)) (mk_version k) @ '' expired''))"
proof -
  let ?e = "mk_expires_day k" and ?o = "overlap_days (km_rotation_policy M)"
  obtain ks where ks: "bt_get (km_keys M) (kr_key_id r) = Some ks"
    "find (\<lambda>key. mk_version key = kr_version r) ks = Some k"
    using assms(2) unfolding find_bucket [symmetric] by blast
  have "unat (?e + ?o) < unat ?o"
    using assms(4) unat_bound [of ?e] unat_bound [of ?o] by (auto simp: unat_word_ariths mod_if)
  then have "?e + ?o < day" using assms(5) by (simp add: word_less_nat_alt word_le_nat_alt)
  then show ?thesis
    using assms(1,3,4) ks by (simp add: retrieve_key_def add_checked_def Let_def)
qed

text \<open>
  C16: the manager's invariant holds in every state reached by calls: the rotation policy
  is valid, every stored version list is non-empty, sorted by version and filed under its
  own non-blank key id, no version is 0, all material has 32 bytes, and every policy is
  filed under its identity.
\<close>

theorem key_manager_invariant:
  assumes "reachable km_init (km_step C bld) M"
  shows "km_wf M"
  using assms by (rule revocation.reachable_inv)

text \<open>
  The manager refines a map from key id and version to keys. \<open>generate_key\<close> adds its
  key where the map has none and otherwise leaves the map alone, \<open>revoke_key\<close> marks the one
  key it names and fails, changing nothing, exactly when the map has none, and adding a
  policy does not touch the map.
\<close>

theorem key_map_refinement:
  "(generate_key C bld M kid kd v d s = (Ok r, M') \<longrightarrow>
      (\<lambda>(i, w). lookup_key M' i w) =
        (if lookup_key M kid v = None
         then (\<lambda>(i, w). lookup_key M i w)((kid, v) \<mapsto> fresh_key C M kid kd v d s)
         else (\<lambda>(i, w). lookup_key M i w))) \<and>
   (\<lambda>(i, w). lookup_key (snd (revoke_key M kid v)) i w) =
     (\<lambda>(i, w). lookup_key M i w)
       ((kid, v) := map_option (mk_revoked_update (\<lambda>_. True)) (lookup_key M kid v)) \<and>
   (is_ok (fst (revoke_key M kid v)) \<longleftrightarrow> lookup_key M kid v \<noteq> None) \<and>
   (\<lambda>(i, w). lookup_key (add_access_policy M p) i w) = (\<lambda>(i, w). lookup_key M i w)"
proof (intro conjI impI)
  show "is_ok (fst (revoke_key M kid v)) \<longleftrightarrow> lookup_key M kid v \<noteq> None"
    by (cases rule: revoke_key_cases [of M kid v]) auto
qed (auto simp: fun_eq_iff lookup_generate_key lookup_revoke_key)

section \<open>Applications at concrete inputs\<close>

lemma loader_authorized:
  "authorize_key (one_key_manager C bld Encryption) ''loader''
     \<lparr>kr_key_id = ''model-key'', kr_version = 1, kr_kind = Encryption\<rparr> = Ok ()"
  by (simp add: authorize_key_Ok_iff loader_policy_def)

theorem retrieve_key_exact_witness:
  "retrieve_key Debug (one_key_manager sample_crypto Debug Encryption) ''loader''
     \<lparr>kr_key_id = ''model-key'', kr_version = 1, kr_kind = Encryption\<rparr> 37 =
   Ok (mk_material (model_key sample_crypto Encryption))"
  by (subst retrieve_key_exact) (simp add: model_key_def loader_policy_def)

theorem revoked_key_stays_revoked_witness:
  "fst (revoke_key (one_key_manager sample_crypto Debug Tls) ''model-key'' 1) = Ok () \<and>
   \<not> is_ok (retrieve_key Debug (snd (revoke_key (one_key_manager sample_crypto Debug Tls) ''model-key'' 1))
     ''loader'' \<lparr>kr_key_id = ''model-key'', kr_version = 1, kr_kind = Encryption\<rparr> 2)"
proof
  show ok: "fst (revoke_key (one_key_manager sample_crypto Debug Tls) ''model-key'' 1) = Ok ()"
    by (cases rule: revoke_key_cases [of "one_key_manager sample_crypto Debug Tls" "''model-key''" 1])
      auto
  show "\<not> is_ok (retrieve_key Debug
      (snd (revoke_key (one_key_manager sample_crypto Debug Tls) ''model-key'' 1))
      ''loader'' \<lparr>kr_key_id = ''model-key'', kr_version = 1, kr_kind = Encryption\<rparr> 2)"
    by (rule revoked_key_stays_revoked [OF one_key_manager_reachable ok rtranclp.rtrancl_refl]) simp_all
qed

lemma one_key_manager_bucket:
  "bt_get (km_keys (one_key_manager C bld kd)) ''model-key'' = Some [model_key C kd]"
  by (simp add: one_key_manager_def generate_key_def add_checked_def ascii_white_def Let_def model_key_def)

lemma rotate_model_key:
  "fst (rotate_key C bld (one_key_manager C bld kd) ''model-key'' 30 99) =
     Ok \<lparr>kr_key_id = ''model-key'', kr_version = 2, kr_kind = kd\<rparr>"
proof -
  have "add_checked bld 1 1 = (Ok 2 :: u32 security_result)"
    "add_checked bld 30 30 = (Ok 60 :: u32 security_result)"
    by (simp_all add: add_checked_def)
  then show ?thesis
    by (simp add: rotate_key_def one_key_manager_bucket generate_key_def ascii_white_def Let_def model_key_def)
qed

theorem rotate_key_adds_newest_version_witness:
  "fst (rotate_key sample_crypto Debug (one_key_manager sample_crypto Debug Tls) ''model-key'' 30 99) =
      Ok \<lparr>kr_key_id = ''model-key'', kr_version = 2, kr_kind = Tls\<rparr> \<and>
    km_policies (snd (rotate_key sample_crypto Debug (one_key_manager sample_crypto Debug Tls) ''model-key'' 30 99)) =
      km_policies (one_key_manager sample_crypto Debug Tls)"
proof -
  have "bucket (one_key_manager sample_crypto Debug Tls) ''model-key'' = [model_key sample_crypto Tls]"
    by (simp add: bucket_def one_key_manager_bucket)
  then show ?thesis
    unfolding conjunct1 [OF rotate_key_adds_newest_version [OF one_key_manager_reachable]]
    by (simp add: model_key_def)
qed

theorem regenerated_version_is_unreachable_witness:
  "fst (generate_key sample_crypto Debug (one_key_manager sample_crypto Debug Encryption)
     ''model-key'' Encryption 1 0 7) = Ok \<lparr>kr_key_id = ''model-key'', kr_version = 1, kr_kind = Encryption\<rparr> \<and>
   retrieve_key Debug (snd (generate_key sample_crypto Debug
       (one_key_manager sample_crypto Debug Encryption) ''model-key'' Encryption 1 0 7)) ''loader''
     \<lparr>kr_key_id = ''model-key'', kr_version = 1, kr_kind = Encryption\<rparr> 2 =
   retrieve_key Debug (one_key_manager sample_crypto Debug Encryption) ''loader''
     \<lparr>kr_key_id = ''model-key'', kr_version = 1, kr_kind = Encryption\<rparr> 2"
proof -
  let ?M = "one_key_manager sample_crypto Debug Encryption"
  let ?r = "\<lparr>kr_key_id = ''model-key'', kr_version = 1, kr_kind = Encryption\<rparr>"
  have gen: "generate_key sample_crypto Debug ?M ''model-key'' Encryption 1 0 7 =
      (Ok ?r, snd (generate_key sample_crypto Debug ?M ''model-key'' Encryption 1 0 7))"
    by (simp add: generate_key_def add_checked_def ascii_white_def Let_def)
  have "retrieve_key Debug (snd (generate_key sample_crypto Debug ?M ''model-key'' Encryption 1 0 7))
      ''loader'' ?r 2 = retrieve_key Debug ?M ''loader'' ?r 2"
    by (rule regenerated_version_is_unreachable [OF _ gen]) simp
  then show ?thesis using gen by (metis fst_conv)
qed

theorem expiry_overflow_witness:
  "\<exists>M r. retrieve_key Debug M ''loader'' r 0 = Panic"
proof -
  let ?M = "(one_key_manager sample_crypto Debug Encryption)
    \<lparr>km_keys := [(''model-key'', [(model_key sample_crypto Encryption)\<lparr>mk_expires_day := 4294967290\<rparr>])]\<rparr>"
  let ?k = "(model_key sample_crypto Encryption)\<lparr>mk_expires_day := 4294967290\<rparr>"
  have "retrieve_key Debug ?M ''loader'' (mk_reference ?k) 0 = Panic \<and>
    retrieve_key Release ?M ''loader'' (mk_reference ?k) 4294967290 = Err (KeyRevoked
      (versioned_name (kr_key_id (mk_reference ?k)) (mk_version ?k) @ '' expired''))"
    by (rule expiry_overflow [where day = 4294967290])
      (simp_all add: authorize_key_Ok_iff loader_policy_def model_key_def lookup_key_def bucket_def)
  then show ?thesis by blast
qed


theorem key_manager_invariant_witness: "km_wf (one_key_manager sample_crypto Debug Tls)"
  by (rule key_manager_invariant [OF one_key_manager_reachable])

theorem key_map_refinement_witness:
  "lookup_key (one_key_manager sample_crypto Debug Tls) ''model-key'' 1 =
     Some (fresh_key sample_crypto policy_manager ''model-key'' Tls 1 0 42)"
proof -
  have "(\<lambda>(i, w). lookup_key (one_key_manager sample_crypto Debug Tls) i w) =
      (if lookup_key policy_manager ''model-key'' 1 = None
       then (\<lambda>(i, w). lookup_key policy_manager i w)
         ((''model-key'', 1) \<mapsto> fresh_key sample_crypto policy_manager ''model-key'' Tls 1 0 42)
       else (\<lambda>(i, w). lookup_key policy_manager i w))"
    by (rule mp [OF conjunct1 [OF key_map_refinement] generate_model_key])
  from fun_cong [OF this, of "(''model-key'', 1)"] show ?thesis by simp
qed

end
