(* ===== verification/Encryption.thy ===== *)
theory Encryption
  imports External_Crypto Byte_Order Key_Management
begin

text \<open>
  \<open>src/encryption.rs\<close>: key derivation with HKDF, encryption and decryption of shards with
  AES-256-GCM, and the per-tier policy. The crates \<open>hkdf\<close> and \<open>aes-gcm\<close> are a record of
  parameters with their documented behaviour as laws. The theory proves that decryption
  accepts exactly what encryption produces, which inputs the derivation separates, and
  which fields of the metadata nobody reads.
\<close>

section \<open>The seed as bytes\<close>

text \<open>\<open>to_be_bytes\<close> and \<open>from_be_bytes\<close> of \<open>u64\<close>.\<close>

definition to_be_bytes :: "u64 \<Rightarrow> u8 list" where
  "to_be_bytes w = be_bytes 8 (unat w)"

definition from_be_bytes :: "u8 list \<Rightarrow> u64" where
  "from_be_bytes bs = word_of_nat (be_number bs)"

lemma length_to_be_bytes [simp]: "length (to_be_bytes w) = 8"
  by (simp add: to_be_bytes_def)

lemma from_to_be_bytes [simp]: "from_be_bytes (to_be_bytes w) = w"
  using unat_bound [of w] by (simp add: from_be_bytes_def to_be_bytes_def be_number_be_bytes)

lemma to_from_be_bytes: "length bs = 8 \<Longrightarrow> to_be_bytes (from_be_bytes bs) = bs"
  using be_number_bound [of bs] be_bytes_be_number [of bs]
  by (simp add: from_be_bytes_def to_be_bytes_def unat_of_nat)

section \<open>The crates hkdf and aes-gcm\<close>

text \<open>
  \<open>hk_expand salt ikm info n\<close> is \<open>Hkdf::<Sha256>::new(Some(salt), ikm).expand(info, out)\<close>
  for a buffer of \<open>n\<close> bytes, \<open>None\<close> its length error. \<open>'c\<close> is a cipher with its key. The
  associated data is empty in every call of the code.
\<close>

record 'c aead_kit =
  hk_expand :: "u8 list \<Rightarrow> u8 list \<Rightarrow> u8 list \<Rightarrow> nat \<Rightarrow> u8 list option"
  aes_new :: "u8 list \<Rightarrow> string + 'c"
  aes_encrypt :: "'c \<Rightarrow> 12 bytes \<Rightarrow> u8 list \<Rightarrow> string + u8 list"
  aes_decrypt :: "'c \<Rightarrow> 12 bytes \<Rightarrow> u8 list \<Rightarrow> string + u8 list"

text \<open>
  HKDF-SHA256 gives up to 255 digests of output; a key of 32 bytes is accepted; the cipher
  takes plaintexts up to 2 to the 36 bytes and appends a tag of 16 bytes; decryption inverts
  encryption and, the tag being a function of key, nonce and plaintext, gives back only
  plaintexts whose encryption is the ciphertext at hand.
\<close>

definition aead_laws :: "'c aead_kit \<Rightarrow> bool" where
  "aead_laws K \<longleftrightarrow>
     (\<forall>salt ikm info n. n \<le> 255 * 32 \<longrightarrow>
        (\<exists>out. hk_expand K salt ikm info n = Some out \<and> length out = n)) \<and>
     (\<forall>key. length key = 32 \<longrightarrow> (\<exists>c. aes_new K key = Inr c)) \<and>
     (\<forall>c nonce p. length p \<le> 2 ^ 36 \<longrightarrow> (\<exists>ct. aes_encrypt K c nonce p = Inr ct)) \<and>
     (\<forall>c nonce p ct. aes_encrypt K c nonce p = Inr ct \<longrightarrow> length ct = length p + 16) \<and>
     (\<forall>c nonce p ct. aes_decrypt K c nonce ct = Inr p \<longleftrightarrow> aes_encrypt K c nonce p = Inr ct)"

section \<open>Data\<close>

definition AES_256_GCM_ALGORITHM :: string where
  "AES_256_GCM_ALGORITHM = ''aes-256-gcm-v1''"

definition AES_GCM_NONCE_SIZE :: nat where
  "AES_GCM_NONCE_SIZE = 12"

record derived_key =
  dk_bytes :: "32 bytes"
  dk_nonce :: "12 bytes"

record encryption_metadata =
  em_algorithm :: string
  em_tier :: tier_id
  em_key_id :: string
  em_key_version :: u32
  em_nonce_hex :: string
  em_auth_tag_hex :: string

record encrypted_shard =
  es_ciphertext :: "u8 list"
  es_metadata :: encryption_metadata

record tier_encryption_policy =
  required_encrypted_tiers :: "tier_id set"
  tier_key_map :: "(tier_id, string) btree_map"

section \<open>Operations\<close>

text \<open>The nonce of \<open>derive\<close>: the prefix LLMK and the seed, most significant byte first.\<close>

definition seed_nonce :: "u64 \<Rightarrow> 12 bytes" where
  "seed_nonce seed = array_pad ([0x4C, 0x4C, 0x4D, 0x4B] @ to_be_bytes seed)"

definition derive_info :: "tier_id \<Rightarrow> u64 \<Rightarrow> string" where
  "derive_info tier seed = display tier @ '':'' @ display seed"

definition derive :: "'c aead_kit \<Rightarrow> u8 list \<Rightarrow> tier_id \<Rightarrow> u64 \<Rightarrow> derived_key security_result" where
  "derive K master_key tier seed =
     (case hk_expand K master_key (as_bytes ''lite-llm-derivation'')
         (as_bytes (derive_info tier seed)) 32 of
        None \<Rightarrow> Panic
      | Some bytes \<Rightarrow> Ok \<lparr>dk_bytes = array_pad bytes, dk_nonce = seed_nonce seed\<rparr>)"

definition key_for_tier :: "tier_encryption_policy \<Rightarrow> tier_id \<Rightarrow> string option" where
  "key_for_tier policy tier = bt_get (tier_key_map policy) tier"

definition requires_encryption :: "tier_encryption_policy \<Rightarrow> tier_id \<Rightarrow> bool" where
  "requires_encryption policy tier \<longleftrightarrow> tier \<in> required_encrypted_tiers policy"

definition encrypt_shard_at_rest ::
  "crypto \<Rightarrow> 'c aead_kit \<Rightarrow> u8 list \<Rightarrow> tier_id \<Rightarrow> key_material_ref \<Rightarrow> u8 list \<Rightarrow> u64 \<Rightarrow>
   encrypted_shard security_result" where
  "encrypt_shard_at_rest C K plaintext tier key_ref key_bytes seed =
     (if key_bytes = [] then Err (EncryptionFailed ''key material must not be empty'')
      else
        and_then (derive K key_bytes tier seed) (\<lambda>derived.
        and_then (map_err (\<lambda>e. EncryptionFailed (''invalid derived key: '' @ e))
            (aes_new K (slice_of (dk_bytes derived)))) (\<lambda>cipher.
        and_then (map_err (\<lambda>e. EncryptionFailed (''aes-gcm encryption failed: '' @ e))
            (aes_encrypt K cipher (dk_nonce derived) plaintext)) (\<lambda>ciphertext_with_tag.
          let tag_start = length ciphertext_with_tag - 16;
              auth_tag_hex = hex_enc C (drop tag_start ciphertext_with_tag) in
          Ok \<lparr>es_ciphertext = ciphertext_with_tag,
            es_metadata = \<lparr>em_algorithm = AES_256_GCM_ALGORITHM, em_tier = tier,
              em_key_id = kr_key_id key_ref, em_key_version = kr_version key_ref,
              em_nonce_hex = hex_enc C (slice_of (dk_nonce derived)),
              em_auth_tag_hex = auth_tag_hex\<rparr>\<rparr>))))"

definition extract_seed_from_nonce :: "crypto \<Rightarrow> string \<Rightarrow> u64 security_result" where
  "extract_seed_from_nonce C nonce_hex =
     and_then (map_err (\<lambda>e. DecryptionFailed (''invalid nonce hex: '' @ e)) (hex_dec C nonce_hex))
     (\<lambda>nonce.
       if length nonce \<noteq> AES_GCM_NONCE_SIZE then Err (DecryptionFailed ''nonce must be 12 bytes'')
       else Ok (from_be_bytes (take 8 (drop 4 nonce))))"

definition decrypt_shard_at_rest ::
  "crypto \<Rightarrow> 'c aead_kit \<Rightarrow> encrypted_shard \<Rightarrow> key_material_ref \<Rightarrow> u8 list \<Rightarrow> u8 list security_result" where
  "decrypt_shard_at_rest C K encrypted key_ref key_bytes =
     (let meta = es_metadata encrypted in
      if em_key_id meta \<noteq> kr_key_id key_ref \<or> em_key_version meta \<noteq> kr_version key_ref
      then Err (DecryptionFailed ''key reference does not match encrypted metadata'')
      else
        and_then (extract_seed_from_nonce C (em_nonce_hex meta)) (\<lambda>seed.
        and_then (derive K key_bytes (em_tier meta) seed) (\<lambda>derived.
        and_then (map_err (\<lambda>e. DecryptionFailed (''invalid derived key: '' @ e))
            (aes_new K (slice_of (dk_bytes derived)))) (\<lambda>cipher.
          map_err (\<lambda>_. IntegrityViolation ''authentication tag mismatch or corrupted ciphertext'')
            (aes_decrypt K cipher (dk_nonce derived) (es_ciphertext encrypted))))))"

definition compute_shard_digest :: "crypto \<Rightarrow> u8 list \<Rightarrow> string" where
  "compute_shard_digest C data = sha256_hex C data"

section \<open>Facts about derivation\<close>

lemma slice_of_seed_nonce: "slice_of (seed_nonce seed) = [0x4C, 0x4C, 0x4D, 0x4B] @ to_be_bytes seed"
  by (simp add: seed_nonce_def)

lemma extract_seed_nonce_bytes:
  assumes "hex_dec C h = Inr bs" "length bs = 12"
  shows "extract_seed_from_nonce C h = Ok (from_be_bytes (drop 4 bs))"
  using assms by (simp add: extract_seed_from_nonce_def AES_GCM_NONCE_SIZE_def)

lemma extract_seed_of_nonce:
  assumes "crypto_laws C"
  shows "extract_seed_from_nonce C (hex_enc C (slice_of (seed_nonce seed))) = Ok seed"
  using extract_seed_nonce_bytes [OF hex_dec_enc [OF assms], of "slice_of (seed_nonce seed)"]
  by (simp add: slice_of_seed_nonce)

lemma aead_decrypts:
  "aead_laws K \<Longrightarrow> aes_decrypt K c nonce ct = Inr p \<longleftrightarrow> aes_encrypt K c nonce p = Inr ct"
  by (simp add: aead_laws_def)

lemma aead_ciphertext_length: "aead_laws K \<Longrightarrow> aes_encrypt K c nonce p = Inr ct \<Longrightarrow> length ct = length p + 16"
  by (simp add: aead_laws_def)

lemma aead_encrypts: "aead_laws K \<Longrightarrow> length p \<le> 2 ^ 36 \<Longrightarrow> \<exists>ct. aes_encrypt K c nonce p = Inr ct"
  unfolding aead_laws_def by blast

lemma aead_key: "aead_laws K \<Longrightarrow> length key = 32 \<Longrightarrow> \<exists>c. aes_new K key = Inr c"
  unfolding aead_laws_def by blast

text \<open>
  The cipher a call works with: derived from master key, tier and seed, set up with a key of
  the right length.
\<close>

definition cipher_for :: "'c aead_kit \<Rightarrow> u8 list \<Rightarrow> tier_id \<Rightarrow> u64 \<Rightarrow> 'c \<Rightarrow> bool" where
  "cipher_for K key tier seed c \<longleftrightarrow>
     (\<exists>derived. derive K key tier seed = Ok derived \<and> dk_nonce derived = seed_nonce seed \<and>
       aes_new K (slice_of (dk_bytes derived)) = Inr c)"

lemma cipher_for_exists:
  assumes "aead_laws K"
  shows "\<exists>c. cipher_for K key tier seed c"
proof -
  have "(32 :: nat) \<le> 255 * 32" by simp
  with assms obtain out where "hk_expand K key (as_bytes ''lite-llm-derivation'')
      (as_bytes (derive_info tier seed)) 32 = Some out"
    unfolding aead_laws_def by blast
  then have "derive K key tier seed = Ok \<lparr>dk_bytes = array_pad out, dk_nonce = seed_nonce seed\<rparr>"
    by (simp add: derive_def)
  then show ?thesis
    using aead_key [OF assms, of "slice_of (array_pad out :: 32 bytes)"] by (simp add: cipher_for_def)
qed

lemma cipher_for_unique: "cipher_for K key tier seed c \<Longrightarrow> cipher_for K key tier seed d \<Longrightarrow> c = d"
  by (auto simp: cipher_for_def)

lemma encrypt_eq:
  assumes "cipher_for K key tier seed c" "key \<noteq> []"
  shows "encrypt_shard_at_rest C K p tier r key seed =
    and_then (map_err (\<lambda>e. EncryptionFailed (''aes-gcm encryption failed: '' @ e))
      (aes_encrypt K c (seed_nonce seed) p))
    (\<lambda>ct. Ok \<lparr>es_ciphertext = ct,
        es_metadata = \<lparr>em_algorithm = AES_256_GCM_ALGORITHM, em_tier = tier,
          em_key_id = kr_key_id r, em_key_version = kr_version r,
          em_nonce_hex = hex_enc C (slice_of (seed_nonce seed)),
          em_auth_tag_hex = hex_enc C (drop (length ct - 16) ct)\<rparr>\<rparr>)"
  using assms by (auto simp: encrypt_shard_at_rest_def cipher_for_def Let_def)

lemma decrypt_eq:
  assumes "extract_seed_from_nonce C (em_nonce_hex (es_metadata s)) = Ok seed"
    and "cipher_for K key (em_tier (es_metadata s)) seed c"
  shows "decrypt_shard_at_rest C K s r key =
    (if em_key_id (es_metadata s) \<noteq> kr_key_id r \<or> em_key_version (es_metadata s) \<noteq> kr_version r
     then Err (DecryptionFailed ''key reference does not match encrypted metadata'')
     else map_err (\<lambda>_. IntegrityViolation ''authentication tag mismatch or corrupted ciphertext'')
       (aes_decrypt K c (seed_nonce seed) (es_ciphertext s)))"
  using assms by (auto simp: decrypt_shard_at_rest_def cipher_for_def Let_def)

lemma derive_info_inject: "derive_info tier seed = derive_info tier' seed' \<longleftrightarrow> tier = tier' \<and> seed = seed'"
proof
  assume "derive_info tier seed = derive_info tier' seed'"
  then have "display tier @ CHR '':'' # display seed = display tier' @ CHR '':'' # display seed'"
    by (simp add: derive_info_def)
  then have "display tier = display tier' \<and> display seed = display seed'"
    by (rule split_at_separator) simp_all
  then show "tier = tier' \<and> seed = seed'" by simp
qed simp

lemma seed_nonce_inject: "seed_nonce seed = seed_nonce seed' \<longleftrightarrow> seed = seed'"
proof
  assume "seed_nonce seed = seed_nonce seed'"
  then have "to_be_bytes seed = to_be_bytes seed'"
    using slice_of_seed_nonce [of seed] slice_of_seed_nonce [of seed'] by simp
  then show "seed = seed'" by (metis from_to_be_bytes)
qed simp

lemma extract_seed_Ok_iff:
  "extract_seed_from_nonce C h = Ok seed \<longleftrightarrow>
     (\<exists>prefix. length prefix = 4 \<and> hex_dec C h = Inr (prefix @ to_be_bytes seed))"
proof
  assume "extract_seed_from_nonce C h = Ok seed"
  then obtain bs where bs: "hex_dec C h = Inr bs" "length bs = 12" "seed = from_be_bytes (drop 4 bs)"
    by (auto simp: extract_seed_from_nonce_def AES_GCM_NONCE_SIZE_def ok_iffs)
  then have "bs = take 4 bs @ to_be_bytes seed" by (simp add: to_from_be_bytes)
  with bs show "\<exists>prefix. length prefix = 4 \<and> hex_dec C h = Inr (prefix @ to_be_bytes seed)"
    by (intro exI [of _ "take 4 bs"]) auto
qed (auto simp: extract_seed_nonce_bytes)

lemma extract_seed_error:
  "extract_seed_from_nonce C h \<noteq> Panic"
  "extract_seed_from_nonce C h = Err e \<Longrightarrow> \<exists>msg. e = DecryptionFailed msg"
  by (auto simp: extract_seed_from_nonce_def map_err_def split: sum.splits if_splits)

lemma decrypt_encrypted:
  assumes "crypto_laws C" "aead_laws K"
    and ok: "encrypt_shard_at_rest C K p tier r key seed = Ok s"
    and "kr_key_id q = kr_key_id r" "kr_version q = kr_version r"
  shows "decrypt_shard_at_rest C K s q key = Ok p"
proof -
  obtain c where c: "cipher_for K key tier seed c" using cipher_for_exists [OF assms(2)] ..
  have "key \<noteq> []" using ok by (auto simp: encrypt_shard_at_rest_def)
  with ok obtain ct where ct: "aes_encrypt K c (seed_nonce seed) p = Inr ct"
    and s: "s = \<lparr>es_ciphertext = ct, es_metadata = \<lparr>em_algorithm = AES_256_GCM_ALGORITHM, em_tier = tier,
      em_key_id = kr_key_id r, em_key_version = kr_version r,
      em_nonce_hex = hex_enc C (slice_of (seed_nonce seed)),
      em_auth_tag_hex = hex_enc C (drop (length ct - 16) ct)\<rparr>\<rparr>"
    by (auto simp: encrypt_eq [OF c] ok_iffs)
  then show ?thesis
    using decrypt_eq [of C s seed K key c q] c assms(4,5)
    by (simp add: extract_seed_of_nonce [OF assms(1)] ct [folded aead_decrypts [OF assms(2)]])
qed

lemma encrypt_succeeds:
  assumes "crypto_laws C" "aead_laws K" "key \<noteq> []" "length p \<le> 2 ^ 36"
  shows "\<exists>s. encrypt_shard_at_rest C K p tier r key seed = Ok s \<and>
    length (es_ciphertext s) = length p + 16 \<and>
    em_auth_tag_hex (es_metadata s) = hex_enc C (drop (length p) (es_ciphertext s)) \<and>
    em_nonce_hex (es_metadata s) = hex_enc C (slice_of (seed_nonce seed))"
proof -
  obtain c where c: "cipher_for K key tier seed c" using cipher_for_exists [OF assms(2)] ..
  obtain ct where ct: "aes_encrypt K c (seed_nonce seed) p = Inr ct"
    using aead_encrypts [OF assms(2,4)] by blast
  then show ?thesis
    by (simp add: encrypt_eq [OF c assms(3)] aead_ciphertext_length [OF assms(2) ct])
qed

text \<open>The ciphertext that a key, tier and seed give for a plaintext.\<close>

definition ciphertext_of :: "'c aead_kit \<Rightarrow> u8 list \<Rightarrow> tier_id \<Rightarrow> u64 \<Rightarrow> u8 list \<Rightarrow> u8 list \<Rightarrow> bool" where
  "ciphertext_of K key tier seed plaintext ct \<longleftrightarrow>
     (\<exists>c. cipher_for K key tier seed c \<and> aes_encrypt K c (seed_nonce seed) plaintext = Inr ct)"

lemma ciphertext_of_cipher:
  "cipher_for K key tier seed c \<Longrightarrow>
    ciphertext_of K key tier seed p ct \<longleftrightarrow> aes_encrypt K c (seed_nonce seed) p = Inr ct"
  using cipher_for_unique unfolding ciphertext_of_def by metis

lemma ciphertext_of_encrypt:
  assumes "aead_laws K" "key \<noteq> []"
  shows "ciphertext_of K key tier seed p ct \<longleftrightarrow>
    (\<exists>s. encrypt_shard_at_rest C K p tier r key seed = Ok s \<and> es_ciphertext s = ct)"
proof -
  obtain c where c: "cipher_for K key tier seed c" using cipher_for_exists [OF assms(1)] ..
  show ?thesis by (auto simp: ciphertext_of_cipher [OF c] encrypt_eq [OF c assms(2)] ok_iffs)
qed

lemma decrypt_Ok_iff:
  assumes "aead_laws K"
  shows "decrypt_shard_at_rest C K s r key = Ok p \<longleftrightarrow>
    em_key_id (es_metadata s) = kr_key_id r \<and> em_key_version (es_metadata s) = kr_version r \<and>
    (\<exists>seed. extract_seed_from_nonce C (em_nonce_hex (es_metadata s)) = Ok seed \<and>
      ciphertext_of K key (em_tier (es_metadata s)) seed p (es_ciphertext s))"
proof (cases "extract_seed_from_nonce C (em_nonce_hex (es_metadata s))")
  case (Ok seed)
  obtain c where c: "cipher_for K key (em_tier (es_metadata s)) seed c"
    using cipher_for_exists [OF assms] ..
  show ?thesis
    using Ok by (auto simp: decrypt_eq [OF Ok c] ok_iffs ciphertext_of_cipher [OF c] aead_decrypts [OF assms])
qed (auto simp: decrypt_shard_at_rest_def Let_def)

section \<open>Properties\<close>

text \<open>
  C13: what is encrypted is decrypted. For a non-empty key and a plaintext within the
  cipher's limit, \<open>encrypt_shard_at_rest\<close> succeeds, and \<open>decrypt_shard_at_rest\<close> under the same
  key and reference gives the plaintext back; the ciphertext is 16 bytes longer, its last 16
  bytes are the tag of the metadata, and the seed can be read from the nonce.
\<close>

theorem encrypt_decrypt_roundtrip:
  assumes "crypto_laws C" "aead_laws K" "key \<noteq> []" "length plaintext \<le> 2 ^ 36"
  shows "\<exists>s. encrypt_shard_at_rest C K plaintext tier r key seed = Ok s \<and>
    decrypt_shard_at_rest C K s r key = Ok plaintext \<and>
    length (es_ciphertext s) = length plaintext + 16 \<and>
    em_auth_tag_hex (es_metadata s) = hex_enc C (drop (length plaintext) (es_ciphertext s)) \<and>
    extract_seed_from_nonce C (em_nonce_hex (es_metadata s)) = Ok seed"
  using encrypt_succeeds [OF assms, of tier r seed] decrypt_encrypted [OF assms(1,2)]
  by (metis extract_seed_of_nonce [OF assms(1)])

text \<open>
  C7: decryption accepts exactly what encryption produces. For a non-empty key,
  \<open>decrypt_shard_at_rest\<close> returns a plaintext if and only if the reference is the one of the
  metadata, a seed can be read from the nonce, and encrypting that plaintext for the tier of
  the metadata with that seed under the same key gives the ciphertext at hand. Nothing else
  of the metadata matters. The empty key is where the two functions part: encryption always
  refuses it, while decryption does not look, and returns a plaintext if and only if the
  cipher derived from the empty key encrypts it to the ciphertext.
\<close>

theorem decrypt_exact:
  assumes "crypto_laws C" "aead_laws K"
  shows "if key = []
    then encrypt_shard_at_rest C K q tier r' key seed' =
        Err (EncryptionFailed ''key material must not be empty'') \<and>
      (decrypt_shard_at_rest C K s r key = Ok p \<longleftrightarrow>
        em_key_id (es_metadata s) = kr_key_id r \<and> em_key_version (es_metadata s) = kr_version r \<and>
        (\<exists>seed. extract_seed_from_nonce C (em_nonce_hex (es_metadata s)) = Ok seed \<and>
          ciphertext_of K key (em_tier (es_metadata s)) seed p (es_ciphertext s)))
    else decrypt_shard_at_rest C K s r key = Ok p \<longleftrightarrow>
      em_key_id (es_metadata s) = kr_key_id r \<and> em_key_version (es_metadata s) = kr_version r \<and>
      (\<exists>seed s'. extract_seed_from_nonce C (em_nonce_hex (es_metadata s)) = Ok seed \<and>
        encrypt_shard_at_rest C K p (em_tier (es_metadata s)) r key seed = Ok s' \<and>
        es_ciphertext s' = es_ciphertext s)"
proof (cases "key = []")
  case True
  then show ?thesis
    using decrypt_Ok_iff [OF assms(2)] by (simp add: encrypt_shard_at_rest_def)
next
  case False
  then show ?thesis
    by (simp only: decrypt_Ok_iff [OF assms(2)] ciphertext_of_encrypt [OF assms(2) False, of _ _ _ _ C r])
      auto
qed

text \<open>
  C26: the derivation keeps its inputs apart. Different pairs of tier and seed give different
  \<open>info\<close> texts to HKDF and different seeds give different nonces; and the seed read back from
  a nonce is the last eight bytes, whatever the prefix.
\<close>

theorem derivation_inputs_separated:
  assumes "crypto_laws C"
  shows "(derive_info tier seed = derive_info tier' seed' \<longleftrightarrow> tier = tier' \<and> seed = seed') \<and>
    (seed_nonce seed = seed_nonce seed' \<longleftrightarrow> seed = seed') \<and>
    (extract_seed_from_nonce C (hex_enc C nonce) = Ok seed \<longleftrightarrow>
      (\<exists>prefix. length prefix = 4 \<and> nonce = prefix @ to_be_bytes seed))"
  by (simp add: derive_info_inject seed_nonce_inject extract_seed_Ok_iff hex_dec_enc [OF assms])

text \<open>
  C25: the errors of decryption. A reference that is not the one of the metadata and a nonce
  that is not 12 bytes of hexadecimal text are \<open>DecryptionFailed\<close>; a ciphertext the cipher
  does not accept is \<open>IntegrityViolation\<close>; there is no other failure and no panic. The
  algorithm name and the tag text of the metadata have no influence.
\<close>

theorem decrypt_errors:
  assumes "aead_laws K"
  shows "(case decrypt_shard_at_rest C K s r key of
      Ok p \<Rightarrow> True
    | Err e \<Rightarrow>
        (if em_key_id (es_metadata s) = kr_key_id r \<and> em_key_version (es_metadata s) = kr_version r \<and>
            is_ok (extract_seed_from_nonce C (em_nonce_hex (es_metadata s)))
         then e = IntegrityViolation ''authentication tag mismatch or corrupted ciphertext''
         else \<exists>msg. e = DecryptionFailed msg)
    | Panic \<Rightarrow> False) \<and>
    decrypt_shard_at_rest C K
      (s\<lparr>es_metadata := es_metadata s\<lparr>em_algorithm := a, em_auth_tag_hex := t\<rparr>\<rparr>) r key =
    decrypt_shard_at_rest C K s r key"
proof
  show "case decrypt_shard_at_rest C K s r key of
      Ok p \<Rightarrow> True
    | Err e \<Rightarrow>
        (if em_key_id (es_metadata s) = kr_key_id r \<and> em_key_version (es_metadata s) = kr_version r \<and>
            is_ok (extract_seed_from_nonce C (em_nonce_hex (es_metadata s)))
         then e = IntegrityViolation ''authentication tag mismatch or corrupted ciphertext''
         else \<exists>msg. e = DecryptionFailed msg)
    | Panic \<Rightarrow> False"
  proof (cases "extract_seed_from_nonce C (em_nonce_hex (es_metadata s))")
    case (Ok seed)
    obtain c where c: "cipher_for K key (em_tier (es_metadata s)) seed c"
      using cipher_for_exists [OF assms] ..
    show ?thesis using Ok by (auto simp: decrypt_eq [OF Ok c] map_err_def split: sum.splits)
  next
    case (Err e)
    then show ?thesis
      using extract_seed_error(2) [OF Err] by (auto simp: decrypt_shard_at_rest_def Let_def)
  next
    case Panic
    then show ?thesis using extract_seed_error(1) by blast
  qed
qed (simp add: decrypt_shard_at_rest_def Let_def)

section \<open>Applications at concrete inputs\<close>

text \<open>
  A toy cipher that satisfies the laws: the ciphertext is the plaintext followed by a tag
  made of the key's first half.
\<close>

definition sample_tag :: "32 bytes \<Rightarrow> u8 list" where
  "sample_tag k = take 16 (slice_of k)"

definition sample_aead :: "32 bytes aead_kit" where
  "sample_aead =
     \<lparr>hk_expand = (\<lambda>salt ikm info n. if n \<le> 255 * 32
         then Some (take n (salt @ info @ replicate n 0)) else None),
      aes_new = (\<lambda>key. case array_of key of None \<Rightarrow> Inl ''invalid length'' | Some k \<Rightarrow> Inr k),
      aes_encrypt = (\<lambda>k nonce p. if length p \<le> 2 ^ 36 then Inr (p @ sample_tag k) else Inl ''aead''),
      aes_decrypt = (\<lambda>k nonce ct.
        if length ct \<le> 2 ^ 36 + 16 \<and> 16 \<le> length ct \<and> drop (length ct - 16) ct = sample_tag k
        then Inr (take (length ct - 16) ct) else Inl ''aead'')\<rparr>"

lemma sample_aead_laws: "aead_laws sample_aead"
proof -
  have len: "length (sample_tag k) = 16" for k by (simp add: sample_tag_def)
  have "\<exists>c. aes_new sample_aead key = Inr c" if "length key = 32" for key
    using that by (simp add: sample_aead_def array_of_def)
  moreover have "aes_decrypt sample_aead k nonce ct = Inr p \<longleftrightarrow> aes_encrypt sample_aead k nonce p = Inr ct"
    for k nonce p ct
  proof
    assume "aes_decrypt sample_aead k nonce ct = Inr p"
    then have *: "length ct \<le> 2 ^ 36 + 16" "16 \<le> length ct" "drop (length ct - 16) ct = sample_tag k"
        "p = take (length ct - 16) ct"
      by (simp_all add: sample_aead_def split: if_splits)
    then have "p @ sample_tag k = ct" by (metis append_take_drop_id)
    with * show "aes_encrypt sample_aead k nonce p = Inr ct"
      by (simp add: sample_aead_def)
  next
    assume "aes_encrypt sample_aead k nonce p = Inr ct"
    then show "aes_decrypt sample_aead k nonce ct = Inr p"
      by (auto simp: sample_aead_def len split: if_splits)
  qed
  ultimately show ?thesis
    unfolding aead_laws_def by (auto simp: sample_aead_def len split: if_splits)
qed

definition sample_ref :: key_material_ref where
  "sample_ref = \<lparr>kr_key_id = ''tier-key'', kr_version = 1, kr_kind = Encryption\<rparr>"

theorem encrypt_decrypt_roundtrip_witness:
  "\<exists>s. encrypt_shard_at_rest sample_crypto sample_aead (as_bytes ''weights'') 2 sample_ref [1, 2, 3] 42 = Ok s \<and>
    decrypt_shard_at_rest sample_crypto sample_aead s sample_ref [1, 2, 3] = Ok (as_bytes ''weights'')"
  using encrypt_decrypt_roundtrip [OF sample_crypto_laws sample_aead_laws, of "[1, 2, 3]"
      "as_bytes ''weights''" 2 sample_ref 42] by auto

theorem decrypt_exact_witness:
  "\<exists>s. decrypt_shard_at_rest sample_crypto sample_aead s sample_ref [1, 2, 3] = Ok [] \<and>
    (\<exists>seed s'. extract_seed_from_nonce sample_crypto (em_nonce_hex (es_metadata s)) = Ok seed \<and>
      encrypt_shard_at_rest sample_crypto sample_aead [] (em_tier (es_metadata s)) sample_ref [1, 2, 3] seed = Ok s' \<and>
      es_ciphertext s' = es_ciphertext s)"
proof -
  have key: "[1, 2, 3] \<noteq> ([] :: u8 list)" by simp
  obtain s where "encrypt_shard_at_rest sample_crypto sample_aead [] 2 sample_ref [1, 2, 3] 42 = Ok s"
    using encrypt_succeeds [OF sample_crypto_laws sample_aead_laws key, of "[]"]
    by (metis le0 list.size(3))
  then have "decrypt_shard_at_rest sample_crypto sample_aead s sample_ref [1, 2, 3] = Ok []"
    by (rule decrypt_encrypted [OF sample_crypto_laws sample_aead_laws]) simp_all
  with decrypt_exact [OF sample_crypto_laws sample_aead_laws, where key = "[1, 2, 3]" and s = s and
      r = sample_ref and p = "[]"] key
  show ?thesis by (intro exI [of _ s]) simp
qed

theorem derivation_inputs_separated_witness:
  "derive_info 1 12 \<noteq> derive_info 11 2 \<and> seed_nonce 1 \<noteq> seed_nonce 2"
  using derivation_inputs_separated [OF sample_crypto_laws, of 1 12 11 2]
    derivation_inputs_separated [OF sample_crypto_laws, of 1 1 1 2] by simp

theorem decrypt_errors_witness:
  "\<exists>s. decrypt_shard_at_rest sample_crypto sample_aead s sample_ref [1] =
    Err (DecryptionFailed ''key reference does not match encrypted metadata'') \<and>
    (\<exists>a. decrypt_shard_at_rest sample_crypto sample_aead
      (s\<lparr>es_metadata := es_metadata s\<lparr>em_algorithm := ''rot13'', em_auth_tag_hex := a\<rparr>\<rparr>) sample_ref [1] =
      decrypt_shard_at_rest sample_crypto sample_aead s sample_ref [1])"
proof -
  let ?s = "\<lparr>es_ciphertext = [], es_metadata = \<lparr>em_algorithm = AES_256_GCM_ALGORITHM, em_tier = 1,
      em_key_id = ''other'', em_key_version = 1, em_nonce_hex = [], em_auth_tag_hex = []\<rparr>\<rparr>"
  have "decrypt_shard_at_rest sample_crypto sample_aead ?s sample_ref [1] =
      Err (DecryptionFailed ''key reference does not match encrypted metadata'')"
    by (simp add: decrypt_shard_at_rest_def sample_ref_def)
  moreover have "decrypt_shard_at_rest sample_crypto sample_aead
      (?s\<lparr>es_metadata := es_metadata ?s\<lparr>em_algorithm := ''rot13'', em_auth_tag_hex := []\<rparr>\<rparr>) sample_ref [1] =
      decrypt_shard_at_rest sample_crypto sample_aead ?s sample_ref [1]"
    by (rule conjunct2 [OF decrypt_errors [OF sample_aead_laws]])
  ultimately show ?thesis by blast
qed

end
