(* ===== verification/Key_Vault.thy ===== *)
theory Key_Vault
  imports Key_Management
begin

text \<open>
  What the key manager promises, without its sorted version lists: a vault that maps a key id
  and a version to a key, remembers for each key id the version and kind that the next
  rotation starts from, and knows which identity may use what. Every call of the public
  interface of \<open>src/key_management.rs\<close> is a step of the vault, and the manager is shown to
  give the same replies to every sequence of calls, errors and panics included. The last
  property follows one generated key through any further calls.
\<close>

section \<open>The vault\<close>

record vault_key =
  vk_material :: "u8 list"
  vk_expires_day :: u32
  vk_revoked :: bool

record key_vault =
  kv_policy :: key_rotation_policy
  kv_rights :: "string \<rightharpoonup> key_access_policy"
  kv_keys :: "string \<times> u32 \<rightharpoonup> vault_key"
  kv_newest :: "string \<rightharpoonup> u32 \<times> key_kind"

definition empty_vault :: "key_rotation_policy \<Rightarrow> key_vault" where
  "empty_vault p =
     \<lparr>kv_policy = p, kv_rights = Map.empty, kv_keys = Map.empty, kv_newest = Map.empty\<rparr>"

text \<open>A key enters the vault once; a version that is not older becomes the newest.\<close>

definition vault_store ::
  "string \<Rightarrow> key_kind \<Rightarrow> u32 \<Rightarrow> vault_key \<Rightarrow> key_vault \<Rightarrow> key_vault" where
  "vault_store kid kd v k V =
     V\<lparr>kv_keys := (case kv_keys V (kid, v) of
          None \<Rightarrow> (kv_keys V)((kid, v) \<mapsto> k) | Some old \<Rightarrow> kv_keys V),
       kv_newest := (case kv_newest V kid of
          None \<Rightarrow> (kv_newest V)(kid \<mapsto> (v, kd))
        | Some (w, old) \<Rightarrow> if v < w then kv_newest V else (kv_newest V)(kid \<mapsto> (v, kd)))\<rparr>"

definition vault_generate ::
  "crypto \<Rightarrow> build \<Rightarrow> key_vault \<Rightarrow> string \<Rightarrow> key_kind \<Rightarrow> u32 \<Rightarrow> u32 \<Rightarrow> u64 \<Rightarrow>
   key_material_ref security_result \<times> key_vault" where
  "vault_generate C bld V kid kd v d s =
     (if trim_is_empty kid then (Err (InvalidInput ''key_id must not be empty''), V)
      else if v = 0 then (Err (InvalidInput ''key version must be greater than zero''), V)
      else case add_checked bld d (rotate_every_days (kv_policy V)) of
          Ok expires \<Rightarrow>
            (Ok \<lparr>kr_key_id = kid, kr_version = v, kr_kind = kd\<rparr>,
             vault_store kid kd v
               \<lparr>vk_material = slice_of (sha256 C (derive_input kid kd v s 0)),
                vk_expires_day = expires, vk_revoked = False\<rparr> V)
        | Err e \<Rightarrow> (Err e, V)
        | Panic \<Rightarrow> (Panic, V))"

definition vault_rotate ::
  "crypto \<Rightarrow> build \<Rightarrow> key_vault \<Rightarrow> string \<Rightarrow> u32 \<Rightarrow> u64 \<Rightarrow>
   key_material_ref security_result \<times> key_vault" where
  "vault_rotate C bld V kid d s =
     (case kv_newest V kid of
        None \<Rightarrow> (Err (KeyNotFound kid), V)
      | Some (v, kd) \<Rightarrow>
          (case add_checked bld v 1 of
             Ok next \<Rightarrow> vault_generate C bld V kid kd next d s
           | Err e \<Rightarrow> (Err e, V)
           | Panic \<Rightarrow> (Panic, V)))"

definition vault_revoke :: "key_vault \<Rightarrow> string \<Rightarrow> u32 \<Rightarrow> unit security_result \<times> key_vault" where
  "vault_revoke V kid v =
     (case kv_keys V (kid, v) of
        Some k \<Rightarrow> (Ok (), V\<lparr>kv_keys := (kv_keys V)((kid, v) \<mapsto> k\<lparr>vk_revoked := True\<rparr>)\<rparr>)
      | None \<Rightarrow>
          (Err (KeyNotFound (case kv_newest V kid of
             None \<Rightarrow> kid | Some newest \<Rightarrow> versioned_name kid v)), V))"

definition vault_refusals ::
  "key_vault \<Rightarrow> string \<Rightarrow> key_material_ref \<Rightarrow> (bool \<times> security_error) list" where
  "vault_refusals V identity r =
     (let who = ''identity '' @ [CHR 39] @ identity @ [CHR 39] in
      case kv_rights V identity of
        None \<Rightarrow> [(False, Unauthorized (who @ '' has no key policy''))]
      | Some p \<Rightarrow>
          [(kr_key_id r \<in> allowed_key_ids p,
              Unauthorized (who @ '' not allowed for key '' @ [CHR 39] @ kr_key_id r @ [CHR 39])),
           (kr_kind r \<in> allowed_kinds p,
              Unauthorized (who @ '' not allowed for key kind '' @ debug_key_kind (kr_kind r))),
           (kv_newest V (kr_key_id r) \<noteq> None, KeyNotFound (kr_key_id r))])"

definition vault_retrieve ::
  "build \<Rightarrow> key_vault \<Rightarrow> string \<Rightarrow> key_material_ref \<Rightarrow> u32 \<Rightarrow> u8 list security_result" where
  "vault_retrieve bld V identity r day =
     (let name = versioned_name (kr_key_id r) (kr_version r) in
      and_then (first_error (vault_refusals V identity r)) (\<lambda>_.
        case kv_keys V (kr_key_id r, kr_version r) of
          None \<Rightarrow> Err (KeyNotFound name)
        | Some k \<Rightarrow>
            (if vk_revoked k then Err (KeyRevoked name)
             else and_then (add_checked bld (vk_expires_day k) (overlap_days (kv_policy V)))
               (\<lambda>last_day. if last_day < day then Err (KeyRevoked (name @ '' expired''))
                  else Ok (vk_material k)))))"

section \<open>Calls\<close>

text \<open>The calls of the public interface and what they return.\<close>

datatype km_call =
    AddPolicy key_access_policy
  | GenerateKey string key_kind u32 u32 u64
  | RotateKey string u32 u64
  | RevokeKey string u32
  | RetrieveKey string key_material_ref u32

datatype km_reply =
    Done "unit security_result"
  | Reference "key_material_ref security_result"
  | Material "u8 list security_result"

fun km_exec :: "crypto \<Rightarrow> build \<Rightarrow> km_call \<Rightarrow> key_manager \<Rightarrow> km_reply \<times> key_manager" where
  "km_exec C bld (AddPolicy p) M = (Done (Ok ()), add_access_policy M p)"
| "km_exec C bld (GenerateKey kid kd v d s) M = apfst Reference (generate_key C bld M kid kd v d s)"
| "km_exec C bld (RotateKey kid d s) M = apfst Reference (rotate_key C bld M kid d s)"
| "km_exec C bld (RevokeKey kid v) M = apfst Done (revoke_key M kid v)"
| "km_exec C bld (RetrieveKey i r day) M = (Material (retrieve_key bld M i r day), M)"

fun vault_exec :: "crypto \<Rightarrow> build \<Rightarrow> km_call \<Rightarrow> key_vault \<Rightarrow> km_reply \<times> key_vault" where
  "vault_exec C bld (AddPolicy p) V =
     (Done (Ok ()), V\<lparr>kv_rights := (kv_rights V)(kp_identity p \<mapsto> p)\<rparr>)"
| "vault_exec C bld (GenerateKey kid kd v d s) V = apfst Reference (vault_generate C bld V kid kd v d s)"
| "vault_exec C bld (RotateKey kid d s) V = apfst Reference (vault_rotate C bld V kid d s)"
| "vault_exec C bld (RevokeKey kid v) V = apfst Done (vault_revoke V kid v)"
| "vault_exec C bld (RetrieveKey i r day) V = (Material (vault_retrieve bld V i r day), V)"

section \<open>The abstraction\<close>

definition vault_key_of :: "managed_key \<Rightarrow> vault_key" where
  "vault_key_of k =
     \<lparr>vk_material = mk_material k, vk_expires_day = mk_expires_day k, vk_revoked = mk_revoked k\<rparr>"

definition newest_of :: "managed_key list \<Rightarrow> (u32 \<times> key_kind) option" where
  "newest_of ks =
     (if ks = [] then None else Some (mk_version (last ks), kr_kind (mk_reference (last ks))))"

definition vault_of :: "key_manager \<Rightarrow> key_vault" where
  "vault_of M =
     \<lparr>kv_policy = km_rotation_policy M, kv_rights = bt_get (km_policies M),
      kv_keys = (\<lambda>(kid, v). map_option vault_key_of (lookup_key M kid v)),
      kv_newest = (\<lambda>kid. newest_of (bucket M kid))\<rparr>"

lemma vault_of_simps [simp]:
  "kv_policy (vault_of M) = km_rotation_policy M"
  "kv_rights (vault_of M) = bt_get (km_policies M)"
  "kv_keys (vault_of M) (kid, v) = map_option vault_key_of (lookup_key M kid v)"
  "kv_newest (vault_of M) kid = newest_of (bucket M kid)"
  by (simp_all add: vault_of_def)

lemma vault_key_of_simps [simp]:
  "vk_material (vault_key_of k) = mk_material k" "vk_revoked (vault_key_of k) = mk_revoked k"
  "vk_expires_day (vault_key_of k) = mk_expires_day k"
  "vault_key_of (k\<lparr>mk_revoked := True\<rparr>) = (vault_key_of k)\<lparr>vk_revoked := True\<rparr>"
  by (simp_all add: vault_key_of_def)

lemma newest_of_fresh:
  assumes "sorted (map mk_version ks)"
  shows "newest_of (sort_key mk_version (ks @ [k])) =
    (case newest_of ks of
       None \<Rightarrow> Some (mk_version k, kr_kind (mk_reference k))
     | Some (w, old) \<Rightarrow> if mk_version k < w then Some (w, old)
         else Some (mk_version k, kr_kind (mk_reference k)))"
proof -
  have "sort_key mk_version (ks @ [k]) \<noteq> []"
    by (metis append_is_Nil_conv list.distinct(1) set_empty set_sort)
  then show ?thesis
    unfolding newest_of_def last_sort_key_snoc [OF assms] by simp
qed

lemma newest_of_references:
  assumes "map mk_reference ks' = map mk_reference ks"
  shows "newest_of ks' = newest_of ks"
proof -
  have "ks' = [] \<longleftrightarrow> ks = []" using assms by auto
  moreover have "mk_reference (last ks') = mk_reference (last ks)" if "ks \<noteq> []"
    using that assms calculation by (metis last_map)
  ultimately show ?thesis by (simp add: newest_of_def)
qed

text \<open>Each method is the vault's operation under the abstraction.\<close>

lemma store_agrees:
  assumes "km_wf M" "v = mk_version k"
    and "mk_reference k = \<lparr>kr_key_id = kid, kr_version = v, kr_kind = kd\<rparr>"
  shows "vault_of (M\<lparr>km_keys := bt_insert kid (sort_key mk_version (bucket M kid @ [k])) (km_keys M)\<rparr>) =
    vault_store kid kd v (vault_key_of k) (vault_of M)"
proof (rule key_vault.equality)
  let ?M = "M\<lparr>km_keys := bt_insert kid (sort_key mk_version (bucket M kid @ [k])) (km_keys M)\<rparr>"
  let ?V = "vault_store kid kd v (vault_key_of k) (vault_of M)"
  show "kv_keys (vault_of ?M) = kv_keys ?V"
  proof (rule ext, clarify)
    fix kid' v'
    show "kv_keys (vault_of ?M) (kid', v') = kv_keys ?V (kid', v')"
      by (auto simp: vault_store_def lookup_key_def bucket_insert find_bucket_insert_fresh assms(2)
          split: option.splits)
  qed
  have sorted: "sorted (map mk_version (bucket M kid))" by (rule km_wf_bucket_sorted [OF assms(1)])
  show "kv_newest (vault_of ?M) = kv_newest ?V"
    by (rule ext) (simp add: vault_store_def bucket_insert newest_of_fresh [OF sorted] assms(3)
        split: option.split prod.split)
qed (simp_all add: vault_store_def)

lemma generate_agrees:
  assumes "km_wf M"
  shows "vault_generate C bld (vault_of M) kid kd v d s =
    apsnd vault_of (generate_key C bld M kid kd v d s)"
proof (cases "trim_is_empty kid \<or> v = 0")
  case False
  show ?thesis
  proof (cases "add_checked bld d (rotate_every_days (km_rotation_policy M)) :: u32 security_result")
    case (Ok e)
    let ?k = "\<lparr>mk_reference = \<lparr>kr_key_id = kid, kr_version = v, kr_kind = kd\<rparr>,
      mk_material = derive_key_material C kid kd v s, mk_activated_day = d, mk_expires_day = e,
      mk_revoked = False\<rparr>"
    from store_agrees [OF assms, of v ?k kid kd] Ok False show ?thesis
      by (simp add: vault_generate_def generate_key_def Let_def vault_key_of_def derive_key_material_eq)
  qed (use False in \<open>auto simp: vault_generate_def generate_key_def Let_def\<close>)
qed (auto simp: vault_generate_def generate_key_def)

lemma rotate_agrees:
  assumes "km_wf M"
  shows "vault_rotate C bld (vault_of M) kid d s = apsnd vault_of (rotate_key C bld M kid d s)"
  by (auto simp: vault_rotate_def rotate_key_def bt_get_bucket [OF assms] newest_of_def Let_def
      generate_agrees [OF assms] split: outcome.split)

lemma revoke_agrees:
  assumes "km_wf M"
  shows "vault_revoke (vault_of M) kid v = apsnd vault_of (revoke_key M kid v)"
proof (cases rule: revoke_key_cases [of M kid v])
  case unknown
  then show ?thesis
    by (auto simp: vault_revoke_def revoke_key_def newest_of_def bt_get_bucket [OF assms]
        split: prod.splits if_splits)
next
  case (revoked ks' k)
  let ?M = "snd (revoke_key M kid v)"
  have "newest_of ks' = newest_of (bucket M kid)"
    using revoke_first_references(1) [of v "bucket M kid"] revoked(2)
    by (intro newest_of_references) simp
  then have newest: "newest_of (bucket ?M i) = newest_of (bucket M i)" for i
    using revoked(3) by (simp add: bucket_insert)
  let ?V = "(vault_of M)\<lparr>kv_keys := (kv_keys (vault_of M))
      ((kid, v) \<mapsto> (vault_key_of k)\<lparr>vk_revoked := True\<rparr>)\<rparr>"
  have "kv_newest (vault_of ?M) = kv_newest ?V" using newest by (simp add: fun_eq_iff)
  moreover have "kv_policy (vault_of ?M) = kv_policy ?V" "kv_rights (vault_of ?M) = kv_rights ?V"
    using revoked(3) by simp_all
  moreover have "kv_keys (vault_of ?M) = kv_keys ?V"
    by (rule ext, clarify) (simp add: lookup_revoke_key revoked(1))
  ultimately have "vault_of ?M = ?V" by simp
  then show ?thesis
    using revoked(1,3) by (simp add: vault_revoke_def)
qed

lemma retrieve_agrees:
  assumes "km_wf M"
  shows "vault_retrieve bld (vault_of M) i r day = retrieve_key bld M i r day"
proof -
  have name: "kr_key_id (mk_reference k) = kr_key_id r \<and> mk_version k = kr_version r"
    if "find (\<lambda>key. mk_version key = kr_version r) (bucket M (kr_key_id r)) = Some k" for k
    using find_Some_mem [OF that] km_wf_bucket [OF assms, of "kr_key_id r"]
    by (cases "bucket M (kr_key_id r) = []") (auto simp: bucket_ok_def managed_key_ok_def)
  show ?thesis
    by (auto simp: vault_retrieve_def vault_refusals_def retrieve_key_def authorize_key_def Let_def
        bt_get_bucket [OF assms] newest_of_def lookup_key_def linorder_not_less ok_or_def
        dest!: name split: option.split cong: if_cong)
qed

interpretation vault: implements "km_exec C bld" "vault_exec C bld" vault_of km_wf for C bld
proof unfold_locales
  fix M :: key_manager and c assume wf: "km_wf M"
  show "km_wf (snd (km_exec C bld c M))"
    using km_step_wf [OF wf] by (cases c) (auto intro: km_step.intros wf)
  show "fst (km_exec C bld c M) = fst (vault_exec C bld c (vault_of M))"
    using wf by (cases c) (simp_all add: generate_agrees rotate_agrees revoke_agrees retrieve_agrees)
  show "vault_of (snd (km_exec C bld c M)) = snd (vault_exec C bld c (vault_of M))"
  proof (cases c)
    case (AddPolicy p)
    then show ?thesis
      by (intro key_vault.equality) (auto simp: fun_eq_iff add_access_policy_def lookup_key_def bucket_def)
  qed (use wf in \<open>simp_all add: generate_agrees rotate_agrees revoke_agrees\<close>)
qed

lemma vault_of_new: "key_manager_new p = Ok M \<Longrightarrow> vault_of M = empty_vault p"
  by (auto simp: key_manager_new_def vault_of_def empty_vault_def lookup_key_def bucket_def
      newest_of_def fun_eq_iff split: if_splits)

section \<open>Properties\<close>

text \<open>
  C5: a new key manager behaves like the empty vault. Whatever calls are made (policies added,
  keys generated, rotated, revoked, retrieved, in any order, in either build), every reply of
  the manager, errors and panics included, is the reply of the vault, and the manager's state
  stays an image of the vault's: the sorted version lists cannot be observed.
\<close>

theorem manager_refines_vault:
  "case key_manager_new p of
     Ok M \<Rightarrow> replies (km_exec C bld) M calls = replies (vault_exec C bld) (empty_vault p) calls \<and>
       vault_of (after (km_exec C bld) M calls) = after (vault_exec C bld) (empty_vault p) calls
   | refused \<Rightarrow> refused = Err (InvalidConfig ''invalid key rotation policy'') \<and>
       \<not> rotation_policy_is_valid p"
proof (cases "key_manager_new p")
  case (Ok M)
  then have "km_wf M" by (intro km_init_wf) (auto simp: km_init_def)
  with Ok vault_of_new [OF Ok] show ?thesis
    by (simp add: vault.replies_agree vault.after_agrees)
qed (auto simp: key_manager_new_def split: if_splits)

text \<open>
  The life of a stored key under any calls: it stays what it is, until \<open>revoke_key\<close> names
  its id and version. No call changes the rotation policy.
\<close>

lemma call_keeps_key:
  assumes "lookup_key M kid v = Some k"
  shows "lookup_key (snd (km_exec C bld c M)) kid v =
    Some (if c = RevokeKey kid v then k\<lparr>mk_revoked := True\<rparr> else k)"
proof -
  have generated: "lookup_key (snd (generate_key C bld M i kd w d s)) kid v = Some k" for i kd w d s
    using assms by (cases rule: generate_key_cases [of C bld M i kd w d s])
      (auto simp: lookup_generate_key)
  show ?thesis
  proof (cases c)
    case (RotateKey i d s)
    then show ?thesis
      using assms generated by (cases rule: rotate_key_cases [of C bld M i d s]) simp_all
  qed (use assms generated in \<open>auto simp: lookup_revoke_key\<close>)
qed

lemma call_keeps_rotation_policy:
  "km_rotation_policy (snd (km_exec C bld c M)) = km_rotation_policy M"
proof -
  have generated: "km_rotation_policy (snd (generate_key C bld M i kd w d s)) = km_rotation_policy M" for i kd w d s
    by (cases rule: generate_key_cases [of C bld M i kd w d s]) simp_all
  show ?thesis
  proof (cases c)
    case (RotateKey i d s)
    then show ?thesis
      using generated by (cases rule: rotate_key_cases [of C bld M i d s]) simp_all
  next
    case (RevokeKey i w)
    then show ?thesis by (cases rule: revoke_key_cases [of M i w]) simp_all
  qed (use generated in \<open>simp_all add: add_access_policy_def\<close>)
qed

lemma calls_keep_rotation_policy: "km_rotation_policy (after (km_exec C bld) M calls) = km_rotation_policy M"
  by (induction calls arbitrary: M) (simp_all add: call_keeps_rotation_policy)

lemma calls_keep_key:
  "lookup_key M kid v = Some k \<Longrightarrow>
    lookup_key (after (km_exec C bld) M calls) kid v =
      Some (if RevokeKey kid v \<in> set calls then k\<lparr>mk_revoked := True\<rparr> else k)"
  by (induction calls arbitrary: M k) (auto simp: call_keeps_key)

text \<open>What \<open>retrieve_key\<close> answers about a stored key to an identity that may use it.\<close>

lemma retrieve_stored_key:
  assumes "km_wf M" "lookup_key M (kr_key_id q) (kr_version q) = Some k"
    and "authorize_key M identity q = Ok ()"
    and "unat (mk_expires_day k) + unat (overlap_days (km_rotation_policy M)) < 2 ^ 32"
  shows "retrieve_key bld M identity q day =
    (let name = versioned_name (kr_key_id q) (kr_version q) in
     if mk_revoked k then Err (KeyRevoked name)
     else if unat (mk_expires_day k) + unat (overlap_days (km_rotation_policy M)) < unat day
     then Err (KeyRevoked (name @ '' expired''))
     else Ok (mk_material k))"
proof -
  obtain ks where ks: "bt_get (km_keys M) (kr_key_id q) = Some ks"
      "find (\<lambda>key. mk_version key = kr_version q) ks = Some k"
    using assms(2) unfolding find_bucket [symmetric] by blast
  have "kr_key_id (mk_reference k) = kr_key_id q" "mk_version k = kr_version q"
    using find_Some_mem [OF ks(2)] ks(1) assms(1) by (auto simp: km_wf_def bucket_ok_def managed_key_ok_def)
  then show ?thesis
    using assms(3,4) ks
    by (simp add: retrieve_key_def add_checked_fits Let_def word_less_nat_alt unat_add_fits)
qed

text \<open>
  C23: the life of a generated key. Let \<open>generate_key\<close> store a version that was not there, with
  days that do not overflow. Then, whatever calls follow (rotations, further generations, also
  of the same version, policy changes, revocations), an identity that may use the reference
  in the state reached gets the material derived from id, kind, version and seed on every
  day up to the last of the overlap, and the error of an expired key after it; unless one of
  the calls was \<open>revoke_key\<close> for this id and version, after which it gets the error of a
  revoked key.
\<close>

theorem generated_key_life:
  assumes "reachable km_init (km_step C bld) M" "lookup_key M kid v = None"
    and "generate_key C bld M kid kd v d s = (Ok r, M')"
    and "unat d + unat (rotate_every_days (km_rotation_policy M)) +
      unat (overlap_days (km_rotation_policy M)) < 2 ^ 32"
    and "M'' = after (km_exec C bld) M' calls"
    and "kr_key_id q = kid" "kr_version q = v" "authorize_key M'' identity q = Ok ()"
  shows "retrieve_key bld' M'' identity q day =
    (if RevokeKey kid v \<in> set calls then Err (KeyRevoked (versioned_name kid v))
     else if unat d + unat (rotate_every_days (km_rotation_policy M)) +
       unat (overlap_days (km_rotation_policy M)) < unat day
     then Err (KeyRevoked (versioned_name kid v @ '' expired''))
     else Ok (derive_key_material C kid kd v s))"
proof -
  let ?k = "fresh_key C M kid kd v d s"
  have policy: "km_rotation_policy M'' = km_rotation_policy M"
    by (simp add: assms(5) calls_keep_rotation_policy generate_key_stored(2) [OF assms(3)])
  have "lookup_key M' kid v = Some ?k"
    using assms(2) by (simp add: lookup_generate_key [OF assms(3)])
  then have key: "lookup_key M'' (kr_key_id q) (kr_version q) =
      Some (if RevokeKey kid v \<in> set calls then ?k\<lparr>mk_revoked := True\<rparr> else ?k)"
    unfolding assms(5-7) by (rule calls_keep_key)
  have "km_step C bld M M'" using km_step.generate [of C bld M kid kd v d s] assms(3) by simp
  then have "km_wf M'" using assms(1) revocation.reachable_inv km_step_wf by blast
  then have wf: "km_wf M''" using vault.after_agrees [of M' C bld calls] assms(5) by simp
  have "unat (mk_expires_day ?k) = unat d + unat (rotate_every_days (km_rotation_policy M))"
    using assms(4) by (simp add: unat_add_fits)
  then show ?thesis
    using assms(4) retrieve_stored_key [OF wf key assms(8)]
    by (simp add: policy assms(6,7) Let_def split: if_splits)
qed

theorem generated_key_life_witness:
  "retrieve_key Debug (after (km_exec sample_crypto Debug) (one_key_manager sample_crypto Debug Encryption)
       [RotateKey ''model-key'' 30 99, GenerateKey ''model-key'' Tls 1 5 7]) ''loader''
     \<lparr>kr_key_id = ''model-key'', kr_version = 1, kr_kind = Encryption\<rparr> 37 =
   Ok (derive_key_material sample_crypto ''model-key'' Encryption 1 42)"
proof -
  let ?calls = "[RotateKey ''model-key'' 30 99, GenerateKey ''model-key'' Tls 1 5 7]"
  let ?M = "after (km_exec sample_crypto Debug) (one_key_manager sample_crypto Debug Encryption) ?calls"
  have generated: "km_policies (snd (generate_key C bld M i kd w d s)) = km_policies M" for C bld M i kd w d s
    by (cases rule: generate_key_cases [of C bld M i kd w d s]) simp_all
  have rotated: "km_policies (snd (rotate_key C bld M i d s)) = km_policies M" for C bld M i d s
    by (cases rule: rotate_key_cases [of C bld M i d s]) (simp_all add: generated)
  have auth: "authorize_key ?M ''loader'' \<lparr>kr_key_id = ''model-key'', kr_version = 1, kr_kind = Encryption\<rparr> = Ok ()"
    using loader_authorized [of sample_crypto Debug] by (simp add: authorize_key_def generated rotated)
  show ?thesis
    by (subst generated_key_life [OF policy_manager_reachable policy_manager_simps(2) generate_model_key _ refl _ _ auth])
      simp_all
qed

end
