(* ===== verification/Audit_Log.thy ===== *)
theory Audit_Log
  imports External_Crypto Security_Error Transition_System
begin

text \<open>
  \<open>src/audit.rs\<close>: the hash-chained audit log. The theory models the record types,
  \<open>append\<close>, \<open>root_hash\<close> and \<open>verify_chain\<close>, states the contract of the trait
  \<open>AuditSink\<close> as a locale that \<open>DeterministicAuditLog\<close> implements, and proves what the
  chain guarantees and what it does not.
\<close>

section \<open>Data\<close>

datatype audit_category =
    ModelLoad | TierActivation | Routing | AccessControl | Cache | Error | Security

fun debug_audit_category :: "audit_category \<Rightarrow> string" where
  "debug_audit_category ModelLoad = ''ModelLoad''"
| "debug_audit_category TierActivation = ''TierActivation''"
| "debug_audit_category Routing = ''Routing''"
| "debug_audit_category AccessControl = ''AccessControl''"
| "debug_audit_category Cache = ''Cache''"
| "debug_audit_category Error = ''Error''"
| "debug_audit_category Security = ''Security''"

record audit_event =
  ev_sequence :: u64
  ev_timestamp_ms :: u64
  ev_category :: audit_category
  ev_actor :: string
  ev_action :: string
  ev_payload :: string

record audit_record =
  ar_event :: audit_event
  ar_prev_hash :: string
  ar_event_hash :: string
  ar_chain_hash :: string
  ar_signature_hex :: string

record audit_log =
  al_node_id :: string
  al_signer_id :: string
  al_signing_secret :: string
  al_records :: "audit_record list"

section \<open>Operations\<close>

definition audit_log_new :: "string \<Rightarrow> string \<Rightarrow> string \<Rightarrow> audit_log" where
  "audit_log_new node_id signer_id signing_secret =
     \<lparr>al_node_id = node_id, al_signer_id = signer_id, al_signing_secret = signing_secret,
      al_records = []\<rparr>"

definition root_hash :: "audit_log \<Rightarrow> string" where
  "root_hash L = (if al_records L = [] then sha256_of_nothing
     else ar_chain_hash (last (al_records L)))"

definition canonical_event_payload :: "audit_event \<Rightarrow> string \<Rightarrow> string" where
  "canonical_event_payload event node_id =
     node_id @ ''|'' @ display (ev_sequence event) @ ''|'' @
     debug_audit_category (ev_category event) @ ''|'' @ display (ev_timestamp_ms event) @ ''|'' @
     ev_actor event @ ''|'' @ ev_action event @ ''|'' @ ev_payload event"

definition signature_material :: "crypto \<Rightarrow> string \<Rightarrow> string \<Rightarrow> string \<Rightarrow> string" where
  "signature_material C secret signer_id chain_hash =
     sha256_hex C (as_bytes (secret @ ''|'' @ signer_id @ ''|'' @ chain_hash))"

definition chain_hash_of :: "crypto \<Rightarrow> string \<Rightarrow> string \<Rightarrow> string" where
  "chain_hash_of C previous event_hash = sha256_hex C (as_bytes (previous @ ''|'' @ event_hash))"

text \<open>The loop of \<open>verify_chain\<close>: \<open>idx\<close> counts the records, \<open>previous\<close> is the last chain hash.\<close>

fun verify_from :: "crypto \<Rightarrow> audit_log \<Rightarrow> nat \<Rightarrow> string \<Rightarrow> audit_record list \<Rightarrow> unit security_result" where
  "verify_from C L idx previous [] = Ok ()"
| "verify_from C L idx previous (record # rest) =
     (if ev_sequence (ar_event record) \<noteq> word_of_nat idx
      then Err (TamperDetected ''non-contiguous audit sequence'')
      else if ar_prev_hash record \<noteq> previous
      then Err (TamperDetected ''audit prev_hash mismatch'')
      else
        let canonical = canonical_event_payload (ar_event record) (al_node_id L);
            expected_event_hash = sha256_hex C (as_bytes canonical) in
        if \<not> same_text C expected_event_hash (ar_event_hash record)
        then Err (TamperDetected ''audit event hash mismatch'')
        else
          let expected_chain_hash = chain_hash_of C previous expected_event_hash in
          if \<not> same_text C expected_chain_hash (ar_chain_hash record)
          then Err (TamperDetected ''audit chain hash mismatch'')
          else
            let expected_sig =
              signature_material C (al_signing_secret L) (al_signer_id L) (ar_chain_hash record) in
            if \<not> same_text C expected_sig (ar_signature_hex record)
            then Err (TamperDetected ''audit signature mismatch'')
            else verify_from C L (Suc idx) (ar_chain_hash record) rest)"

definition verify_chain :: "crypto \<Rightarrow> audit_log \<Rightarrow> unit security_result" where
  "verify_chain C L = verify_from C L 0 sha256_of_nothing (al_records L)"

definition audit_append ::
  "crypto \<Rightarrow> audit_log \<Rightarrow> audit_event \<Rightarrow> audit_record security_result \<times> audit_log" where
  "audit_append C L event =
     (if ev_sequence event \<noteq> word_of_nat (length (al_records L))
      then (Err (InvalidInput ''audit sequence must be contiguous''), L)
      else
        let prev_hash = root_hash L;
            canonical = canonical_event_payload event (al_node_id L);
            event_hash = sha256_hex C (as_bytes canonical);
            chain_hash = chain_hash_of C prev_hash event_hash;
            signature_hex =
              signature_material C (al_signing_secret L) (al_signer_id L) chain_hash;
            record = \<lparr>ar_event = event, ar_prev_hash = prev_hash, ar_event_hash = event_hash,
              ar_chain_hash = chain_hash, ar_signature_hex = signature_hex\<rparr> in
        (Ok record, L\<lparr>al_records := al_records L @ [record]\<rparr>))"

section \<open>The contract of the trait AuditSink\<close>

locale audit_sink =
  fixes append :: "'s \<Rightarrow> 'e \<Rightarrow> ('err, 'r) outcome \<times> 's"
    and history :: "'s \<Rightarrow> 'r list"
    and inv :: "'s \<Rightarrow> bool"
  assumes append_inv: "inv s \<Longrightarrow> inv (snd (append s e))"
    and append_ok: "fst (append s e) = Ok r \<Longrightarrow> history (snd (append s e)) = history s @ [r]"
    and append_fail: "\<not> is_ok (fst (append s e)) \<Longrightarrow> snd (append s e) = s"
begin

text \<open>A sink only ever grows: what was recorded stays, at its place.\<close>

lemma append_history: "\<exists>new. history (snd (append s e)) = history s @ new"
  using append_ok [of s e] append_fail [of s e] by (cases "fst (append s e)") auto

lemma run_history: "\<exists>new. history (fold (\<lambda>e s. snd (append s e)) es s) = history s @ new"
proof (induction es arbitrary: s)
  case (Cons e es)
  from Cons.IH [of "snd (append s e)"] append_history [of s e] show ?case by auto
qed simp

lemma run_inv: "inv s \<Longrightarrow> inv (fold (\<lambda>e s. snd (append s e)) es s)"
  by (induction es arbitrary: s) (auto intro: append_inv)

end

section \<open>What append produces\<close>

text \<open>
  The record that seals an event after a given chain hash, and the records a list of events
  produces one after the other: the reference the checks of \<open>verify_chain\<close> are compared with.
\<close>

definition event_hash_of :: "crypto \<Rightarrow> string \<Rightarrow> audit_event \<Rightarrow> string" where
  "event_hash_of C node_id event = sha256_hex C (as_bytes (canonical_event_payload event node_id))"

definition sealed :: "crypto \<Rightarrow> audit_log \<Rightarrow> string \<Rightarrow> audit_event \<Rightarrow> audit_record" where
  "sealed C L previous event =
     (let event_hash = event_hash_of C (al_node_id L) event;
          chain_hash = chain_hash_of C previous event_hash in
      \<lparr>ar_event = event, ar_prev_hash = previous, ar_event_hash = event_hash,
       ar_chain_hash = chain_hash,
       ar_signature_hex = signature_material C (al_signing_secret L) (al_signer_id L) chain_hash\<rparr>)"

fun chain :: "crypto \<Rightarrow> audit_log \<Rightarrow> string \<Rightarrow> audit_event list \<Rightarrow> audit_record list" where
  "chain C L previous [] = []"
| "chain C L previous (event # events) =
     sealed C L previous event # chain C L (ar_chain_hash (sealed C L previous event)) events"

fun numbered :: "nat \<Rightarrow> audit_event list \<Rightarrow> bool" where
  "numbered idx [] = True"
| "numbered idx (event # events) =
     (ev_sequence event = word_of_nat idx \<and> numbered (Suc idx) events)"

text \<open>The chain hash after the last of a list of records.\<close>

definition tip :: "string \<Rightarrow> audit_record list \<Rightarrow> string" where
  "tip previous rs = (if rs = [] then previous else ar_chain_hash (last rs))"

lemma tip_simps [simp]:
  "tip p [] = p" "tip p (r # rs) = tip (ar_chain_hash r) rs" "tip p (rs @ [r]) = ar_chain_hash r"
  by (auto simp: tip_def)

lemma root_hash_tip: "root_hash L = tip sha256_of_nothing (al_records L)"
  by (simp add: root_hash_def tip_def)

lemma sealed_simps [simp]:
  "ar_event (sealed C L p e) = e" "ar_prev_hash (sealed C L p e) = p"
  "ar_event_hash (sealed C L p e) = event_hash_of C (al_node_id L) e"
  "ar_chain_hash (sealed C L p e) = chain_hash_of C p (event_hash_of C (al_node_id L) e)"
  by (simp_all add: sealed_def Let_def)

lemma sealed_records_update [simp]: "sealed C (L\<lparr>al_records := rs\<rparr>) p e = sealed C L p e"
  by (simp add: sealed_def)

lemma chain_records_update [simp]: "chain C (L\<lparr>al_records := rs\<rparr>) p es = chain C L p es"
  by (induction es arbitrary: p) auto

lemma map_event_chain [simp]: "map ar_event (chain C L p es) = es"
  by (induction es arbitrary: p) auto

lemma length_chain [simp]: "length (chain C L p es) = length es"
  by (induction es arbitrary: p) auto

lemma audit_append_eq:
  "audit_append C L e =
     (if ev_sequence e = word_of_nat (length (al_records L))
      then (Ok (sealed C L (root_hash L) e),
            L\<lparr>al_records := al_records L @ [sealed C L (root_hash L) e]\<rparr>)
      else (Err (InvalidInput ''audit sequence must be contiguous''), L))"
  by (simp add: audit_append_def sealed_def event_hash_of_def Let_def)

section \<open>What verify accepts\<close>

lemmas verify_from_Cons = verify_from.simps(2)

declare verify_from.simps(2) [simp del]

lemma verify_from_Cons_iff:
  assumes "crypto_laws C"
  shows "verify_from C L i p (r # rs) = Ok () \<longleftrightarrow>
    ev_sequence (ar_event r) = word_of_nat i \<and> r = sealed C L p (ar_event r) \<and>
    verify_from C L (Suc i) (ar_chain_hash r) rs = Ok ()"
  using assms
  by (cases r) (auto simp: verify_from_Cons sealed_def event_hash_of_def Let_def same_text_iff)

lemma verify_from_iff:
  assumes "crypto_laws C"
  shows "verify_from C L i p rs = Ok () \<longleftrightarrow>
    rs = chain C L p (map ar_event rs) \<and> numbered i (map ar_event rs)"
proof (induction rs arbitrary: i p)
  case (Cons r rs)
  show ?case
  proof (cases "r = sealed C L p (ar_event r)")
    case True
    then obtain e where "r = sealed C L p e" ..
    then show ?thesis by (auto simp: verify_from_Cons_iff [OF assms] Cons.IH)
  next
    case False
    then show ?thesis by (simp add: verify_from_Cons_iff [OF assms])
  qed
qed simp

lemma verify_from_append:
  "verify_from C L i p (rs @ qs) =
     and_then (verify_from C L i p rs) (\<lambda>_. verify_from C L (i + length rs) (tip p rs) qs)"
  by (induction rs arbitrary: i p) (auto simp: verify_from_Cons Let_def)

lemma verify_from_records_update [simp]:
  "verify_from C (L\<lparr>al_records := rs\<rparr>) i p qs = verify_from C L i p qs"
  by (induction qs arbitrary: i p) (auto simp: verify_from_Cons Let_def)

lemma verify_chain_snoc_iff:
  assumes "crypto_laws C"
  shows "verify_chain C (L\<lparr>al_records := rs @ [r]\<rparr>) = Ok () \<longleftrightarrow>
    verify_chain C (L\<lparr>al_records := rs\<rparr>) = Ok () \<and>
    ev_sequence (ar_event r) = word_of_nat (length rs) \<and>
    r = sealed C L (tip sha256_of_nothing rs) (ar_event r)"
proof -
  have "verify_from C L n q [r] = Ok () \<longleftrightarrow>
      ev_sequence (ar_event r) = word_of_nat n \<and> r = sealed C L q (ar_event r)" for n q
    unfolding verify_from_Cons_iff [OF assms] by simp
  then show ?thesis
    by (auto simp: verify_chain_def verify_from_append and_then_Ok_iff)
qed

lemma audit_append_verifies:
  assumes "crypto_laws C" "verify_chain C L = Ok ()"
  shows "verify_chain C (snd (audit_append C L e)) = Ok ()"
  using assms by (simp add: audit_append_eq verify_chain_snoc_iff root_hash_tip)

interpretation log: audit_sink "audit_append C" al_records
    "\<lambda>L. crypto_laws C \<longrightarrow> verify_chain C L = Ok ()" for C
  by unfold_locales
    (auto simp: audit_append_verifies, auto simp: audit_append_eq split: if_splits)

section \<open>The log as a system\<close>

inductive audit_step :: "crypto \<Rightarrow> audit_log \<Rightarrow> audit_log \<Rightarrow> bool" for C where
  append: "audit_append C L e = (res, L') \<Longrightarrow> audit_step C L L'"

definition audit_init :: "audit_log \<Rightarrow> bool" where
  "audit_init L \<longleftrightarrow> (\<exists>n s k. L = audit_log_new n s k)"

inductive_cases audit_stepE: "audit_step C L L'"

lemma audit_step_iff: "audit_step C L L' \<longleftrightarrow> (\<exists>e. L' = snd (audit_append C L e))"
  by (metis audit_stepE audit_step.append prod.collapse snd_conv)

interpretation log: invariant_system audit_init "audit_step C"
    "\<lambda>L. crypto_laws C \<longrightarrow> verify_chain C L = Ok ()" for C
  by unfold_locales
    (auto simp: audit_init_def audit_log_new_def audit_step_iff audit_append_verifies,
     simp add: verify_chain_def)

text \<open>Appending a list of events, stopping at the first refusal.\<close>

fun append_all :: "crypto \<Rightarrow> audit_log \<Rightarrow> audit_event list \<Rightarrow> audit_log security_result" where
  "append_all C L [] = Ok L"
| "append_all C L (e # es) =
     (case audit_append C L e of (res, L') \<Rightarrow> and_then res (\<lambda>_. append_all C L' es))"

lemma append_all_iff:
  "append_all C L es = Ok L' \<longleftrightarrow>
     numbered (length (al_records L)) es \<and>
     L' = L\<lparr>al_records := al_records L @ chain C L (root_hash L) es\<rparr>"
  by (induction es arbitrary: L) (auto simp: audit_append_eq root_hash_tip)

section \<open>The root hash commits to the events\<close>

text \<open>
  The messages that \<open>verify_chain\<close> hashes: the empty one, whose digest is the constant the
  chain starts from, and two for each record.
\<close>

definition record_texts :: "string \<Rightarrow> audit_record \<Rightarrow> string list" where
  "record_texts node_id r =
     [canonical_event_payload (ar_event r) node_id, ar_prev_hash r @ ''|'' @ ar_event_hash r]"

definition hashed_texts :: "audit_log \<Rightarrow> string list" where
  "hashed_texts L = '''' # concat (map (record_texts (al_node_id L)) (al_records L))"

lemma length_chain_hash_of: "crypto_laws C \<Longrightarrow> length (chain_hash_of C p h) = 64"
  by (simp add: chain_hash_of_def length_sha256_hex)

lemma chain_hash_of_inject:
  assumes "crypto_laws C" "\<not> sha256_collision C (map as_bytes ts)" "length p = length q"
    and "p @ ''|'' @ h \<in> set ts" "q @ ''|'' @ k \<in> set ts" "chain_hash_of C p h = chain_hash_of C q k"
  shows "p = q \<and> h = k"
proof -
  have "p @ ''|'' @ h = q @ ''|'' @ k"
    using assms(6) by (simp only: chain_hash_of_def sha256_hex_text [OF assms(1,2,4,5)])
  with assms(3) show ?thesis by simp
qed

lemma chain_hash_of_not_nothing:
  assumes "crypto_laws C" "sha256_vector C" "\<not> sha256_collision C (map as_bytes ts)"
    and "p @ ''|'' @ h \<in> set ts" "'''' \<in> set ts"
  shows "chain_hash_of C p h \<noteq> sha256_of_nothing"
proof
  assume "chain_hash_of C p h = sha256_of_nothing"
  then have "sha256_hex C (as_bytes (p @ ''|'' @ h)) = sha256_hex C (as_bytes [])"
    using assms(2) by (simp add: chain_hash_of_def sha256_vector_def sha256_hex_def as_bytes_def)
  then show False
    using sha256_hex_text [OF assms(1,3,4,5)] by simp
qed

text \<open>Verified records, from the last one backwards.\<close>

lemma verified_snoc:
  assumes "crypto_laws C" "verify_from C L 0 sha256_of_nothing (rs @ [r]) = Ok ()"
  shows "verify_from C L 0 sha256_of_nothing rs = Ok () \<and>
    r = sealed C L (tip sha256_of_nothing rs) (ar_event r)"
  using assms(2) unfolding verify_from_append and_then_Ok_iff verify_from_Cons_iff [OF assms(1)]
  by simp

lemma length_verified_tip:
  assumes "crypto_laws C" "verify_from C L 0 sha256_of_nothing rs = Ok ()"
  shows "length (tip sha256_of_nothing rs) = 64"
proof (cases rs rule: rev_cases)
  case Nil
  then show ?thesis by (simp add: length_sha256_of_nothing)
next
  case (snoc qs r)
  then show ?thesis
    using verified_snoc [OF assms(1)] assms(2)
    by (metis length_chain_hash_of [OF assms(1)] sealed_simps(4) tip_simps(3))
qed

lemma sealed_texts:
  assumes "r = sealed C L p e"
  shows "ar_chain_hash r = chain_hash_of C p (ar_event_hash r)"
    "ar_event_hash r = sha256_hex C (as_bytes (canonical_event_payload (ar_event r) (al_node_id L)))"
    "ar_prev_hash r = p"
  using assms by (simp_all add: event_hash_of_def)

text \<open>Records sealed after hashes of one length, with the same chain hash, agree.\<close>

lemma sealed_inject:
  assumes C: "crypto_laws C" "\<not> sha256_collision C (map as_bytes ts)" "length p = length q"
    and r: "r = sealed C L p (ar_event r)" and s: "s = sealed C L' q (ar_event s)"
    and node: "al_node_id L' = al_node_id L"
    and ts: "set (record_texts (al_node_id L) r) \<union> set (record_texts (al_node_id L) s) \<subseteq> set ts"
    and same: "ar_chain_hash r = ar_chain_hash s"
  shows "p = q \<and> canonical_event_payload (ar_event r) (al_node_id L) =
    canonical_event_payload (ar_event s) (al_node_id L)"
proof -
  note tr = sealed_texts [OF r] and tst = sealed_texts [OF s]
  have "p = q \<and> ar_event_hash r = ar_event_hash s"
    using ts same by (intro chain_hash_of_inject [OF C]) (auto simp: record_texts_def tr(1,3) tst(1,3))
  then show ?thesis
    using ts sha256_hex_text [OF C(1,2), of "canonical_event_payload (ar_event r) (al_node_id L)"
        "canonical_event_payload (ar_event s) (al_node_id L)"]
    by (simp add: record_texts_def tr(2) tst(2) node)
qed

lemma root_commits_to_payloads:
  assumes C: "crypto_laws C" "sha256_vector C" "\<not> sha256_collision C (map as_bytes ts)"
    and node: "al_node_id L' = al_node_id L" and nil: "'''' \<in> set ts"
  shows "verify_from C L 0 sha256_of_nothing rs = Ok () \<Longrightarrow>
    verify_from C L' 0 sha256_of_nothing qs = Ok () \<Longrightarrow>
    tip sha256_of_nothing rs = tip sha256_of_nothing qs \<Longrightarrow>
    set (concat (map (record_texts (al_node_id L)) (rs @ qs))) \<subseteq> set ts \<Longrightarrow>
    map (\<lambda>r. canonical_event_payload (ar_event r) (al_node_id L)) rs =
    map (\<lambda>r. canonical_event_payload (ar_event r) (al_node_id L)) qs"
proof (induction rs arbitrary: qs rule: rev_induct)
  case Nil
  show ?case
  proof (cases qs rule: rev_cases)
    case (snoc qs' q)
    with Nil.prems have "q = sealed C L' (tip sha256_of_nothing qs') (ar_event q)"
      using verified_snoc [OF C(1)] by blast
    note tq = sealed_texts [OF this]
    have "ar_chain_hash q \<noteq> sha256_of_nothing"
      unfolding tq(1) using Nil.prems(4) snoc nil
      by (intro chain_hash_of_not_nothing [OF C]) (auto simp: record_texts_def tq(3))
    with Nil.prems(3) snoc show ?thesis by simp
  qed simp
next
  case (snoc r rs)
  from verified_snoc [OF C(1) snoc.prems(1)]
  have vr: "verify_from C L 0 sha256_of_nothing rs = Ok ()"
    and r: "r = sealed C L (tip sha256_of_nothing rs) (ar_event r)" by auto
  note tr = sealed_texts [OF r]
  have "ar_chain_hash r \<noteq> sha256_of_nothing"
    unfolding tr(1) using snoc.prems(4) nil
    by (intro chain_hash_of_not_nothing [OF C]) (auto simp: record_texts_def tr(3))
  then obtain qs' q where qs: "qs = qs' @ [q]"
    using snoc.prems(3) by (cases qs rule: rev_cases) auto
  from verified_snoc [OF C(1) snoc.prems(2) [unfolded qs]]
  have vq: "verify_from C L' 0 sha256_of_nothing qs' = Ok ()"
    and q: "q = sealed C L' (tip sha256_of_nothing qs') (ar_event q)" by auto
  have "tip sha256_of_nothing rs = tip sha256_of_nothing qs' \<and>
      canonical_event_payload (ar_event r) (al_node_id L) =
      canonical_event_payload (ar_event q) (al_node_id L)"
    using snoc.prems(3,4) qs
    by (intro sealed_inject [OF C(1,3) _ r q node])
      (auto simp: length_verified_tip [OF C(1) vr] length_verified_tip [OF C(1) vq])
  with snoc.IH [OF vr vq] snoc.prems(4) qs show ?case by auto
qed

text \<open>
  The text that is hashed names the event only when the separator does not occur in the
  actor or the action: then the event can be read back from it.
\<close>

definition plain_event :: "audit_event \<Rightarrow> bool" where
  "plain_event e \<longleftrightarrow> CHR ''|'' \<notin> set (ev_actor e) \<and> CHR ''|'' \<notin> set (ev_action e)"

lemma debug_category_plain [simp]: "CHR ''|'' \<notin> set (debug_audit_category c)"
  by (cases c) simp_all

lemma debug_category_inject [simp]: "debug_audit_category c = debug_audit_category d \<longleftrightarrow> c = d"
  by (cases c; cases d) simp_all

lemma canonical_event_payload_inject:
  assumes "canonical_event_payload e n = canonical_event_payload f n" "plain_event e" "plain_event f"
  shows "e = f"
proof -
  let ?sep = "CHR ''|''"
  have 1: "display (ev_sequence e) @ ?sep # debug_audit_category (ev_category e) @ ?sep #
      display (ev_timestamp_ms e) @ ?sep # ev_actor e @ ?sep # ev_action e @ ?sep # ev_payload e =
    display (ev_sequence f) @ ?sep # debug_audit_category (ev_category f) @ ?sep #
      display (ev_timestamp_ms f) @ ?sep # ev_actor f @ ?sep # ev_action f @ ?sep # ev_payload f"
    using assms(1) by (simp add: canonical_event_payload_def)
  note 2 = split_at_separator [OF 1]
  note 3 = split_at_separator [OF conjunct2 [OF 2]]
  note 4 = split_at_separator [OF conjunct2 [OF 3]]
  note 5 = split_at_separator [OF conjunct2 [OF 4]]
  note 6 = split_at_separator [OF conjunct2 [OF 5]]
  show ?thesis
    using 2 3 4 5 6 assms(2,3) by (cases e; cases f) (simp add: plain_event_def)
qed

lemma verify_from_at:
  assumes "crypto_laws C" "verify_from C L i p (xs @ r # ys) = Ok ()"
  shows "r = sealed C L (tip p xs) (ar_event r) \<and>
    (ys \<noteq> [] \<longrightarrow> ar_prev_hash (hd ys) = ar_chain_hash r)"
proof -
  from assms have r: "r = sealed C L (tip p xs) (ar_event r)"
    and rest: "verify_from C L (Suc (i + length xs)) (ar_chain_hash r) ys = Ok ()"
    by (auto simp: verify_from_append and_then_Ok_iff verify_from_Cons_iff [OF assms(1)])
  have "ar_prev_hash y = q" if "verify_from C L n q (y # zs) = Ok ()" for n q y zs
    using that by (auto simp: verify_from_Cons split: if_splits)
  with rest have "ys \<noteq> [] \<longrightarrow> ar_prev_hash (hd ys) = ar_chain_hash r"
    by (cases ys) auto
  with r show ?thesis by simp
qed

lemma verify_from_event_cong:
  assumes "canonical_event_payload e (al_node_id L) = canonical_event_payload f (al_node_id L)"
    and "ev_sequence e = ev_sequence f"
  shows "verify_from C L i p (r\<lparr>ar_event := e\<rparr> # ys) = verify_from C L i p (r\<lparr>ar_event := f\<rparr> # ys)"
  using assms by (simp add: verify_from_Cons Let_def)

section \<open>Properties\<close>

text \<open>
  C9: \<open>verify_chain\<close> accepts exactly the logs that \<open>append\<close> produces: replaying the events
  of the log through \<open>append\<close>, from an empty log with the same node, signer and secret,
  gives the log back record by record.
\<close>

theorem verify_chain_accepts_appended_logs:
  assumes "crypto_laws C"
  shows "verify_chain C L = Ok () \<longleftrightarrow>
    append_all C (audit_log_new (al_node_id L) (al_signer_id L) (al_signing_secret L))
      (map ar_event (al_records L)) = Ok L"
proof -
  let ?L0 = "audit_log_new (al_node_id L) (al_signer_id L) (al_signing_secret L)"
  have L0: "?L0 = L\<lparr>al_records := []\<rparr>" by (simp add: audit_log_new_def)
  have "L = L\<lparr>al_records := rs\<rparr> \<longleftrightarrow> al_records L = rs" for rs
    by (cases L) auto
  then show ?thesis
    unfolding verify_chain_def verify_from_iff [OF assms] append_all_iff L0
    by (auto simp: root_hash_tip)
qed

text \<open>
  Every log reached from \<open>new\<close> by calls of \<open>append\<close>, refused ones included, passes
  \<open>verify_chain\<close>, and each call extends the record list by at most its own record at the end.
\<close>

theorem reachable_log_verifies:
  assumes "crypto_laws C" "reachable audit_init (audit_step C) L"
  shows "verify_chain C L = Ok () \<and>
    (\<exists>new. al_records (snd (audit_append C L e)) = al_records L @ new)"
  using log.reachable_inv [OF assms(2)] assms(1) log.append_history by blast

text \<open>
  C3: tamper evidence. Two logs of one node that both verify and have the same root hash
  hold, record by record, events with the same hashed text, unless two of the messages hashed
  in checking the two logs collide under SHA-256; so truncation, reordering and every change
  of a hashed text change the root hash. If no actor and no action of the two logs contains the separator,
  the events themselves are the same; without that condition they need not be, as the text
  does not escape its separators.
\<close>

theorem root_hash_determines_events:
  assumes "crypto_laws C" "sha256_vector C"
    and "verify_chain C L = Ok ()" "verify_chain C L' = Ok ()"
    and "al_node_id L' = al_node_id L" "root_hash L = root_hash L'"
    and "\<not> sha256_collision C (map as_bytes (hashed_texts L @ hashed_texts L'))"
  shows "map (\<lambda>r. canonical_event_payload (ar_event r) (al_node_id L)) (al_records L) =
      map (\<lambda>r. canonical_event_payload (ar_event r) (al_node_id L)) (al_records L') \<and>
    (list_all plain_event (map ar_event (al_records L @ al_records L')) \<longrightarrow>
      map ar_event (al_records L) = map ar_event (al_records L'))"
proof -
  let ?n = "al_node_id L"
  have "set (concat (map (record_texts ?n) (al_records L @ al_records L'))) \<subseteq>
      set (hashed_texts L @ hashed_texts L')"
    using assms(5) by (auto simp: hashed_texts_def)
  then have texts: "map (\<lambda>r. canonical_event_payload (ar_event r) ?n) (al_records L) =
      map (\<lambda>r. canonical_event_payload (ar_event r) ?n) (al_records L')"
    using assms(3,4,6)
    by (intro root_commits_to_payloads [OF assms(1,2,7,5)])
      (simp_all add: verify_chain_def root_hash_tip hashed_texts_def)
  then have "map (\<lambda>e. canonical_event_payload e ?n) (map ar_event (al_records L)) =
      map (\<lambda>e. canonical_event_payload e ?n) (map ar_event (al_records L'))"
    by (simp add: o_def)
  then have "map ar_event (al_records L) = map ar_event (al_records L')"
    if "list_all plain_event (map ar_event (al_records L @ al_records L'))"
    by (rule map_inj_on_list [where P = plain_event])
      (use that in \<open>auto dest: canonical_event_payload_inject\<close>)
  with texts show ?thesis by blast
qed

text \<open>The hashed text begins with node and sequence number, so it determines the number.\<close>

lemma canonical_event_payload_sequence:
  assumes "canonical_event_payload e n = canonical_event_payload f n"
  shows "ev_sequence e = ev_sequence f"
proof -
  have "\<exists>rest. canonical_event_payload g n = n @ ''|'' @ display (ev_sequence g) @ CHR ''|'' # rest" for g
    by (simp add: canonical_event_payload_def)
  then obtain xs ys where "display (ev_sequence e) @ CHR ''|'' # xs = display (ev_sequence f) @ CHR ''|'' # ys"
    using assms by (metis same_append_eq)
  from split_at_separator [OF this] show ?thesis by simp
qed

text \<open>
  C17: a record replaced inside a verified log. Let another record take the place of one,
  where a later record exists or the chain hash is left as it was. Then, unless two of the
  messages hashed for the two logs collide under SHA-256, \<open>verify_chain\<close> still returns \<open>Ok\<close>
  exactly when the two records differ in their events only and these have the same hashed
  text. So the replacement is detected whenever neither event has the separator in its actor
  or action. (The last record of a log, re-sealed with the secret, is not detected: that is
  appending.)
\<close>

theorem replaced_record_is_detected:
  assumes "crypto_laws C" "verify_chain C L = Ok ()" "al_records L = xs @ r # ys" "r' \<noteq> r"
    and "ys \<noteq> [] \<or> ar_chain_hash r' = ar_chain_hash r"
    and "L' = L\<lparr>al_records := xs @ r' # ys\<rparr>"
    and "\<not> sha256_collision C (map as_bytes (hashed_texts L @ hashed_texts L'))"
  shows "(verify_chain C L' = Ok () \<longleftrightarrow>
      r' = r\<lparr>ar_event := ar_event r'\<rparr> \<and>
      canonical_event_payload (ar_event r') (al_node_id L) =
        canonical_event_payload (ar_event r) (al_node_id L)) \<and>
    (plain_event (ar_event r) \<and> plain_event (ar_event r') \<longrightarrow> verify_chain C L' \<noteq> Ok ())"
proof -
  let ?n = "al_node_id L"
  have ok: "verify_from C L 0 sha256_of_nothing (xs @ r # ys) = Ok ()"
    using assms(2,3) by (simp add: verify_chain_def)
  note at = verify_from_at [OF assms(1) ok]
  have verdict: "verify_chain C L' = verify_from C L 0 sha256_of_nothing (xs @ r' # ys)"
    by (simp add: verify_chain_def assms(6))
  have verdict_iff: "verify_chain C L' = Ok () \<longleftrightarrow> r' = r\<lparr>ar_event := ar_event r'\<rparr> \<and>
      canonical_event_payload (ar_event r') ?n = canonical_event_payload (ar_event r) ?n"
  proof
    assume "verify_chain C L' = Ok ()"
    then have at': "r' = sealed C L (tip sha256_of_nothing xs) (ar_event r') \<and>
        (ys \<noteq> [] \<longrightarrow> ar_prev_hash (hd ys) = ar_chain_hash r')"
      using verify_from_at [OF assms(1), of L 0 sha256_of_nothing xs r' ys] verdict by simp
    have "ar_chain_hash r' = ar_chain_hash r" using assms(5) at at' by auto
    then have same_text: "canonical_event_payload (ar_event r') ?n = canonical_event_payload (ar_event r) ?n"
      using sealed_inject [OF assms(1,7) refl conjunct1 [OF at'] conjunct1 [OF at] refl] assms(3,6)
      by (auto simp: hashed_texts_def)
    have "sealed C L p e = (sealed C L p f)\<lparr>ar_event := e\<rparr>"
      if "canonical_event_payload e ?n = canonical_event_payload f ?n" for p e f
      using that by (simp add: sealed_def event_hash_of_def Let_def)
    from this [OF same_text] at at' have "r' = r\<lparr>ar_event := ar_event r'\<rparr>" by metis
    with same_text show "r' = r\<lparr>ar_event := ar_event r'\<rparr> \<and>
        canonical_event_payload (ar_event r') ?n = canonical_event_payload (ar_event r) ?n" by blast
  next
    assume same: "r' = r\<lparr>ar_event := ar_event r'\<rparr> \<and>
        canonical_event_payload (ar_event r') ?n = canonical_event_payload (ar_event r) ?n"
    have "verify_from C L i p (r\<lparr>ar_event := ar_event r'\<rparr> # ys) =
        verify_from C L i p (r\<lparr>ar_event := ar_event r\<rparr> # ys)" for i p
      using same by (intro verify_from_event_cong canonical_event_payload_sequence) auto
    moreover have "r\<lparr>ar_event := ar_event r\<rparr> = r" by simp
    ultimately have "verify_from C L i p (r' # ys) = verify_from C L i p (r # ys)" for i p
      using same by metis
    with ok show "verify_chain C L' = Ok ()" by (simp add: verdict verify_from_append)
  qed
  moreover have "ar_event r' = ar_event r"
    if "plain_event (ar_event r)" "plain_event (ar_event r')" "verify_chain C L' = Ok ()"
    using verdict_iff that by (intro canonical_event_payload_inject) blast+
  moreover have "r\<lparr>ar_event := ar_event r\<rparr> = r" by simp
  ultimately show ?thesis using assms(4) verdict_iff by metis
qed

text \<open>
  C37: what the chain does not detect. Dropping records from the end leaves a log that
  verifies (the log keeps no length and no signed head), and moving the separator between
  the actor and the action of a record changes the event but not the text that is hashed,
  so the altered log gets the same verdict as the original.
\<close>

theorem undetected_changes:
  "(verify_chain C L = Ok () \<longrightarrow> verify_chain C (L\<lparr>al_records := take n (al_records L)\<rparr>) = Ok ()) \<and>
   verify_chain C (L\<lparr>al_records := xs @
      r\<lparr>ar_event := e\<lparr>ev_actor := a, ev_action := b @ ''|'' @ c\<rparr>\<rparr> # ys\<rparr>) =
   verify_chain C (L\<lparr>al_records := xs @
      r\<lparr>ar_event := e\<lparr>ev_actor := a @ ''|'' @ b, ev_action := c\<rparr>\<rparr> # ys\<rparr>)"
proof (intro conjI impI)
  assume "verify_chain C L = Ok ()"
  then have "verify_from C L 0 sha256_of_nothing (take n (al_records L) @ drop n (al_records L)) = Ok ()"
    by (simp add: verify_chain_def)
  then have "\<exists>u. verify_from C L 0 sha256_of_nothing (take n (al_records L)) = Ok u"
    unfolding verify_from_append and_then_Ok_iff by blast
  then show "verify_chain C (L\<lparr>al_records := take n (al_records L)\<rparr>) = Ok ()"
    by (simp add: verify_chain_def)
next
  have "verify_from C L i p (r\<lparr>ar_event := e\<lparr>ev_actor := a, ev_action := b @ ''|'' @ c\<rparr>\<rparr> # ys) =
      verify_from C L i p (r\<lparr>ar_event := e\<lparr>ev_actor := a @ ''|'' @ b, ev_action := c\<rparr>\<rparr> # ys)" for i p
    by (rule verify_from_event_cong) (simp_all add: canonical_event_payload_def)
  then show "verify_chain C (L\<lparr>al_records := xs @
      r\<lparr>ar_event := e\<lparr>ev_actor := a, ev_action := b @ ''|'' @ c\<rparr>\<rparr> # ys\<rparr>) =
    verify_chain C (L\<lparr>al_records := xs @
      r\<lparr>ar_event := e\<lparr>ev_actor := a @ ''|'' @ b, ev_action := c\<rparr>\<rparr> # ys\<rparr>)"
    by (simp add: verify_chain_def verify_from_append)
qed

section \<open>Applications at concrete inputs\<close>

definition sample_event :: "u64 \<Rightarrow> audit_event" where
  "sample_event n = \<lparr>ev_sequence = n, ev_timestamp_ms = 1000, ev_category = Security,
     ev_actor = ''runtime'', ev_action = ''load'', ev_payload = ''ok''\<rparr>"

definition sample_log :: audit_log where
  "sample_log = snd (audit_append sample_crypto
     (snd (audit_append sample_crypto (audit_log_new ''n1'' ''signer'' ''secret'') (sample_event 0)))
     (sample_event 1))"

text \<open>The same events recorded on the same node by another signer.\<close>

definition other_log :: audit_log where
  "other_log = snd (audit_append sample_crypto
     (snd (audit_append sample_crypto (audit_log_new ''n1'' ''auditor'' ''key'') (sample_event 0)))
     (sample_event 1))"

lemma sample_log_reachable: "reachable audit_init (audit_step sample_crypto) sample_log"
proof -
  have step: "audit_step sample_crypto L (snd (audit_append sample_crypto L e))" for L e
    by (auto simp: audit_step_iff)
  have "reachable audit_init (audit_step sample_crypto) (audit_log_new ''n1'' ''signer'' ''secret'')"
    by (rule reachable.start) (auto simp: audit_init_def)
  from reachable.move [OF reachable.move [OF this step] step] show ?thesis
    by (simp only: sample_log_def)
qed

lemma sample_log_verifies: "verify_chain sample_crypto sample_log = Ok ()"
  using log.reachable_inv [OF sample_log_reachable] sample_crypto_laws by simp

lemma verify_chain_new: "verify_chain C (audit_log_new n i k) = Ok ()"
  by (simp add: verify_chain_def audit_log_new_def)

lemma other_log_verifies: "verify_chain sample_crypto other_log = Ok ()"
  by (simp add: other_log_def audit_append_verifies [OF sample_crypto_laws] verify_chain_new)


lemma sample_log_events: "map ar_event (al_records sample_log) = [sample_event 0, sample_event 1]"
  by (simp add: sample_log_def audit_append_eq audit_log_new_def sample_event_def)

lemma sample_event_plain: "plain_event (sample_event n)"
  by (simp add: plain_event_def sample_event_def)

theorem verify_chain_accepts_appended_logs_witness:
  "append_all sample_crypto (audit_log_new (al_node_id sample_log) (al_signer_id sample_log)
     (al_signing_secret sample_log)) (map ar_event (al_records sample_log)) = Ok sample_log"
  using verify_chain_accepts_appended_logs [OF sample_crypto_laws, of sample_log]
    sample_log_verifies by simp

theorem reachable_log_verifies_witness:
  "verify_chain sample_crypto sample_log = Ok () \<and>
   (\<exists>new. al_records (snd (audit_append sample_crypto sample_log (sample_event 2))) =
      al_records sample_log @ new)"
  by (rule reachable_log_verifies [OF sample_crypto_laws sample_log_reachable])

text \<open>
  The sample digest keeps the first bytes of a message, so messages with different first
  four bytes do not collide; the ones hashed for the sample logs are of this kind.
\<close>

definition first_bytes :: "string \<Rightarrow> u8 list" where
  "first_bytes t = (if t = '''' then [0xe3, 0xb0, 0xc4, 0x42] else take 4 (as_bytes t @ replicate 4 0))"

lemma sample_sha256_first: "take 4 (slice_of (sha256 sample_crypto (as_bytes t))) = first_bytes t"
proof (cases "t = ''''")
  case True
  with hex_decode_nothing show ?thesis
    by (auto simp: sample_crypto_def first_bytes_def as_bytes_def)
next
  case False
  then have "slice_of (sha256 sample_crypto (as_bytes t)) = take 32 (as_bytes t @ replicate 32 0)"
    by (simp add: sample_crypto_def slice_of_array_pad as_bytes_def)
  then have "take 4 (slice_of (sha256 sample_crypto (as_bytes t))) = take 4 (as_bytes t @ replicate 32 0)"
    by simp
  with False show ?thesis by (simp add: first_bytes_def)
qed

lemma sample_no_collision:
  assumes "inj_on first_bytes (set ts)"
  shows "\<not> sha256_collision sample_crypto (map as_bytes ts)"
proof
  assume "sha256_collision sample_crypto (map as_bytes ts)"
  then obtain s t where "s \<in> set ts" "t \<in> set ts" "s \<noteq> t"
    and "sha256 sample_crypto (as_bytes s) = sha256 sample_crypto (as_bytes t)"
    by (auto simp: sha256_collision_def)
  then show False
    using assms sample_sha256_first [of s] sample_sha256_first [of t] by (auto dest: inj_onD)
qed

abbreviation event_hash0 :: string where
  "event_hash0 \<equiv> event_hash_of sample_crypto ''n1'' (sample_event 0)"

abbreviation chain_hash0 :: string where
  "chain_hash0 \<equiv> chain_hash_of sample_crypto sha256_of_nothing event_hash0"

definition sample_texts :: "string list" where
  "sample_texts =
     ['''', canonical_event_payload (sample_event 0) ''n1'', sha256_of_nothing @ ''|'' @ event_hash0,
      canonical_event_payload (sample_event 1) ''n1'',
      chain_hash0 @ ''|'' @ event_hash_of sample_crypto ''n1'' (sample_event 1)]"

lemma sample_records:
  "al_records sample_log = chain sample_crypto (audit_log_new ''n1'' ''signer'' ''secret'')
     sha256_of_nothing [sample_event 0, sample_event 1]"
  "al_records other_log = chain sample_crypto (audit_log_new ''n1'' ''auditor'' ''key'')
     sha256_of_nothing [sample_event 0, sample_event 1]"
  by (simp_all add: sample_log_def other_log_def audit_append_eq audit_log_new_def root_hash_tip
      sample_event_def sealed_def Let_def)

lemma sample_nodes:
  "al_node_id sample_log = ''n1''" "al_node_id other_log = ''n1''"
  "al_signer_id sample_log = ''signer''" "al_signer_id other_log = ''auditor''"
  by (simp_all add: sample_log_def other_log_def audit_append_eq audit_log_new_def sample_event_def)

lemma sample_hashed_texts:
  "hashed_texts sample_log = sample_texts" "hashed_texts other_log = sample_texts"
  by (simp_all add: hashed_texts_def sample_records sample_nodes record_texts_def sample_texts_def
      audit_log_new_def)

lemma decimal_digit: "n < 10 \<Longrightarrow> decimal n = [digit_char n]"
  by (subst decimal.simps) simp

lemma first_bytes_payload:
  assumes "unat (ev_sequence e) < 10"
  shows "first_bytes (canonical_event_payload e ''n1'') =
    as_bytes (''n1|'' @ [digit_char (unat (ev_sequence e))])"
  by (simp add: canonical_event_payload_def display_def decimal_digit [OF assms] first_bytes_def
      as_bytes_def)

lemma first_bytes_linked: "first_bytes (sha256_of_nothing @ t) = as_bytes ''e3b0''"
  by (simp add: sha256_of_nothing_def first_bytes_def as_bytes_def)

lemma sample_sha256_hex_first:
  "\<exists>t. sha256_hex sample_crypto (b # c # bs) = fmt_02x b @ fmt_02x c @ t"
  by (simp add: sha256_hex_def sample_crypto_def slice_of_array_pad hex_encode_def)

lemma chain_hash0_first: "\<exists>t. chain_hash0 = ''6533'' @ t"
proof -
  have "as_bytes (sha256_of_nothing @ ''|'' @ event_hash0) =
      byte_of (CHR ''e'') # byte_of (CHR ''3'') # as_bytes (drop 2 sha256_of_nothing @ ''|'' @ event_hash0)"
    by (simp add: sha256_of_nothing_def as_bytes_def)
  then have "\<exists>t. chain_hash0 = fmt_02x (byte_of (CHR ''e'')) @ fmt_02x (byte_of (CHR ''3'')) @ t"
    unfolding chain_hash_of_def by (metis sample_sha256_hex_first)
  moreover have "fmt_02x (byte_of (CHR ''e'')) @ fmt_02x (byte_of (CHR ''3'')) @ t = ''6533'' @ t" for t
    by (simp add: fmt_02x_def hex_char_def char_of_def bit_0)
  ultimately show ?thesis by simp
qed

lemma sample_texts_first:
  "map first_bytes (sample_texts @ [canonical_event_payload (sample_event 7) ''n1'']) =
     [[0xe3, 0xb0, 0xc4, 0x42], as_bytes ''n1|0'', as_bytes ''e3b0'', as_bytes ''n1|1'',
      as_bytes ''6533'', as_bytes ''n1|7'']"
proof -
  obtain t where "chain_hash0 = ''6533'' @ t" using chain_hash0_first ..
  then have "first_bytes (chain_hash0 @ t') = as_bytes ''6533''" for t'
    by (simp add: first_bytes_def as_bytes_def)
  moreover have "first_bytes '''' = [0xe3, 0xb0, 0xc4, 0x42]" by (simp add: first_bytes_def)
  moreover have "digit_char 0 = CHR ''0''" "digit_char 1 = CHR ''1''" "digit_char 7 = CHR ''7''"
    by (simp_all add: digit_char_def char_of_def bit_0)
  moreover have "first_bytes (canonical_event_payload (sample_event n) ''n1'') =
      as_bytes (''n1|'' @ [digit_char (unat n)])" if "unat n < 10" for n
    using first_bytes_payload [of "sample_event n"] that by (simp add: sample_event_def)
  ultimately show ?thesis
    by (simp add: sample_texts_def first_bytes_linked)
qed

lemma sample_texts_no_collision:
  assumes "set ts \<subseteq> set (sample_texts @ [canonical_event_payload (sample_event 7) ''n1''])"
  shows "\<not> sha256_collision sample_crypto (map as_bytes ts)"
proof -
  have "distinct (map first_bytes (sample_texts @ [canonical_event_payload (sample_event 7) ''n1'']))"
    unfolding sample_texts_first by (simp add: as_bytes_def byte_of_def of_char_def)
  then have "inj_on first_bytes (set (sample_texts @ [canonical_event_payload (sample_event 7) ''n1'']))"
    by (simp only: distinct_map)
  then show ?thesis
    by (intro sample_no_collision inj_on_subset [OF _ assms])
qed

theorem root_hash_determines_events_witness:
  "other_log \<noteq> sample_log \<and> map ar_event (al_records other_log) = map ar_event (al_records sample_log)"
proof -
  have "root_hash other_log = root_hash sample_log"
    by (simp add: root_hash_tip sample_records audit_log_new_def)
  then have "map ar_event (al_records other_log) = map ar_event (al_records sample_log)"
    using sample_texts_no_collision [of "hashed_texts other_log @ hashed_texts sample_log"]
    by (intro mp [OF conjunct2 [OF root_hash_determines_events [OF sample_crypto_laws sample_sha256_vector
          other_log_verifies sample_log_verifies]]])
      (simp_all add: sample_nodes sample_records sample_event_plain sample_hashed_texts subset_insertI)
  moreover have "other_log \<noteq> sample_log"
    using sample_nodes(3,4) by auto
  ultimately show ?thesis by simp
qed

theorem replaced_record_is_detected_witness:
  "\<exists>r0 r1. al_records sample_log = [r0, r1] \<and>
     verify_chain sample_crypto
       (sample_log\<lparr>al_records := [r0\<lparr>ar_event := sample_event 7\<rparr>, r1]\<rparr>) \<noteq> Ok ()"
proof -
  obtain r0 r1 where rs: "al_records sample_log = [r0, r1]" and e0: "ar_event r0 = sample_event 0"
    using sample_log_events by auto
  have "sample_event 7 \<noteq> sample_event 0" by (simp add: sample_event_def)
  then have ne: "r0\<lparr>ar_event := sample_event 7\<rparr> \<noteq> r0"
    using e0 by (metis audit_record.select_convs(1) audit_record.surjective audit_record.update_convs(1))
  let ?L' = "sample_log\<lparr>al_records := [] @ r0\<lparr>ar_event := sample_event 7\<rparr> # [r1]\<rparr>"
  have "set (hashed_texts sample_log @ hashed_texts ?L') \<subseteq>
      set (sample_texts @ [canonical_event_payload (sample_event 7) ''n1''])"
    using rs unfolding sample_hashed_texts(1) [symmetric]
    by (auto simp: hashed_texts_def record_texts_def sample_nodes)
  note nc = sample_texts_no_collision [OF this]
  have "verify_chain sample_crypto ?L' \<noteq> Ok ()"
    using rs e0 sample_event_plain ne
    by (intro mp [OF conjunct2 [OF replaced_record_is_detected
          [OF sample_crypto_laws sample_log_verifies _ ne _ refl nc]]]) auto
  with rs show ?thesis by auto
qed

theorem undetected_changes_witness:
  "verify_chain sample_crypto (sample_log\<lparr>al_records := take 1 (al_records sample_log)\<rparr>) = Ok () \<and>
   length (al_records sample_log) = 2"
  using undetected_changes [of sample_crypto sample_log 1] sample_log_verifies
    arg_cong [OF sample_log_events, of length] by simp

end
