(* ===== verification/Audit_Checks.thy ===== *)
theory Audit_Checks
  imports Audit_Log
begin

text \<open>
  What \<open>verify_chain\<close> (\<open>src/audit.rs\<close>) reports when it refuses a log: its checks as one
  list, record by record, with the error of each, and what becomes of a good log that is
  checked with another secret or under another signer.
\<close>

section \<open>The checks\<close>

definition record_checks ::
  "crypto \<Rightarrow> audit_log \<Rightarrow> nat \<Rightarrow> string \<Rightarrow> audit_record \<Rightarrow> (bool \<times> security_error) list" where
  "record_checks C L idx previous r =
     (let good = sealed C L previous (ar_event r) in
      [(ev_sequence (ar_event r) = word_of_nat idx, TamperDetected ''non-contiguous audit sequence''),
       (ar_prev_hash r = previous, TamperDetected ''audit prev_hash mismatch''),
       (ar_event_hash r = ar_event_hash good, TamperDetected ''audit event hash mismatch''),
       (ar_chain_hash r = ar_chain_hash good, TamperDetected ''audit chain hash mismatch''),
       (ar_signature_hex r = signature_material C (al_signing_secret L) (al_signer_id L) (ar_chain_hash r),
          TamperDetected ''audit signature mismatch'')])"

text \<open>The record at a position is checked against the chain hash of the one before it.\<close>

definition chain_checks ::
  "crypto \<Rightarrow> audit_log \<Rightarrow> nat \<Rightarrow> string \<Rightarrow> audit_record list \<Rightarrow> (bool \<times> security_error) list" where
  "chain_checks C L idx previous rs =
     concat (map (\<lambda>i. record_checks C L (idx + i) (tip previous (take i rs)) (rs ! i)) [0..<length rs])"

lemma chain_checks_simps [simp]:
  "chain_checks C L idx p [] = []"
  "chain_checks C L idx p (r # rs) =
     record_checks C L idx p r @ chain_checks C L (Suc idx) (ar_chain_hash r) rs"
proof -
  have "[0..<length (r # rs)] = 0 # map Suc [0..<length rs]"
    by (simp only: length_Cons map_Suc_upt upt_conv_Cons [of 0 "Suc (length rs)"] zero_less_Suc One_nat_def)
  then show "chain_checks C L idx p (r # rs) =
     record_checks C L idx p r @ chain_checks C L (Suc idx) (ar_chain_hash r) rs"
    unfolding chain_checks_def by (simp add: o_def del: upt_Suc)
qed (simp add: chain_checks_def)

lemma verify_from_checks:
  assumes "crypto_laws C"
  shows "verify_from C L idx previous rs = first_error (chain_checks C L idx previous rs)"
proof (induction rs arbitrary: idx previous)
  case (Cons r rs)
  then show ?case
    by (auto simp: verify_from_Cons record_checks_def event_hash_of_def Let_def same_text_iff [OF assms])
qed simp

section \<open>Properties\<close>

text \<open>
  C19: the verdict of \<open>verify_chain\<close>. It is the error of the first failed check, going through
  the records in order and for each through its sequence number, its link to the record
  before, its event hash, its chain hash and its signature; it is \<open>Ok\<close> when none fails, and
  never a panic.
\<close>

theorem verify_chain_reports_first_failure:
  assumes "crypto_laws C"
  shows "verify_chain C L = first_error (chain_checks C L 0 sha256_of_nothing (al_records L))"
  by (simp add: verify_chain_def verify_from_checks [OF assms])

theorem verify_chain_reports_first_failure_witness:
  "verify_chain sample_crypto (sample_log\<lparr>al_records := tl (al_records sample_log)\<rparr>) =
     Err (TamperDetected ''non-contiguous audit sequence'')"
  unfolding verify_chain_reports_first_failure [OF sample_crypto_laws]
  by (simp add: sample_records record_checks_def sample_event_def)

definition signer_text :: "audit_log \<Rightarrow> string" where
  "signer_text L = al_signing_secret L @ ''|'' @ al_signer_id L"

lemma signature_material_signer:
  "signature_material C (al_signing_secret L) (al_signer_id L) h =
     sha256_hex C (as_bytes (signer_text L @ ''|'' @ h))"
  by (simp add: signature_material_def signer_text_def)

lemma verify_from_signer:
  assumes "signer_text L' = signer_text L" "al_node_id L' = al_node_id L"
  shows "verify_from C L' i p rs = verify_from C L i p rs"
proof (induction rs arbitrary: i p)
  case (Cons r rs)
  have "signature_material C (al_signing_secret L') (al_signer_id L') h =
      signature_material C (al_signing_secret L) (al_signer_id L) h" for h
    by (simp only: signature_material_signer assms)
  with Cons.IH show ?case by (simp add: verify_from_Cons Let_def assms)
qed simp

text \<open>
  C21: the secret counts. A non-empty log that verifies, checked with another secret or under
  another signer, is refused with a signature mismatch at its first record, unless the two
  texts signed for that record collide under SHA-256. What counts is the joined text of
  secret and signer: two pairs with the same joined text accept each other's logs.
\<close>

theorem signature_binds_secret:
  assumes "crypto_laws C" "verify_chain C L = Ok ()" "al_records L = r # rs"
    and "L' = L\<lparr>al_signing_secret := secret, al_signer_id := signer\<rparr>"
  shows "if signer_text L' = signer_text L then verify_chain C L' = Ok ()
    else verify_chain C L' = Err (TamperDetected ''audit signature mismatch'') \<or>
      sha256_collision C (map as_bytes
        [signer_text L @ ''|'' @ ar_chain_hash r, signer_text L' @ ''|'' @ ar_chain_hash r])"
proof (cases "signer_text L' = signer_text L")
  case True
  moreover have "al_node_id L' = al_node_id L" "al_records L' = al_records L"
    by (simp_all add: assms(4))
  ultimately show ?thesis
    using assms(2) verify_from_signer [of L' L] by (simp add: verify_chain_def)
next
  case False
  obtain e where r: "r = sealed C L sha256_of_nothing e" and first: "ev_sequence e = 0"
    using assms(2,3) by (auto simp: verify_chain_def verify_from_Cons_iff [OF assms(1)])
  let ?text = "\<lambda>M. signer_text M @ ''|'' @ ar_chain_hash r"
  have "verify_chain C L' =
      (if sha256_hex C (as_bytes (?text L')) = sha256_hex C (as_bytes (?text L))
       then verify_from C L' 1 (ar_chain_hash r) rs
       else Err (TamperDetected ''audit signature mismatch''))"
    by (simp add: assms(3,4) verify_chain_def verify_from_Cons r first sealed_def event_hash_of_def
        same_text_iff [OF assms(1)] signature_material_def signer_text_def Let_def)
  then show ?thesis
    using False sha256_hex_text [OF assms(1), of "[?text L, ?text L']" "?text L'" "?text L"] by auto
qed

theorem signature_binds_secret_witness:
  "verify_chain sample_crypto (sample_log\<lparr>al_signing_secret := ''other'', al_signer_id := ''signer''\<rparr>) =
     Err (TamperDetected ''audit signature mismatch'')"
proof -
  obtain r rs where rs: "al_records sample_log = r # rs"
    using sample_log_events by auto
  have secret: "al_signing_secret sample_log = ''secret''"
    by (simp add: sample_log_def audit_append_eq audit_log_new_def sample_event_def)
  let ?L' = "sample_log\<lparr>al_signing_secret := ''other'', al_signer_id := ''signer''\<rparr>"
  have "\<not> sha256_collision sample_crypto (map as_bytes
      [signer_text sample_log @ ''|'' @ ar_chain_hash r, signer_text ?L' @ ''|'' @ ar_chain_hash r])"
    by (rule sample_no_collision)
      (simp add: signer_text_def secret first_bytes_def as_bytes_def byte_of_def of_char_def)
  then show ?thesis
    using signature_binds_secret [OF sample_crypto_laws sample_log_verifies rs refl,
        where secret = "''other''" and signer = "''signer''"] secret sample_nodes
    by (simp add: signer_text_def)
qed

section \<open>The log as a journal\<close>

text \<open>
  What the log promises its clients: a list of events, appended to when the number is the next
  one. The record handed back and the root hash are functions of the events (and of node,
  signer and secret), and the chain always verifies.
\<close>

datatype audit_call = Append audit_event | RootHash | VerifyChain

datatype audit_reply =
    Appended "audit_record security_result"
  | Root string
  | Verdict "unit security_result"

fun log_exec :: "crypto \<Rightarrow> audit_call \<Rightarrow> audit_log \<Rightarrow> audit_reply \<times> audit_log" where
  "log_exec C (Append e) L = apfst Appended (audit_append C L e)"
| "log_exec C RootHash L = (Root (root_hash L), L)"
| "log_exec C VerifyChain L = (Verdict (verify_chain C L), L)"

text \<open>The argument \<open>L0\<close> is the empty log: it carries node, signer and secret.\<close>

definition journal_records :: "crypto \<Rightarrow> audit_log \<Rightarrow> audit_event list \<Rightarrow> audit_record list" where
  "journal_records C L0 events = chain C L0 sha256_of_nothing events"

fun journal_exec ::
  "crypto \<Rightarrow> audit_log \<Rightarrow> audit_call \<Rightarrow> audit_event list \<Rightarrow> audit_reply \<times> audit_event list" where
  "journal_exec C L0 (Append e) events =
     (if ev_sequence e = word_of_nat (length events)
      then (Appended (Ok (last (journal_records C L0 (events @ [e])))), events @ [e])
      else (Appended (Err (InvalidInput ''audit sequence must be contiguous'')), events))"
| "journal_exec C L0 RootHash events =
     (Root (tip sha256_of_nothing (journal_records C L0 events)), events)"
| "journal_exec C L0 VerifyChain events = (Verdict (Ok ()), events)"

definition journal_of :: "audit_log \<Rightarrow> audit_event list" where
  "journal_of L = map ar_event (al_records L)"

definition journal_inv :: "crypto \<Rightarrow> audit_log \<Rightarrow> audit_log \<Rightarrow> bool" where
  "journal_inv C L0 L \<longleftrightarrow>
     crypto_laws C \<and> numbered 0 (journal_of L) \<and>
     L = L0\<lparr>al_records := journal_records C L0 (journal_of L)\<rparr>"

lemma chain_snoc: "chain C L p (es @ [e]) = chain C L p es @ [sealed C L (tip p (chain C L p es)) e]"
  by (induction es arbitrary: p) simp_all

lemma numbered_snoc: "numbered i (es @ [e]) \<longleftrightarrow> numbered i es \<and> ev_sequence e = word_of_nat (i + length es)"
  by (induction es arbitrary: i) auto

lemma journal_inv_append:
  assumes "journal_inv C L0 L"
  shows "audit_append C L e =
    (if ev_sequence e = word_of_nat (length (journal_of L))
     then (Ok (last (journal_records C L0 (journal_of L @ [e]))),
       L0\<lparr>al_records := journal_records C L0 (journal_of L @ [e])\<rparr>)
     else (Err (InvalidInput ''audit sequence must be contiguous''), L))"
proof -
  let ?rs = "journal_records C L0 (journal_of L)"
  have L: "L = L0\<lparr>al_records := ?rs\<rparr>" using assms by (simp add: journal_inv_def)
  have rs: "al_records L = ?rs" by (subst L) simp
  have "sealed C L p e = sealed C L0 p e" for p by (subst L) simp
  then have sealed: "al_records L @ [sealed C L (root_hash L) e] = journal_records C L0 (journal_of L @ [e])"
    by (simp add: root_hash_tip rs journal_records_def chain_snoc)
  have len: "length (al_records L) = length (journal_of L)" by (simp add: journal_of_def)
  have upd: "L\<lparr>al_records := xs\<rparr> = L0\<lparr>al_records := xs\<rparr>" for xs by (subst L) simp
  have new: "sealed C L (root_hash L) e = last (journal_records C L0 (journal_of L @ [e]))"
    by (metis sealed last_snoc)
  show ?thesis unfolding audit_append_eq unfolding sealed upd len unfolding new ..
qed

lemma journal_inv_verifies:
  assumes "journal_inv C L0 L"
  shows "verify_chain C L = Ok ()"
proof -
  have L: "L = L0\<lparr>al_records := journal_records C L0 (journal_of L)\<rparr>" and "crypto_laws C"
    and "numbered 0 (journal_of L)"
    using assms by (simp_all add: journal_inv_def)
  moreover have "chain C L p es = chain C L0 p es" for p es by (subst L) simp
  moreover have "al_records L = journal_records C L0 (journal_of L)" by (subst L) simp
  ultimately show ?thesis
    by (simp add: verify_chain_def verify_from_iff journal_records_def journal_of_def [symmetric])
qed

interpretation journal: implements "log_exec C" "journal_exec C L0" journal_of "journal_inv C L0" for C L0
proof unfold_locales
  fix L and c assume inv: "journal_inv C L0 L"
  have keep: "journal_of (L0\<lparr>al_records := journal_records C L0 es\<rparr>) = es" for es
    by (simp add: journal_of_def journal_records_def)
  have rs: "al_records L = journal_records C L0 (journal_of L)"
    using inv unfolding journal_inv_def by (metis audit_log.select_convs(4) audit_log.surjective audit_log.update_convs(4))
  show "journal_inv C L0 (snd (log_exec C c L))"
    using inv by (cases c) (auto simp: journal_inv_append journal_inv_def keep numbered_snoc)
  show "fst (log_exec C c L) = fst (journal_exec C L0 c (journal_of L))"
    using inv by (cases c) (simp_all add: journal_inv_append root_hash_tip rs journal_inv_verifies)
  show "journal_of (snd (log_exec C c L)) = snd (journal_exec C L0 c (journal_of L))"
    using inv by (cases c) (simp_all add: journal_inv_append keep)
qed

text \<open>
  C15: a new audit log behaves like an empty journal. Whatever is appended, refused appends
  included, and whenever the root hash or the verdict on the chain is asked for, every reply
  of the log is the reply of a plain list of events: records and root hash are determined by
  the accepted events, and \<open>verify_chain\<close> always returns \<open>Ok\<close>.
\<close>

theorem log_refines_journal:
  assumes "crypto_laws C"
  shows "replies (log_exec C) (audit_log_new node signer secret) calls =
      replies (journal_exec C (audit_log_new node signer secret)) [] calls \<and>
    journal_of (after (log_exec C) (audit_log_new node signer secret) calls) =
      after (journal_exec C (audit_log_new node signer secret)) [] calls"
proof -
  let ?L0 = "audit_log_new node signer secret"
  have "journal_of ?L0 = []" by (simp add: journal_of_def audit_log_new_def)
  moreover from this have "journal_inv C ?L0 ?L0"
    using assms by (simp add: journal_inv_def journal_records_def audit_log_new_def)
  ultimately show ?thesis
    using journal.replies_agree [of C ?L0 ?L0 calls] journal.after_agrees [of C ?L0 ?L0 calls] by simp
qed

theorem log_refines_journal_witness:
  "replies (log_exec sample_crypto) (audit_log_new ''n1'' ''signer'' ''secret'')
     [Append (sample_event 3), VerifyChain] =
   [Appended (Err (InvalidInput ''audit sequence must be contiguous'')), Verdict (Ok ())]"
  using log_refines_journal [OF sample_crypto_laws, of "''n1''" "''signer''" "''secret''"
      "[Append (sample_event 3), VerifyChain]"]
  by (simp add: sample_event_def)

end
