(* ===== verification/Access_Control.thy ===== *)
theory Access_Control
  imports Security_Types Security_Error BTree_Map Transition_System
begin

text \<open>
  \<open>src/access_control.rs\<close>: roles per action, a policy per tier, and the decision of the
  access controller. The theory models both setters, \<open>authorize\<close> and \<open>authorized_tiers\<close>,
  and proves when access is allowed, downgraded or refused, that the listing of tiers
  agrees with the decisions, and on what a decision depends.
\<close>

section \<open>Data\<close>

record principal =
  pr_id :: string
  pr_tenant_id :: string
  pr_roles :: "string set"
  pr_scopes :: "string set"

datatype action = LoadModel | RunInference | ReadTelemetry | ReadAudit | Prefetch | DecryptTier

fun debug_action :: "action \<Rightarrow> string" where
  "debug_action LoadModel = ''LoadModel''"
| "debug_action RunInference = ''RunInference''"
| "debug_action ReadTelemetry = ''ReadTelemetry''"
| "debug_action ReadAudit = ''ReadAudit''"
| "debug_action Prefetch = ''Prefetch''"
| "debug_action DecryptTier = ''DecryptTier''"

text \<open>The derived \<open>Ord\<close>: actions are ordered as they are declared.\<close>

fun action_rank :: "action \<Rightarrow> nat" where
  "action_rank LoadModel = 0"
| "action_rank RunInference = 1"
| "action_rank ReadTelemetry = 2"
| "action_rank ReadAudit = 3"
| "action_rank Prefetch = 4"
| "action_rank DecryptTier = 5"

lemma action_rank_inject: "action_rank a = action_rank b \<longleftrightarrow> a = b"
  by (cases a; cases b) simp_all

instantiation action :: linorder
begin

definition less_eq_action :: "action \<Rightarrow> action \<Rightarrow> bool" where
  "a \<le> b \<longleftrightarrow> action_rank a \<le> action_rank b"

definition less_action :: "action \<Rightarrow> action \<Rightarrow> bool" where
  "a < b \<longleftrightarrow> action_rank a < action_rank b"

instance
  by standard (auto simp: less_eq_action_def less_action_def action_rank_inject [symmetric])

end

record tier_policy =
  tp_tier :: tier_id
  tp_allowed_roles :: "string set"
  tp_allowed_tenants :: "string set"
  tp_downgrade_tier :: "tier_id option"

datatype authorization_decision = Allow | Downgrade tier_id string | Deny string

record access_controller =
  ac_action_roles :: "(action, string set) btree_map"
  ac_tier_policies :: "(tier_id, tier_policy) btree_map"

definition access_controller_default :: access_controller where
  "access_controller_default = \<lparr>ac_action_roles = bt_new, ac_tier_policies = bt_new\<rparr>"

section \<open>Operations\<close>

definition set_action_roles :: "access_controller \<Rightarrow> action \<Rightarrow> string set \<Rightarrow> access_controller" where
  "set_action_roles A action roles = A\<lparr>ac_action_roles := bt_insert action roles (ac_action_roles A)\<rparr>"

definition set_tier_policy :: "access_controller \<Rightarrow> tier_policy \<Rightarrow> access_controller" where
  "set_tier_policy A policy =
     A\<lparr>ac_tier_policies := bt_insert (tp_tier policy) policy (ac_tier_policies A)\<rparr>"

text \<open>\<open>principal.roles.iter().any(|role| roles.contains(role))\<close>\<close>

definition has_role_of :: "principal \<Rightarrow> string set \<Rightarrow> bool" where
  "has_role_of subject roles \<longleftrightarrow> (\<exists>role\<in>pr_roles subject. role \<in> roles)"

definition authorize ::
  "access_controller \<Rightarrow> principal \<Rightarrow> action \<Rightarrow> tier_id option \<Rightarrow>
   authorization_decision security_result" where
  "authorize A subject action requested_tier =
     (if trim_is_empty (pr_id subject) \<or> trim_is_empty (pr_tenant_id subject)
      then Err (InvalidInput ''principal id and tenant_id are required'')
      else if (case bt_get (ac_action_roles A) action of
          None \<Rightarrow> False | Some required_roles \<Rightarrow> \<not> has_role_of subject required_roles)
      then Ok (Deny (''principal '' @ pr_id subject @ '' lacks role for action '' @ debug_action action))
      else
        (case requested_tier of
           None \<Rightarrow> Ok Allow
         | Some tier \<Rightarrow>
             and_then (ok_or (Unauthorized (''no policy for tier '' @ display tier))
               (bt_get (ac_tier_policies A) tier))
             (\<lambda>policy.
               if pr_tenant_id subject \<notin> tp_allowed_tenants policy
               then
                 let reason = ''tenant '' @ pr_tenant_id subject @ '' not allowed for tier '' @ display tier in
                 (case tp_downgrade_tier policy of
                    Some downgrade \<Rightarrow> Ok (Downgrade downgrade reason)
                  | None \<Rightarrow> Ok (Deny reason))
               else if \<not> has_role_of subject (tp_allowed_roles policy)
               then
                 let reason = ''principal '' @ pr_id subject @ '' lacks role for tier '' @ display tier in
                 (case tp_downgrade_tier policy of
                    Some downgrade \<Rightarrow> Ok (Downgrade downgrade reason)
                  | None \<Rightarrow> Ok (Deny reason))
               else Ok Allow)))"

definition authorized_tiers :: "access_controller \<Rightarrow> principal \<Rightarrow> tier_id list" where
  "authorized_tiers A subject =
     sort (map fst (filter
       (\<lambda>(tier, policy). pr_tenant_id subject \<in> tp_allowed_tenants policy \<and>
          has_role_of subject (tp_allowed_roles policy))
       (bt_entries (ac_tier_policies A))))"

section \<open>When access is allowed\<close>

definition named :: "principal \<Rightarrow> bool" where
  "named p \<longleftrightarrow> \<not> trim_is_empty (pr_id p) \<and> \<not> trim_is_empty (pr_tenant_id p)"

definition may_act :: "access_controller \<Rightarrow> principal \<Rightarrow> action \<Rightarrow> bool" where
  "may_act A p a \<longleftrightarrow> (\<forall>roles. bt_get (ac_action_roles A) a = Some roles \<longrightarrow> pr_roles p \<inter> roles \<noteq> {})"

definition admits :: "tier_policy \<Rightarrow> principal \<Rightarrow> bool" where
  "admits policy p \<longleftrightarrow>
     pr_tenant_id p \<in> tp_allowed_tenants policy \<and> pr_roles p \<inter> tp_allowed_roles policy \<noteq> {}"

lemma has_role_of_iff: "has_role_of p roles \<longleftrightarrow> pr_roles p \<inter> roles \<noteq> {}"
  by (auto simp: has_role_of_def)

lemma authorize_unnamed:
  "\<not> named p \<Longrightarrow> authorize A p a t = Err (InvalidInput ''principal id and tenant_id are required'')"
  by (auto simp: authorize_def named_def)

lemma authorize_no_action:
  "named p \<Longrightarrow> \<not> may_act A p a \<Longrightarrow> \<exists>reason. authorize A p a t = Ok (Deny reason)"
  by (auto simp: authorize_def named_def may_act_def has_role_of_iff)

lemma authorize_no_tier: "named p \<Longrightarrow> may_act A p a \<Longrightarrow> authorize A p a None = Ok Allow"
  by (auto simp: authorize_def named_def may_act_def has_role_of_iff split: option.split)

lemma authorize_policy:
  assumes "named p" "may_act A p a" "bt_get (ac_tier_policies A) tier = Some policy"
  shows "\<exists>reason. authorize A p a (Some tier) =
    (if admits policy p then Ok Allow
     else case tp_downgrade_tier policy of
       Some d \<Rightarrow> Ok (Downgrade d reason) | None \<Rightarrow> Ok (Deny reason))"
  using assms
  by (auto simp: authorize_def named_def may_act_def admits_def has_role_of_iff Let_def split: option.split)

lemma authorize_no_policy:
  assumes "named p" "may_act A p a" "bt_get (ac_tier_policies A) tier = None"
  shows "authorize A p a (Some tier) = Err (Unauthorized (''no policy for tier '' @ display tier))"
  using assms by (auto simp: authorize_def named_def may_act_def has_role_of_iff split: option.split)

lemma set_authorized_tiers:
  "tier \<in> set (authorized_tiers A p) \<longleftrightarrow>
     (\<exists>policy. (tier, policy) \<in> set (bt_entries (ac_tier_policies A)) \<and> admits policy p)"
  by (force simp: authorized_tiers_def admits_def has_role_of_iff)

section \<open>The controller as a system\<close>

definition ac_init :: "access_controller \<Rightarrow> bool" where
  "ac_init A \<longleftrightarrow> A = access_controller_default"

inductive ac_step :: "access_controller \<Rightarrow> access_controller \<Rightarrow> bool" where
  roles: "ac_step A (set_action_roles A action roles)"
| policy: "ac_step A (set_tier_policy A policy)"

definition ac_wf :: "access_controller \<Rightarrow> bool" where
  "ac_wf A \<longleftrightarrow>
     bt_wf (ac_action_roles A) \<and> bt_wf (ac_tier_policies A) \<and>
     (\<forall>tier policy. bt_get (ac_tier_policies A) tier = Some policy \<longrightarrow> tp_tier policy = tier)"

lemma ac_step_wf: "ac_step A B \<Longrightarrow> ac_wf A \<Longrightarrow> ac_wf B"
  by (induction rule: ac_step.induct)
    (auto simp: ac_wf_def set_action_roles_def set_tier_policy_def)

interpretation controller: invariant_system ac_init ac_step ac_wf
  by unfold_locales
    (auto simp: ac_init_def access_controller_default_def ac_wf_def [of "access_controller_default"]
      intro: ac_step_wf, simp add: ac_wf_def)

section \<open>Properties\<close>

text \<open>
  C10: the decision. A principal without id or tenant is an error. Otherwise access is allowed
  exactly when the principal has a role of the action (or none are set for it) and, if a tier
  is asked for, that tier's policy admits the tenant and a role; it is downgraded, to the tier
  the policy names, exactly when the action is allowed and the policy does not admit the
  principal; a tier without a policy is an error; and nothing panics.
\<close>

theorem authorize_decisions:
  "(authorize A p a t = Ok Allow \<longleftrightarrow>
      named p \<and> may_act A p a \<and>
      (\<forall>tier. t = Some tier \<longrightarrow>
        (\<exists>policy. bt_get (ac_tier_policies A) tier = Some policy \<and> admits policy p))) \<and>
   ((\<exists>reason. authorize A p a t = Ok (Downgrade d reason)) \<longleftrightarrow>
      named p \<and> may_act A p a \<and>
      (\<exists>tier policy. t = Some tier \<and> bt_get (ac_tier_policies A) tier = Some policy \<and>
        \<not> admits policy p \<and> tp_downgrade_tier policy = Some d)) \<and>
   ((\<exists>e. authorize A p a t = Err e) \<longleftrightarrow>
      \<not> named p \<or> may_act A p a \<and> (\<exists>tier. t = Some tier \<and> bt_get (ac_tier_policies A) tier = None)) \<and>
   authorize A p a t \<noteq> Panic"
proof (cases "named p \<and> may_act A p a")
  case False
  then show ?thesis
    using authorize_unnamed [of p A a t] authorize_no_action [of p A a t] by (cases "named p") auto
next
  case True
  show ?thesis
  proof (cases t)
    case None
    with True show ?thesis by (simp add: authorize_no_tier)
  next
    case (Some tier)
    show ?thesis
    proof (cases "bt_get (ac_tier_policies A) tier")
      case None
      with True Some show ?thesis by (simp add: authorize_no_policy)
    next
      fix policy assume policy: "bt_get (ac_tier_policies A) tier = Some policy"
      then obtain reason where "authorize A p a (Some tier) =
          (if admits policy p then Ok Allow
           else case tp_downgrade_tier policy of
             Some d \<Rightarrow> Ok (Downgrade d reason) | None \<Rightarrow> Ok (Deny reason))"
        using authorize_policy [of p A a tier policy] True by blast
      with True Some policy show ?thesis by (auto split: option.splits)
    qed
  qed
qed

text \<open>
  C24: \<open>authorized_tiers\<close> lists, in increasing order and without repetition, exactly the tiers
  whose policy admits the principal; for a named principal who may perform an action these
  are the tiers for which \<open>authorize\<close> allows it.
\<close>

theorem authorized_tiers_agree:
  assumes "reachable ac_init ac_step A"
  shows "sorted_wrt (<) (authorized_tiers A p) \<and>
    (tier \<in> set (authorized_tiers A p) \<longleftrightarrow>
      (\<exists>policy. bt_get (ac_tier_policies A) tier = Some policy \<and> tp_tier policy = tier \<and> admits policy p)) \<and>
    (named p \<and> may_act A p a \<longrightarrow>
      (tier \<in> set (authorized_tiers A p) \<longleftrightarrow> authorize A p a (Some tier) = Ok Allow))"
proof -
  have wf: "ac_wf A" using assms by (rule controller.reachable_inv)
  then have bt: "bt_wf (ac_tier_policies A)" by (simp add: ac_wf_def)
  let ?listed = "map fst (filter (\<lambda>(tier, policy). admits policy p) (bt_entries (ac_tier_policies A)))"
  have "sorted_wrt (<) ?listed" using bt by (rule bt.selected_keys_sorted)
  then have eq: "authorized_tiers A p = ?listed"
    by (simp add: authorized_tiers_def has_role_of_iff admits_def sorted_sort_id
        strict_sorted_imp_sorted)
  have mem: "tier \<in> set (authorized_tiers A p) \<longleftrightarrow>
      (\<exists>policy. bt_get (ac_tier_policies A) tier = Some policy \<and> admits policy p)"
    unfolding eq by (rule bt.selected_keys_set [OF bt])
  show ?thesis
    using \<open>sorted_wrt (<) ?listed\<close> wf mem authorize_decisions [of A p a "Some tier"]
    unfolding eq by (auto simp: ac_wf_def)
qed

text \<open>
  A decision depends on the roles of the action and the policy of the requested tier
  only. In particular the tier a principal is downgraded to is not looked at: replacing or
  adding its policy, even by one that admits nobody, leaves the downgrade as it was.
\<close>

theorem decision_is_local:
  assumes "a' \<noteq> a" "t \<noteq> Some (tp_tier policy)"
  shows "authorize (set_tier_policy A policy) p a t = authorize A p a t \<and>
    authorize (set_action_roles A a' roles) p a t = authorize A p a t"
  using assms
  by (cases t) (auto simp: authorize_def set_tier_policy_def set_action_roles_def)

text \<open>
  Further roles never take access away: what is allowed to a principal is allowed to the
  same principal with more roles, and every listed tier stays listed.
\<close>

theorem roles_are_monotone:
  assumes "reachable ac_init ac_step A" "authorize A p a t = Ok Allow" "pr_roles p \<subseteq> roles"
  shows "authorize A (p\<lparr>pr_roles := roles\<rparr>) a t = Ok Allow \<and>
    set (authorized_tiers A p) \<subseteq> set (authorized_tiers A (p\<lparr>pr_roles := roles\<rparr>))"
proof
  let ?q = "p\<lparr>pr_roles := roles\<rparr>"
  have mono: "admits policy p \<Longrightarrow> admits policy ?q" for policy using assms(3) by (auto simp: admits_def)
  have allow: "authorize A q a t = Ok Allow \<longleftrightarrow> named q \<and> may_act A q a \<and>
      (\<forall>tier. t = Some tier \<longrightarrow>
        (\<exists>policy. bt_get (ac_tier_policies A) tier = Some policy \<and> admits policy q))" for q
    by (rule conjunct1 [OF authorize_decisions])
  have "named ?q = named p" by (simp add: named_def)
  moreover have "may_act A p a \<Longrightarrow> may_act A ?q a"
    using assms(3) unfolding may_act_def by auto
  ultimately show "authorize A ?q a t = Ok Allow"
    using assms(2) mono unfolding allow by blast
  show "set (authorized_tiers A p) \<subseteq> set (authorized_tiers A ?q)"
    using mono by (simp add: subset_iff set_authorized_tiers) blast
qed

section \<open>Applications at concrete inputs\<close>

definition sample_principal :: principal where
  "sample_principal = \<lparr>pr_id = ''alice'', pr_tenant_id = ''acme'', pr_roles = {''operator''}, pr_scopes = {}\<rparr>"

definition sample_tier_policy :: tier_policy where
  "sample_tier_policy = \<lparr>tp_tier = 3, tp_allowed_roles = {''operator''}, tp_allowed_tenants = {''acme''},
     tp_downgrade_tier = Some 1\<rparr>"

definition sample_controller :: access_controller where
  "sample_controller = set_tier_policy
     (set_action_roles access_controller_default LoadModel {''operator''}) sample_tier_policy"

lemma sample_controller_reachable: "reachable ac_init ac_step sample_controller"
proof -
  have "reachable ac_init ac_step access_controller_default"
    by (rule reachable.start) (simp add: ac_init_def)
  from reachable.move [OF reachable.move [OF this ac_step.roles] ac_step.policy]
  show ?thesis by (simp only: sample_controller_def)
qed

lemma sample_decision: "authorize sample_controller sample_principal LoadModel (Some 3) = Ok Allow"
  by (simp add: authorize_def sample_controller_def sample_principal_def sample_tier_policy_def
      set_tier_policy_def set_action_roles_def has_role_of_def ascii_white_def)

theorem authorize_decisions_witness:
  "authorize sample_controller sample_principal ReadAudit (Some 3) = Ok Allow \<and>
   (\<exists>e. authorize sample_controller sample_principal ReadAudit (Some 9) = Err e)"
proof -
  have facts: "named sample_principal" "may_act sample_controller sample_principal ReadAudit"
    "admits sample_tier_policy sample_principal"
    "bt_get (ac_tier_policies sample_controller) 3 = Some sample_tier_policy"
    "bt_get (ac_tier_policies sample_controller) 9 = None"
    by (simp_all add: named_def may_act_def admits_def sample_controller_def sample_principal_def
        sample_tier_policy_def set_tier_policy_def set_action_roles_def access_controller_default_def
        ascii_white_def)
  show ?thesis
  proof
    show "authorize sample_controller sample_principal ReadAudit (Some 3) = Ok Allow"
      unfolding conjunct1 [OF authorize_decisions] using facts by simp
    show "\<exists>e. authorize sample_controller sample_principal ReadAudit (Some 9) = Err e"
      unfolding conjunct1 [OF conjunct2 [OF conjunct2 [OF authorize_decisions]]] using facts by simp
  qed
qed

theorem authorized_tiers_agree_witness:
  "sorted_wrt (<) (authorized_tiers sample_controller sample_principal) \<and>
   3 \<in> set (authorized_tiers sample_controller sample_principal)"
proof -
  have "named sample_principal \<and> may_act sample_controller sample_principal LoadModel"
    using sample_decision authorize_unnamed [of sample_principal sample_controller LoadModel "Some 3"]
      authorize_no_action [of sample_principal sample_controller LoadModel "Some 3"] by auto
  then show ?thesis
    using authorized_tiers_agree [OF sample_controller_reachable, of sample_principal 3 LoadModel]
      sample_decision by blast
qed

theorem decision_is_local_witness:
  "authorize (set_tier_policy sample_controller
     \<lparr>tp_tier = 1, tp_allowed_roles = {}, tp_allowed_tenants = {}, tp_downgrade_tier = None\<rparr>)
     (sample_principal\<lparr>pr_tenant_id := ''other''\<rparr>) LoadModel (Some 3) =
   Ok (Downgrade 1 ''tenant other not allowed for tier 3'')"
proof -
  have "display (3 :: tier_id) = ''3''"
    by (subst display_def, subst decimal.simps) (simp add: digit_char_def char_of_def bit_0)
  then have "authorize sample_controller (sample_principal\<lparr>pr_tenant_id := ''other''\<rparr>) LoadModel (Some 3) =
      Ok (Downgrade 1 ''tenant other not allowed for tier 3'')"
    by (simp add: authorize_def sample_controller_def sample_principal_def sample_tier_policy_def
        set_tier_policy_def set_action_roles_def has_role_of_def ascii_white_def)
  moreover have "authorize (set_tier_policy sample_controller
     \<lparr>tp_tier = 1, tp_allowed_roles = {}, tp_allowed_tenants = {}, tp_downgrade_tier = None\<rparr>)
     (sample_principal\<lparr>pr_tenant_id := ''other''\<rparr>) LoadModel (Some 3) =
     authorize sample_controller (sample_principal\<lparr>pr_tenant_id := ''other''\<rparr>) LoadModel (Some 3)"
    by (rule conjunct1 [OF decision_is_local [where a' = Prefetch]]) simp_all
  ultimately show ?thesis by simp
qed

theorem roles_are_monotone_witness:
  "authorize sample_controller (sample_principal\<lparr>pr_roles := {''operator'', ''admin''}\<rparr>) LoadModel (Some 3) =
   Ok Allow"
  by (rule conjunct1 [OF roles_are_monotone [OF sample_controller_reachable sample_decision]])
    (simp add: sample_principal_def)

end
