(* ===== verification/Sandbox.thy ===== *)
theory Sandbox
  imports Security_Types Security_Error BTree_Map Transition_System
begin

text \<open>
  \<open>src/sandbox.rs\<close>: capability tokens, the syscall list and the resource limits of the plugin
  sandbox. The runtime is a state that five methods change or read; the theory states what a
  validated capability means in terms of the calls made so far, and shows what the limits
  and the token names guarantee.
\<close>

section \<open>Data\<close>

datatype capability =
    ReadTensor | RouteToken | AccessKvCache | LoadExpert | Filesystem | Network

fun debug_capability :: "capability \<Rightarrow> string" where
  "debug_capability ReadTensor = ''ReadTensor''"
| "debug_capability RouteToken = ''RouteToken''"
| "debug_capability AccessKvCache = ''AccessKvCache''"
| "debug_capability LoadExpert = ''LoadExpert''"
| "debug_capability Filesystem = ''Filesystem''"
| "debug_capability Network = ''Network''"

record capability_token =
  ct_token_id :: string
  ct_plugin_id :: string
  ct_capabilities :: "capability set"
  ct_issued_step :: u64
  ct_expires_step :: u64

record sandbox_config =
  allowed_syscalls :: "string set"
  max_memory_bytes :: u64
  max_cpu_millis :: u64

record resource_usage =
  ru_memory_bytes :: u64
  ru_cpu_millis :: u64

record sandbox_runtime =
  sb_config :: "sandbox_config option"
  sb_tokens :: "(string, capability_token) btree_map"
  sb_plugin_usage :: "(string, resource_usage) btree_map"

text \<open>The derived \<open>Default\<close>, the only constructor.\<close>

definition sandbox_default :: sandbox_runtime where
  "sandbox_default = \<lparr>sb_config = None, sb_tokens = bt_new, sb_plugin_usage = bt_new\<rparr>"

section \<open>Operations\<close>

definition configure :: "sandbox_runtime \<Rightarrow> sandbox_config \<Rightarrow> unit security_result \<times> sandbox_runtime" where
  "configure S config =
     (if max_memory_bytes config = 0 \<or> max_cpu_millis config = 0
      then (Err (InvalidConfig ''sandbox resource limits must be greater than zero''), S)
      else (Ok (), S\<lparr>sb_config := Some config\<rparr>))"

definition token_text :: "string \<Rightarrow> u64 \<Rightarrow> u64 \<Rightarrow> u64 \<Rightarrow> string" where
  "token_text plugin_id now_step ttl_steps seed =
     plugin_id @ ''|'' @ display now_step @ ''|'' @ display ttl_steps @ ''|'' @ display seed"

definition grant_capabilities ::
  "build \<Rightarrow> sandbox_runtime \<Rightarrow> string \<Rightarrow> capability set \<Rightarrow> u64 \<Rightarrow> u64 \<Rightarrow> u64 \<Rightarrow>
   capability_token security_result \<times> sandbox_runtime" where
  "grant_capabilities bld S plugin_id capabilities now_step ttl_steps seed =
     (if trim_is_empty plugin_id then (Err (InvalidInput ''plugin_id must not be empty''), S)
      else if ttl_steps = 0 then (Err (InvalidInput ''ttl_steps must be greater than zero''), S)
      else
        let token_id = fnv64_hex (as_bytes (token_text plugin_id now_step ttl_steps seed)) in
        case add_checked bld now_step ttl_steps of
          Err e \<Rightarrow> (Err e, S)
        | Panic \<Rightarrow> (Panic, S)
        | Ok expires_step \<Rightarrow>
            let token = \<lparr>ct_token_id = token_id, ct_plugin_id = plugin_id,
                  ct_capabilities = capabilities, ct_issued_step = now_step,
                  ct_expires_step = expires_step\<rparr> in
            (Ok token, S\<lparr>sb_tokens := bt_insert token_id token (sb_tokens S)\<rparr>))"

definition validate_capability ::
  "sandbox_runtime \<Rightarrow> string \<Rightarrow> string \<Rightarrow> capability \<Rightarrow> u64 \<Rightarrow> unit security_result" where
  "validate_capability S token_id plugin_id capability now_step =
     and_then (ok_or (SandboxDenied ''unknown capability token'') (bt_get (sb_tokens S) token_id))
     (\<lambda>token.
       if ct_plugin_id token \<noteq> plugin_id
       then Err (SandboxDenied ''token does not belong to plugin'')
       else if now_step > ct_expires_step token
       then Err (SandboxDenied ''capability token is expired'')
       else if capability \<notin> ct_capabilities token
       then Err (SandboxDenied (''missing capability '' @ debug_capability capability))
       else Ok ())"

definition validate_syscall :: "sandbox_runtime \<Rightarrow> string \<Rightarrow> unit security_result" where
  "validate_syscall S syscall =
     and_then (ok_or (InvalidState ''sandbox not configured'') (sb_config S)) (\<lambda>config.
       if syscall \<notin> allowed_syscalls config
       then Err (SandboxDenied (''syscall '' @ [CHR 39] @ syscall @ [CHR 39] @ '' not allowed''))
       else Ok ())"

definition record_usage ::
  "sandbox_runtime \<Rightarrow> string \<Rightarrow> resource_usage \<Rightarrow> unit security_result \<times> sandbox_runtime" where
  "record_usage S plugin_id usage =
     (case sb_config S of
        None \<Rightarrow> (Err (InvalidState ''sandbox not configured''), S)
      | Some config \<Rightarrow>
          (if ru_memory_bytes usage > max_memory_bytes config
           then (Err (SandboxDenied ''memory limit exceeded''), S)
           else if ru_cpu_millis usage > max_cpu_millis config
           then (Err (SandboxDenied ''cpu limit exceeded''), S)
           else (Ok (), S\<lparr>sb_plugin_usage := bt_insert plugin_id usage (sb_plugin_usage S)\<rparr>)))"

definition revoke_token :: "sandbox_runtime \<Rightarrow> string \<Rightarrow> sandbox_runtime" where
  "revoke_token S token_id = S\<lparr>sb_tokens := bt_remove token_id (sb_tokens S)\<rparr>"

section \<open>Calls\<close>

text \<open>
  The calls that change the runtime, and the state after a sequence of them. Refused calls
  are part of a sequence; so are, in a debug build, calls that panicked and were caught.
\<close>

datatype sandbox_call =
    Configure sandbox_config
  | Grant string "capability set" u64 u64 u64
  | RecordUsage string resource_usage
  | RevokeToken string

fun call :: "build \<Rightarrow> sandbox_call \<Rightarrow> sandbox_runtime \<Rightarrow> sandbox_runtime" where
  "call bld (Configure config) S = snd (configure S config)"
| "call bld (Grant plugin_id capabilities now_step ttl_steps seed) S =
     snd (grant_capabilities bld S plugin_id capabilities now_step ttl_steps seed)"
| "call bld (RecordUsage plugin_id usage) S = snd (record_usage S plugin_id usage)"
| "call bld (RevokeToken token_id) S = revoke_token S token_id"

definition run_calls :: "build \<Rightarrow> sandbox_call list \<Rightarrow> sandbox_runtime" where
  "run_calls bld calls = fold (call bld) calls sandbox_default"

lemma run_calls_simps [simp]:
  "run_calls bld [] = sandbox_default"
  "run_calls bld (calls @ [c]) = call bld c (run_calls bld calls)"
  by (simp_all add: run_calls_def)

definition token_name :: "string \<Rightarrow> u64 \<Rightarrow> u64 \<Rightarrow> u64 \<Rightarrow> string" where
  "token_name plugin_id now_step ttl_steps seed =
     fnv64_hex (as_bytes (token_text plugin_id now_step ttl_steps seed))"

text \<open>A grant is made when its arguments pass the checks and, in a debug build, the expiry fits.\<close>

definition grant_made :: "build \<Rightarrow> string \<Rightarrow> u64 \<Rightarrow> u64 \<Rightarrow> bool" where
  "grant_made bld plugin_id now_step ttl_steps \<longleftrightarrow>
     \<not> trim_is_empty plugin_id \<and> ttl_steps \<noteq> 0 \<and>
     (bld = Debug \<longrightarrow> unat now_step + unat ttl_steps < 2 ^ 64)"

definition granted_token ::
  "string \<Rightarrow> capability set \<Rightarrow> u64 \<Rightarrow> u64 \<Rightarrow> u64 \<Rightarrow> capability_token" where
  "granted_token plugin_id capabilities now_step ttl_steps seed =
     \<lparr>ct_token_id = token_name plugin_id now_step ttl_steps seed, ct_plugin_id = plugin_id,
      ct_capabilities = capabilities, ct_issued_step = now_step,
      ct_expires_step = now_step + ttl_steps\<rparr>"

lemma add_checked_cases:
  "add_checked bld a (b :: u64) = (if bld = Debug \<and> \<not> unat a + unat b < 2 ^ 64 then Panic else Ok (a + b))"
  by (cases bld) (simp_all add: add_checked_def)

lemma grant_capabilities_eq:
  "grant_made bld p now ttl \<Longrightarrow> grant_capabilities bld S p caps now ttl seed =
     (Ok (granted_token p caps now ttl seed),
      S\<lparr>sb_tokens := bt_insert (token_name p now ttl seed) (granted_token p caps now ttl seed)
        (sb_tokens S)\<rparr>)"
  by (auto simp: grant_capabilities_def grant_made_def granted_token_def token_name_def Let_def
      add_checked_cases)

lemma grant_capabilities_refused:
  "\<not> grant_made bld p now ttl \<Longrightarrow> snd (grant_capabilities bld S p caps now ttl seed) = S"
  by (auto simp: grant_capabilities_def grant_made_def Let_def add_checked_cases)

lemma grant_capabilities_Ok_iff:
  "is_ok (fst (grant_capabilities bld S p caps now ttl seed)) \<longleftrightarrow> grant_made bld p now ttl"
  by (auto simp: grant_capabilities_def grant_made_def Let_def add_checked_cases)

text \<open>Which call decides about a token name: a grant that is made under it, or its revocation.\<close>

fun decides :: "build \<Rightarrow> string \<Rightarrow> sandbox_call \<Rightarrow> bool" where
  "decides bld token_id (Grant p caps now ttl seed) =
     (grant_made bld p now ttl \<and> token_name p now ttl seed = token_id)"
| "decides bld token_id (RevokeToken t) = (t = token_id)"
| "decides bld token_id (Configure config) = False"
| "decides bld token_id (RecordUsage p usage) = False"

lemma configure_tokens: "sb_tokens (snd (configure S config)) = sb_tokens S"
  by (simp add: configure_def)

lemma record_usage_tokens: "sb_tokens (snd (record_usage S p usage)) = sb_tokens S"
  by (simp add: record_usage_def split: option.split)

lemma tokens_undecided:
  assumes "\<not> decides bld token_id c"
  shows "bt_get (sb_tokens (call bld c S)) token_id = bt_get (sb_tokens S) token_id"
proof (cases c)
  case (Grant p caps now ttl seed)
  then show ?thesis
    using assms by (cases "grant_made bld p now ttl")
      (auto simp: grant_capabilities_eq grant_capabilities_refused)
next
  case (RevokeToken t)
  then show ?thesis using assms by (auto simp: revoke_token_def)
qed (simp_all add: configure_tokens record_usage_tokens)

text \<open>A grant stands when it was made and no later call decided about its token name.\<close>

definition standing ::
  "build \<Rightarrow> sandbox_call list \<Rightarrow> string \<Rightarrow> capability set \<Rightarrow> u64 \<Rightarrow> u64 \<Rightarrow> u64 \<Rightarrow> bool" where
  "standing bld calls p caps now ttl seed \<longleftrightarrow>
     grant_made bld p now ttl \<and>
     (\<exists>before later. calls = before @ Grant p caps now ttl seed # later \<and>
       (\<forall>c\<in>set later. \<not> decides bld (token_name p now ttl seed) c))"

lemma standing_snoc:
  "standing bld (calls @ [c]) p caps now ttl seed \<longleftrightarrow>
     grant_made bld p now ttl \<and>
     (c = Grant p caps now ttl seed \<or>
      \<not> decides bld (token_name p now ttl seed) c \<and> standing bld calls p caps now ttl seed)"
  by (auto simp: standing_def last_occurrence_snoc)

lemma standing_undecided:
  assumes "\<not> decides bld (token_name p now ttl seed) c"
  shows "standing bld (calls @ [c]) p caps now ttl seed \<longleftrightarrow> standing bld calls p caps now ttl seed"
proof -
  have "standing bld calls p caps now ttl seed \<Longrightarrow> grant_made bld p now ttl"
    by (simp add: standing_def)
  then show ?thesis using assms by (auto simp: standing_snoc)
qed

text \<open>The tokens stored are those of the standing grants.\<close>

lemma stored_token_iff:
  "bt_get (sb_tokens (run_calls bld calls)) token_id = Some token \<longleftrightarrow>
     (\<exists>p caps now ttl seed. standing bld calls p caps now ttl seed \<and>
       token_name p now ttl seed = token_id \<and> token = granted_token p caps now ttl seed)"
proof (induction calls rule: rev_induct)
  case Nil
  then show ?case by (simp add: sandbox_default_def standing_def)
next
  case (snoc c calls)
  show ?case
  proof (cases "decides bld token_id c")
    case False
    then have "standing bld (calls @ [c]) p caps now ttl seed \<and> token_name p now ttl seed = token_id \<longleftrightarrow>
        standing bld calls p caps now ttl seed \<and> token_name p now ttl seed = token_id"
      for p caps now ttl seed
      using standing_undecided [of bld p now ttl seed c] by auto
    then show ?thesis
      by (simp add: tokens_undecided [OF False] snoc.IH flip: conj_assoc)
  next
    case True
    show ?thesis
    proof (cases c)
      case (Grant p caps now ttl seed)
      then have "grant_made bld p now ttl" "token_name p now ttl seed = token_id" using True by auto
      then have stored: "bt_get (sb_tokens (run_calls bld (calls @ [c]))) token_id =
          Some (granted_token p caps now ttl seed)"
        and here: "standing bld (calls @ [c]) p caps now ttl seed"
        using Grant by (simp_all add: grant_capabilities_eq standing_snoc)
      have only: "c = Grant p' caps' now' ttl' seed'"
        if "standing bld (calls @ [c]) p' caps' now' ttl' seed'" "token_name p' now' ttl' seed' = token_id"
        for p' caps' now' ttl' seed'
        using that True by (auto simp: standing_snoc)
      show ?thesis
      proof
        assume "bt_get (sb_tokens (run_calls bld (calls @ [c]))) token_id = Some token"
        then have "token = granted_token p caps now ttl seed" using stored by simp
        with here \<open>token_name p now ttl seed = token_id\<close>
        show "\<exists>p caps now ttl seed. standing bld (calls @ [c]) p caps now ttl seed \<and>
            token_name p now ttl seed = token_id \<and> token = granted_token p caps now ttl seed"
          by blast
      qed (use stored only Grant in blast)
    next
      case (RevokeToken t)
      then show ?thesis using True by (auto simp: revoke_token_def standing_snoc)
    qed (use True in simp_all)
  qed
qed

text \<open>The text a token is named after determines the arguments of the grant, except the capabilities.\<close>

lemma token_text_inject:
  "token_text p now ttl seed = token_text p' now' ttl' seed' \<longleftrightarrow>
     p = p' \<and> now = now' \<and> ttl = ttl' \<and> seed = seed'"
proof
  let ?sep = "CHR ''|''"
  assume "token_text p now ttl seed = token_text p' now' ttl' seed'"
  then have 1: "(p @ ?sep # display now @ ?sep # display ttl) @ ?sep # display seed =
      (p' @ ?sep # display now' @ ?sep # display ttl') @ ?sep # display seed'"
    by (simp add: token_text_def)
  from split_at_last_separator [OF 1]
  have 2: "(p @ ?sep # display now) @ ?sep # display ttl = (p' @ ?sep # display now') @ ?sep # display ttl'"
    and seed: "seed = seed'" by simp_all
  from split_at_last_separator [OF 2]
  have 3: "p @ ?sep # display now = p' @ ?sep # display now'" and ttl: "ttl = ttl'" by simp_all
  from split_at_last_separator [OF 3] ttl seed
  show "p = p' \<and> now = now' \<and> ttl = ttl' \<and> seed = seed'" by simp
qed simp

section \<open>The runtime as a system\<close>

definition sandbox_init :: "sandbox_runtime \<Rightarrow> bool" where
  "sandbox_init S \<longleftrightarrow> S = sandbox_default"

inductive sandbox_step :: "build \<Rightarrow> sandbox_runtime \<Rightarrow> sandbox_runtime \<Rightarrow> bool" for bld where
  step: "sandbox_step bld S (call bld c S)"

inductive_cases sandbox_stepE: "sandbox_step bld S T"

definition token_ok :: "string \<Rightarrow> capability_token \<Rightarrow> bool" where
  "token_ok key token \<longleftrightarrow>
     ct_token_id token = key \<and> length key = 16 \<and> \<not> trim_is_empty (ct_plugin_id token) \<and>
     ct_issued_step token \<noteq> ct_expires_step token"

definition sandbox_wf :: "sandbox_runtime \<Rightarrow> bool" where
  "sandbox_wf S \<longleftrightarrow>
     bt_wf (sb_tokens S) \<and> bt_wf (sb_plugin_usage S) \<and>
     (\<forall>config. sb_config S = Some config \<longrightarrow> max_memory_bytes config \<noteq> 0 \<and> max_cpu_millis config \<noteq> 0) \<and>
     (\<forall>key token. bt_get (sb_tokens S) key = Some token \<longrightarrow> token_ok key token)"

lemma granted_token_ok:
  "grant_made bld p now ttl \<Longrightarrow> token_ok (token_name p now ttl seed) (granted_token p caps now ttl seed)"
  by (simp add: token_ok_def granted_token_def grant_made_def token_name_def fnv64_hex_format)

lemma call_wf:
  assumes "sandbox_wf S"
  shows "sandbox_wf (call bld c S)"
proof (cases c)
  case (Grant p caps now ttl seed)
  then show ?thesis
    using assms granted_token_ok [of bld p now ttl seed caps]
    by (cases "grant_made bld p now ttl")
      (auto simp: grant_capabilities_eq grant_capabilities_refused sandbox_wf_def)
next
  case (RecordUsage p usage)
  then show ?thesis
    using assms by (auto simp: record_usage_def sandbox_wf_def split: option.split)
qed (use assms in \<open>auto simp: configure_def revoke_token_def sandbox_wf_def\<close>)

lemma step_wf: "sandbox_wf S \<Longrightarrow> sandbox_step bld S T \<Longrightarrow> sandbox_wf T"
  by (auto elim!: sandbox_stepE intro: call_wf)

lemma default_wf: "sandbox_init S \<Longrightarrow> sandbox_wf S"
  by (simp add: sandbox_init_def sandbox_default_def sandbox_wf_def)

interpretation sandbox: invariant_system sandbox_init "sandbox_step bld" sandbox_wf for bld
  by unfold_locales (auto intro: step_wf default_wf)

lemma run_calls_reachable: "reachable sandbox_init (sandbox_step bld) (run_calls bld calls)"
  by (induction calls rule: rev_induct)
    (auto simp: sandbox_init_def intro: reachable.intros sandbox_step.step)

lemma validate_capability_Ok_iff:
  "validate_capability S token_id plugin_id capability now = Ok () \<longleftrightarrow>
     (\<exists>token. bt_get (sb_tokens S) token_id = Some token \<and> ct_plugin_id token = plugin_id \<and>
       now \<le> ct_expires_step token \<and> capability \<in> ct_capabilities token)"
  by (auto simp: validate_capability_def ok_iffs not_less)

section \<open>Properties\<close>

text \<open>
  C4: what a validated capability means. After any sequence of calls, refused ones included,
  \<open>validate_capability\<close> returns \<open>Ok\<close> exactly when a grant to this plugin stands: the plugin was
  granted the capability under this token name by a call that succeeded, no later call granted
  under the same name or revoked it, and the step is not after the sum of issue and lifetime.
\<close>

theorem capability_needs_standing_grant:
  "validate_capability (run_calls bld calls) token_id plugin_id capability now = Ok () \<longleftrightarrow>
    (\<exists>caps issued ttl seed. standing bld calls plugin_id caps issued ttl seed \<and>
      token_name plugin_id issued ttl seed = token_id \<and> capability \<in> caps \<and> now \<le> issued + ttl)"
  unfolding validate_capability_Ok_iff stored_token_iff
proof
  assume "\<exists>caps issued ttl seed. standing bld calls plugin_id caps issued ttl seed \<and>
      token_name plugin_id issued ttl seed = token_id \<and> capability \<in> caps \<and> now \<le> issued + ttl"
  then obtain caps issued ttl seed where "standing bld calls plugin_id caps issued ttl seed"
    "token_name plugin_id issued ttl seed = token_id" "capability \<in> caps" "now \<le> issued + ttl"
    by blast
  then show "\<exists>token. (\<exists>p caps issued ttl seed. standing bld calls p caps issued ttl seed \<and>
        token_name p issued ttl seed = token_id \<and> token = granted_token p caps issued ttl seed) \<and>
      ct_plugin_id token = plugin_id \<and> now \<le> ct_expires_step token \<and> capability \<in> ct_capabilities token"
    by (intro exI [of _ "granted_token plugin_id caps issued ttl seed"])
      (auto simp: granted_token_def)
qed (auto simp: granted_token_def, blast)

text \<open>
  The invariant of the runtime, in every state reached by calls: the limits in force are
  positive, tokens are filed under their own 16-digit names, belong to a plugin with a
  non-blank name and expire at another step than the one they are issued at.
\<close>

theorem sandbox_invariant:
  assumes "reachable sandbox_init (sandbox_step bld) S"
  shows "sandbox_wf S"
  using assms by (rule sandbox.reachable_inv)

text \<open>
  C35: a token's name does not depend on its capabilities. The text that is hashed determines
  plugin, step, lifetime and seed and nothing else; so after a grant that succeeded, a second
  grant with the same four arguments succeeds under the same name and replaces the first
  token, and holders of the first one have exactly the capabilities of the second from then
  on, for every plugin, capability and step asked about.
\<close>

theorem regrant_replaces_capabilities:
  assumes "fst (grant_capabilities bld S p caps now ttl seed) = Ok t"
    and "T = snd (grant_capabilities bld S p caps now ttl seed)"
  shows "(token_text p now ttl seed = token_text p' now' ttl' seed' \<longleftrightarrow>
      p = p' \<and> now = now' \<and> ttl = ttl' \<and> seed = seed') \<and>
    (\<exists>t'. fst (grant_capabilities bld T p caps' now ttl seed) = Ok t' \<and>
      ct_token_id t' = ct_token_id t) \<and>
    (validate_capability (snd (grant_capabilities bld T p caps' now ttl seed))
        (ct_token_id t) q capability step = Ok () \<longleftrightarrow>
      q = p \<and> capability \<in> caps' \<and> step \<le> now + ttl)"
proof -
  have "grant_made bld p now ttl"
    using assms grant_capabilities_Ok_iff [of bld S p caps now ttl seed] by simp
  moreover from this have "t = granted_token p caps now ttl seed"
    using assms by (simp add: grant_capabilities_eq)
  ultimately show ?thesis
    by (auto simp: token_text_inject grant_capabilities_eq validate_capability_def granted_token_def
        ok_iffs not_less)
qed

text \<open>
  C39: a lifetime that runs past the last step, for a plugin with a name. When the sum of step and lifetime does not fit
  64 bits, a debug build panics; a release build issues a token whose expiry has wrapped
  around to a step before its issue, so that it is refused as expired at once.
\<close>

theorem grant_overflow:
  assumes "\<not> trim_is_empty p" "2 ^ 64 \<le> unat now + unat ttl"
  shows "fst (grant_capabilities Debug S p caps now ttl seed) = Panic \<and>
    (\<exists>t. fst (grant_capabilities Release S p caps now ttl seed) = Ok t \<and>
      ct_expires_step t < ct_issued_step t \<and>
      validate_capability (snd (grant_capabilities Release S p caps now ttl seed))
        (ct_token_id t) p capability now = Err (SandboxDenied ''capability token is expired''))"
proof -
  have "ttl \<noteq> 0" using assms(2) unat_bound [of now] by auto
  moreover have "now + ttl < now"
    using assms(2) unat_bound [of now] unat_bound [of ttl]
    by (simp add: word_less_nat_alt unat_word_ariths le_mod_geq)
  ultimately show ?thesis
    using assms by (simp add: grant_capabilities_def add_checked_def Let_def validate_capability_def)
qed

text \<open>
  Limits and syscalls. \<open>record_usage\<close> accepts a report exactly when the sandbox is
  configured and both figures are within the limits; it then stores this report in place of
  the plugin's last one and touches nothing else, and a refused report changes nothing.
  \<open>validate_syscall\<close> allows exactly the listed calls of a configured sandbox. A configuration
  with a zero limit is refused and leaves the old one in force.
\<close>

theorem limits_enforced:
  "(is_ok (fst (record_usage S p usage)) \<longleftrightarrow>
      (\<exists>config. sb_config S = Some config \<and> ru_memory_bytes usage \<le> max_memory_bytes config \<and>
        ru_cpu_millis usage \<le> max_cpu_millis config)) \<and>
   snd (record_usage S p usage) =
     (if is_ok (fst (record_usage S p usage))
      then S\<lparr>sb_plugin_usage := bt_insert p usage (sb_plugin_usage S)\<rparr> else S) \<and>
   (is_ok (validate_syscall S syscall) \<longleftrightarrow>
      (\<exists>config. sb_config S = Some config \<and> syscall \<in> allowed_syscalls config)) \<and>
   sb_config (snd (configure S config)) =
     (if 0 < max_memory_bytes config \<and> 0 < max_cpu_millis config then Some config else sb_config S)"
  by (auto simp: record_usage_def validate_syscall_def configure_def word_gt_0 not_less
      split: option.splits)

section \<open>Applications at concrete inputs\<close>

theorem sandbox_invariant_witness:
  "sandbox_wf (run_calls Debug [Grant ''plugin-a'' {ReadTensor} 10 5 1, RevokeToken ''x''])"
  by (rule sandbox_invariant [OF run_calls_reachable])

theorem regrant_replaces_capabilities_witness:
  "\<exists>S T t. fst (grant_capabilities Debug sandbox_default ''plugin-a'' {ReadTensor} 10 5 1) = Ok t \<and>
    S = snd (grant_capabilities Debug sandbox_default ''plugin-a'' {ReadTensor} 10 5 1) \<and>
    T = snd (grant_capabilities Debug S ''plugin-a'' {Network} 10 5 1) \<and>
    validate_capability T (ct_token_id t) ''plugin-a'' Network 15 = Ok () \<and>
    validate_capability T (ct_token_id t) ''plugin-a'' ReadTensor 15 \<noteq> Ok ()"
proof -
  have "is_ok (fst (grant_capabilities Debug sandbox_default ''plugin-a'' {ReadTensor} 10 5 1))"
    by (simp add: grant_capabilities_Ok_iff grant_made_def ascii_white_def)
  then obtain t where "fst (grant_capabilities Debug sandbox_default ''plugin-a'' {ReadTensor} 10 5 1) = Ok t"
    by (auto simp: is_ok_iff)
  from this regrant_replaces_capabilities [OF this refl, where caps' = "{Network}" and step = 15]
  show ?thesis by auto
qed

theorem grant_overflow_witness:
  "fst (grant_capabilities Debug sandbox_default ''plugin-a'' {Network} 10 0xFFFFFFFFFFFFFFFF 0) = Panic"
  by (rule conjunct1 [OF grant_overflow]) (simp_all add: ascii_white_def)

end
