(* ===== verification/Memory_Safety.thy ===== *)
theory Memory_Safety
  imports Rust_Text Security_Error
begin

text \<open>
  \<open>src/memory_safety.rs\<close>: the audit of unsafe blocks and foreign-function boundaries against
  a profile. The theory models \<open>audit_memory_safety\<close> violation by violation and proves for
  which inputs it accepts. \<open>usize\<close> has 64 bits.
\<close>

section \<open>Data\<close>

datatype unsafe_block_policy = DenyUnsafe | AllowWithReview | AllowWithAudit

record memory_safety_profile =
  require_miri :: bool
  require_fuzzing :: bool
  unsafe_policy :: unsafe_block_policy
  max_unsafe_blocks :: u64
  require_ffi_layout_validation :: bool
  require_ffi_lifetime_validation :: bool

record unsafe_usage_record =
  uu_module_path :: string
  uu_line :: u32
  uu_reason :: string
  uu_reviewed :: bool

record ffi_boundary_audit =
  ffi_boundary_name :: string
  ffi_uses_unsafe :: bool
  ffi_layout_validated :: bool
  ffi_lifetime_validated :: bool
  ffi_reviewed_by :: "string option"

record memory_safety_report =
  msr_accepted :: bool
  msr_unsafe_block_count :: u64
  msr_reviewed_unsafe_block_count :: u64
  msr_violations :: "string list"

section \<open>Operations\<close>

definition unsafe_place :: "unsafe_usage_record \<Rightarrow> string" where
  "unsafe_place record = ''unsafe block at '' @ uu_module_path record @ '':'' @ display (uu_line record)"

text \<open>The \<open>match\<close> on the policy: what is held against the unsafe blocks.\<close>

definition policy_violations ::
  "memory_safety_profile \<Rightarrow> unsafe_usage_record list \<Rightarrow> string list" where
  "policy_violations profile unsafe_records =
     (case unsafe_policy profile of
        DenyUnsafe \<Rightarrow>
          (if length unsafe_records > 0 then [''unsafe blocks are denied by policy''] else [])
      | AllowWithReview \<Rightarrow>
          concat (map (\<lambda>record. if \<not> uu_reviewed record
            then [unsafe_place record @ '' lacks review''] else []) unsafe_records)
      | AllowWithAudit \<Rightarrow>
          concat (map (\<lambda>record. if trim_is_empty (uu_reason record)
            then [unsafe_place record @ '' lacks justification''] else []) unsafe_records))"

definition ffi_name :: "ffi_boundary_audit \<Rightarrow> string" where
  "ffi_name ffi = ''ffi boundary '' @ [CHR 39] @ ffi_boundary_name ffi @ [CHR 39]"

text \<open>One turn of the loop over the boundaries; \<open>unwrap_or("{}")\<close> stands for a missing reviewer.\<close>

definition ffi_violations :: "memory_safety_profile \<Rightarrow> ffi_boundary_audit \<Rightarrow> string list" where
  "ffi_violations profile ffi =
     (if ffi_uses_unsafe ffi \<and>
         trim_is_empty (case ffi_reviewed_by ffi of None \<Rightarrow> ''{}'' | Some r \<Rightarrow> r)
      then [ffi_name ffi @ '' lacks reviewer''] else []) @
     (if require_ffi_layout_validation profile \<and> ffi_uses_unsafe ffi \<and> \<not> ffi_layout_validated ffi
      then [ffi_name ffi @ '' missing layout validation''] else []) @
     (if require_ffi_lifetime_validation profile \<and> ffi_uses_unsafe ffi \<and> \<not> ffi_lifetime_validated ffi
      then [ffi_name ffi @ '' missing lifetime validation''] else [])"

definition audit_memory_safety ::
  "memory_safety_profile \<Rightarrow> unsafe_usage_record list \<Rightarrow> ffi_boundary_audit list \<Rightarrow> bool \<Rightarrow> bool \<Rightarrow>
   memory_safety_report security_result" where
  "audit_memory_safety profile unsafe_records ffi_audits miri_passed fuzzing_passed =
     (if max_unsafe_blocks profile = 0 \<and> unsafe_policy profile \<noteq> DenyUnsafe
      then Err (InvalidConfig ''max_unsafe_blocks must be positive when unsafe blocks are allowed'')
      else
        let unsafe_block_count = word_of_nat (length unsafe_records);
            reviewed_unsafe_block_count = word_of_nat (length (filter uu_reviewed unsafe_records));
            violations = sort (
              (if require_miri profile \<and> \<not> miri_passed then [''miri requirement not satisfied''] else []) @
              (if require_fuzzing profile \<and> \<not> fuzzing_passed
               then [''fuzzing requirement not satisfied''] else []) @
              (if unsafe_block_count > max_unsafe_blocks profile
               then [''unsafe block count '' @ display unsafe_block_count @ '' exceeds limit '' @
                 display (max_unsafe_blocks profile)] else []) @
              policy_violations profile unsafe_records @
              concat (map (ffi_violations profile) ffi_audits)) in
        Ok \<lparr>msr_accepted = (violations = []), msr_unsafe_block_count = unsafe_block_count,
          msr_reviewed_unsafe_block_count = reviewed_unsafe_block_count,
          msr_violations = violations\<rparr>)"

section \<open>When nothing is held against a program\<close>

definition unsafe_blocks_ok :: "memory_safety_profile \<Rightarrow> unsafe_usage_record list \<Rightarrow> bool" where
  "unsafe_blocks_ok profile records \<longleftrightarrow>
     (case unsafe_policy profile of
        DenyUnsafe \<Rightarrow> records = []
      | AllowWithReview \<Rightarrow> list_all uu_reviewed records
      | AllowWithAudit \<Rightarrow> list_all (\<lambda>r. \<not> trim_is_empty (uu_reason r)) records)"

definition ffi_ok :: "memory_safety_profile \<Rightarrow> ffi_boundary_audit \<Rightarrow> bool" where
  "ffi_ok profile ffi \<longleftrightarrow>
     (ffi_uses_unsafe ffi \<longrightarrow>
       (\<forall>r. ffi_reviewed_by ffi = Some r \<longrightarrow> \<not> trim_is_empty r) \<and>
       (require_ffi_layout_validation profile \<longrightarrow> ffi_layout_validated ffi) \<and>
       (require_ffi_lifetime_validation profile \<longrightarrow> ffi_lifetime_validated ffi))"

lemma policy_violations_Nil_iff: "policy_violations profile records = [] \<longleftrightarrow> unsafe_blocks_ok profile records"
  by (auto simp: policy_violations_def unsafe_blocks_ok_def list_all_iff
      split: unsafe_block_policy.split if_splits)

lemma ffi_violations_Nil_iff: "ffi_violations profile ffi = [] \<longleftrightarrow> ffi_ok profile ffi"
  by (auto simp: ffi_violations_def ffi_ok_def ascii_white_def split: option.splits)

lemma sort_Nil_iff: "sort xs = [] \<longleftrightarrow> xs = []"
  by (metis length_0_conv length_sort)

section \<open>Properties\<close>

text \<open>
  C28: the verdict. A profile that allows unsafe blocks under a limit of zero is refused as a
  configuration error; every other profile gets a report. The report counts the unsafe blocks
  and the reviewed ones, lists its violations in sorted order, and accepts exactly when there
  are none, which is when the required checks passed, the blocks are within the limit and
  meet the policy, and every unsafe boundary has the required validations and no blank
  reviewer.
\<close>

theorem audit_verdict:
  "if max_unsafe_blocks profile = 0 \<and> unsafe_policy profile \<noteq> DenyUnsafe
   then audit_memory_safety profile records ffis miri fuzz =
     Err (InvalidConfig ''max_unsafe_blocks must be positive when unsafe blocks are allowed'')
   else \<exists>report. audit_memory_safety profile records ffis miri fuzz = Ok report \<and>
     (msr_accepted report \<longleftrightarrow>
       (require_miri profile \<longrightarrow> miri) \<and> (require_fuzzing profile \<longrightarrow> fuzz) \<and>
       word_of_nat (length records) \<le> max_unsafe_blocks profile \<and>
       unsafe_blocks_ok profile records \<and> list_all (ffi_ok profile) ffis) \<and>
     (msr_accepted report \<longleftrightarrow> msr_violations report = []) \<and> sorted (msr_violations report) \<and>
     msr_unsafe_block_count report = word_of_nat (length records) \<and>
     msr_reviewed_unsafe_block_count report = word_of_nat (length (filter uu_reviewed records))"
  by (auto simp: audit_memory_safety_def Let_def sort_Nil_iff policy_violations_Nil_iff
      ffi_violations_Nil_iff list_all_iff not_less)

text \<open>
  A boundary nobody reviewed passes. A missing reviewer is treated by the whole audit like
  a reviewer named by a pair of braces: the placeholder of the code is not blank, so nothing
  is held against an otherwise validated unsafe boundary, whereas an empty reviewer name is
  a violation.
\<close>

theorem missing_reviewer_passes:
  "audit_memory_safety profile records (xs @ ffi\<lparr>ffi_reviewed_by := None\<rparr> # ys) miri fuzz =
     audit_memory_safety profile records (xs @ ffi\<lparr>ffi_reviewed_by := Some ''{}''\<rparr> # ys) miri fuzz \<and>
   ffi_violations profile (ffi\<lparr>ffi_uses_unsafe := True, ffi_layout_validated := True,
     ffi_lifetime_validated := True, ffi_reviewed_by := None\<rparr>) = [] \<and>
   ffi_violations profile (ffi\<lparr>ffi_uses_unsafe := True, ffi_layout_validated := True,
     ffi_lifetime_validated := True, ffi_reviewed_by := Some ''''\<rparr>) = [ffi_name ffi @ '' lacks reviewer'']"
proof -
  have "ffi_violations profile (ffi\<lparr>ffi_reviewed_by := None\<rparr>) =
      ffi_violations profile (ffi\<lparr>ffi_reviewed_by := Some ''{}''\<rparr>)"
    by (simp add: ffi_violations_def ffi_name_def)
  then show ?thesis
    by (simp add: audit_memory_safety_def) (simp add: ffi_violations_def ascii_white_def ffi_name_def)
qed

section \<open>Applications at concrete inputs\<close>

theorem audit_verdict_witness:
  "\<exists>report. audit_memory_safety \<lparr>require_miri = True, require_fuzzing = False,
      unsafe_policy = AllowWithReview, max_unsafe_blocks = 1, require_ffi_layout_validation = False,
      require_ffi_lifetime_validation = False\<rparr>
    [\<lparr>uu_module_path = ''ffi'', uu_line = 3, uu_reason = ''simd'', uu_reviewed = False\<rparr>] [] True True = Ok report \<and>
    \<not> msr_accepted report"
proof -
  let ?profile = "\<lparr>require_miri = True, require_fuzzing = False, unsafe_policy = AllowWithReview,
      max_unsafe_blocks = 1, require_ffi_layout_validation = False,
      require_ffi_lifetime_validation = False\<rparr> :: memory_safety_profile"
  let ?records = "[\<lparr>uu_module_path = ''ffi'', uu_line = 3, uu_reason = ''simd'', uu_reviewed = False\<rparr>]"
  have "\<not> unsafe_blocks_ok ?profile ?records" by (simp add: unsafe_blocks_ok_def)
  with audit_verdict [where profile = ?profile and records = ?records and ffis = "[]" and miri = True
      and fuzz = True] show ?thesis by auto
qed

end
