(* ===== verification/Compliance.thy ===== *)
theory Compliance
  imports Security_Types "HOL-Library.Multiset"
begin

text \<open>
  \<open>src/compliance.rs\<close>: the controls each regulation requires and the report of the
  compliance engine. The theory proves when a report is ready, what it lists, and how the
  regulations compare.
\<close>

section \<open>Data\<close>

datatype regulation = Gdpr | Ccpa | Cpra | Hipaa | Soc2 | Iso27001

record compliance_profile =
  cp_data_minimization :: bool
  cp_deletion_requests_supported :: bool
  cp_encryption_at_rest :: bool
  cp_access_control :: bool
  cp_audit_logging :: bool
  cp_incident_response_plan :: bool
  cp_zeroization :: bool
  cp_telemetry_pii_redaction :: bool

record compliance_artifact =
  ca_artifact_id :: string
  ca_generated_day :: u32
  ca_control :: string
  ca_evidence_hash :: string

record compliance_report =
  rp_regulation :: regulation
  rp_ready :: bool
  rp_missing_controls :: "string list"
  rp_artifacts :: "compliance_artifact list"

record compliance_engine =
  ce_profile :: compliance_profile

section \<open>Operations\<close>

definition compliance_engine_new :: "compliance_profile \<Rightarrow> compliance_engine" where
  "compliance_engine_new profile = \<lparr>ce_profile = profile\<rparr>"

fun required_controls :: "regulation \<Rightarrow> string list" where
  "required_controls Gdpr =
     [''data_minimization'', ''deletion_requests'', ''access_control'', ''audit_logging'',
      ''telemetry_redaction'']"
| "required_controls Ccpa =
     [''data_minimization'', ''deletion_requests'', ''access_control'', ''audit_logging'']"
| "required_controls Cpra =
     [''data_minimization'', ''deletion_requests'', ''access_control'', ''audit_logging'']"
| "required_controls Hipaa =
     [''encryption_at_rest'', ''access_control'', ''audit_logging'', ''incident_response'',
      ''zeroization'']"
| "required_controls Soc2 =
     [''encryption_at_rest'', ''access_control'', ''audit_logging'', ''incident_response'',
      ''data_minimization'']"
| "required_controls Iso27001 =
     [''encryption_at_rest'', ''access_control'', ''audit_logging'', ''incident_response'',
      ''data_minimization'']"

definition all_controls :: "string list" where
  "all_controls =
     [''data_minimization'', ''deletion_requests'', ''encryption_at_rest'', ''access_control'',
      ''audit_logging'', ''incident_response'', ''zeroization'', ''telemetry_redaction'']"

definition control_enabled :: "compliance_engine \<Rightarrow> string \<Rightarrow> bool" where
  "control_enabled E control =
     (if control = ''data_minimization'' then cp_data_minimization (ce_profile E)
      else if control = ''deletion_requests'' then cp_deletion_requests_supported (ce_profile E)
      else if control = ''encryption_at_rest'' then cp_encryption_at_rest (ce_profile E)
      else if control = ''access_control'' then cp_access_control (ce_profile E)
      else if control = ''audit_logging'' then cp_audit_logging (ce_profile E)
      else if control = ''incident_response'' then cp_incident_response_plan (ce_profile E)
      else if control = ''zeroization'' then cp_zeroization (ce_profile E)
      else if control = ''telemetry_redaction'' then cp_telemetry_pii_redaction (ce_profile E)
      else False)"

definition generate_artifact :: "string \<Rightarrow> u32 \<Rightarrow> bool \<Rightarrow> compliance_artifact" where
  "generate_artifact control day enabled =
     \<lparr>ca_artifact_id = control @ ''-'' @ display day, ca_generated_day = day, ca_control = control,
      ca_evidence_hash = fnv64_hex (as_bytes (control @ ''|'' @ display day @ ''|'' @ display_bool enabled))\<rparr>"

text \<open>The loop of \<open>evaluate\<close>, which fills both lists.\<close>

fun evaluate_loop ::
  "compliance_engine \<Rightarrow> u32 \<Rightarrow> string list \<Rightarrow> string list \<Rightarrow> compliance_artifact list \<Rightarrow>
   string list \<times> compliance_artifact list" where
  "evaluate_loop E day [] missing artifacts = (missing, artifacts)"
| "evaluate_loop E day (control # controls) missing artifacts =
     (let enabled = control_enabled E control in
      evaluate_loop E day controls (if \<not> enabled then missing @ [control] else missing)
        (artifacts @ [generate_artifact control day enabled]))"

definition evaluate :: "compliance_engine \<Rightarrow> regulation \<Rightarrow> u32 \<Rightarrow> compliance_report" where
  "evaluate E regulation day =
     (case evaluate_loop E day (required_controls regulation) [] [] of (missing, artifacts) \<Rightarrow>
        let missing = sort missing; artifacts = sort_key ca_control artifacts in
        \<lparr>rp_regulation = regulation, rp_ready = (missing = []), rp_missing_controls = missing,
         rp_artifacts = artifacts\<rparr>)"

definition enabled_controls :: "compliance_engine \<Rightarrow> string set" where
  "enabled_controls E = set (filter (control_enabled E) all_controls)"

section \<open>The report in closed form\<close>

lemma evaluate_loop_eq:
  "evaluate_loop E day controls missing artifacts =
     (missing @ filter (\<lambda>c. \<not> control_enabled E c) controls,
      artifacts @ map (\<lambda>c. generate_artifact c day (control_enabled E c)) controls)"
  by (induction controls arbitrary: missing artifacts) (auto simp: Let_def)

lemma evaluate_eq:
  "evaluate E regulation day =
     \<lparr>rp_regulation = regulation,
      rp_ready = (filter (\<lambda>c. \<not> control_enabled E c) (required_controls regulation) = []),
      rp_missing_controls = sort (filter (\<lambda>c. \<not> control_enabled E c) (required_controls regulation)),
      rp_artifacts = sort_key ca_control
        (map (\<lambda>c. generate_artifact c day (control_enabled E c)) (required_controls regulation))\<rparr>"
proof -
  have "sort xs = [] \<longleftrightarrow> xs = []" for xs :: "string list" by (metis length_0_conv length_sort)
  then show ?thesis by (simp add: evaluate_def evaluate_loop_eq)
qed

lemma distinct_required: "distinct (required_controls regulation)"
  by (cases regulation) simp_all

lemma required_subset_all: "set (required_controls regulation) \<subseteq> set all_controls"
  by (cases regulation) (simp_all add: all_controls_def)

lemma mem_enabled_controls: "c \<in> set all_controls \<Longrightarrow> c \<in> enabled_controls E \<longleftrightarrow> control_enabled E c"
  by (simp add: enabled_controls_def)

lemma map_control_sort_key:
  "map ca_control (sort_key ca_control xs) = sort (map ca_control xs)"
proof (rule properties_for_sort [symmetric])
  show "mset (map ca_control (sort_key ca_control xs)) = mset (map ca_control xs)"
    by (metis mset_map mset_sort)
  show "sorted (map ca_control (sort_key ca_control xs))" by simp
qed

section \<open>Properties\<close>

text \<open>
  C31: a report is ready exactly when every control the regulation requires is among the
  enabled ones; it lists the required controls that are not, in sorted order and once each,
  and has one artifact of the day for every required control, ordered by control.
\<close>

theorem report_ready:
  "(rp_ready (evaluate E regulation day) \<longleftrightarrow> set (required_controls regulation) \<subseteq> enabled_controls E) \<and>
   set (rp_missing_controls (evaluate E regulation day)) =
     set (required_controls regulation) - enabled_controls E \<and>
   sorted_wrt (<) (rp_missing_controls (evaluate E regulation day)) \<and>
   map ca_control (rp_artifacts (evaluate E regulation day)) = sort (required_controls regulation)"
proof (intro conjI)
  have enabled: "c \<in> enabled_controls E \<longleftrightarrow> control_enabled E c" if "c \<in> set (required_controls regulation)" for c
    using that required_subset_all mem_enabled_controls by blast
  show "rp_ready (evaluate E regulation day) \<longleftrightarrow> set (required_controls regulation) \<subseteq> enabled_controls E"
    using enabled by (auto simp: evaluate_eq filter_empty_conv)
  show "set (rp_missing_controls (evaluate E regulation day)) =
      set (required_controls regulation) - enabled_controls E"
    using enabled by (auto simp: evaluate_eq)
  show "sorted_wrt (<) (rp_missing_controls (evaluate E regulation day))"
    using distinct_required [of regulation] by (simp add: evaluate_eq strict_sorted_iff)
  have "map ca_control (map (\<lambda>c. generate_artifact c day (control_enabled E c)) controls) = controls"
    for controls
    by (induction controls) (simp_all add: generate_artifact_def)
  then show "map ca_control (rp_artifacts (evaluate E regulation day)) = sort (required_controls regulation)"
    by (simp add: evaluate_eq map_control_sort_key)
qed

text \<open>
  How the regulations compare. A profile that is ready for GDPR is ready for CCPA, and
  CPRA and ISO 27001 are judged as CCPA and SOC 2 are; encryption at rest and zeroization are
  no part of the verdict on GDPR.
\<close>

theorem regulations_compare:
  "(rp_ready (evaluate E Gdpr day) \<longrightarrow> rp_ready (evaluate E Ccpa day)) \<and>
   rp_ready (evaluate E Cpra day) = rp_ready (evaluate E Ccpa day) \<and>
   rp_ready (evaluate E Iso27001 day) = rp_ready (evaluate E Soc2 day) \<and>
   rp_ready (evaluate (E\<lparr>ce_profile := ce_profile E\<lparr>cp_encryption_at_rest := e, cp_zeroization := z\<rparr>\<rparr>) Gdpr day) =
     rp_ready (evaluate E Gdpr day)"
  by (simp add: evaluate_eq control_enabled_def)

end
