(* ===== verification/Hardening.thy ===== *)
theory Hardening
  imports Rust_Text "HOL-Library.Multiset"
begin

text \<open>
  \<open>src/hardening.rs\<close>: the deployment checklist, its report and the default incident response
  plan. \<open>usize\<close> has 64 bits; the single-precision arithmetic of the coverage figure is a
  parameter, as the library has no such numbers. The theory proves what marking items does
  to the report and which items keep it critical.
\<close>

section \<open>Data\<close>

datatype threat =
    SupplyChainAttack | ParameterTheft | SideChannel | PrivilegeEscalation | Ddos | InsiderThreat

record checklist_item =
  ci_id :: string
  ci_threat :: threat
  ci_description :: string
  ci_mitigation :: string
  ci_severity :: u8
  ci_completed :: bool

record hardening_checklist =
  hc_items :: "checklist_item list"

record 'f hardening_report =
  hr_total_items :: u64
  hr_completed_items :: u64
  hr_coverage_percent :: 'f
  hr_missing_critical :: "string list"

record incident_response_plan =
  ir_detection :: "string list"
  ir_containment :: "string list"
  ir_eradication :: "string list"
  ir_recovery :: "string list"
  ir_lessons_learned :: "string list"

text \<open>The operations of \<open>f32\<close> that \<open>report\<close> uses.\<close>

record 'f single_precision =
  f32_hundred :: 'f
  f32_of_usize :: "u64 \<Rightarrow> 'f"
  f32_mul :: "'f \<Rightarrow> 'f \<Rightarrow> 'f"
  f32_div :: "'f \<Rightarrow> 'f \<Rightarrow> 'f"

section \<open>Operations\<close>

definition open_item :: "string \<Rightarrow> threat \<Rightarrow> string \<Rightarrow> string \<Rightarrow> u8 \<Rightarrow> checklist_item" where
  "open_item name threat description mitigation severity =
     \<lparr>ci_id = name, ci_threat = threat, ci_description = description, ci_mitigation = mitigation,
      ci_severity = severity, ci_completed = False\<rparr>"

definition default_items :: hardening_checklist where
  "default_items = \<lparr>hc_items =
     [open_item ''HC-001'' SupplyChainAttack ''Verify model manifests and shard hashes''
        ''SPEC-052 integrity verification enabled'' 5,
      open_item ''HC-002'' ParameterTheft ''Encrypt persistent tiers and protect keys''
        ''SPEC-053 + SPEC-057 controls'' 5,
      open_item ''HC-003'' PrivilegeEscalation ''Enforce RBAC and tier authorization''
        ''SPEC-055 access checks'' 4,
      open_item ''HC-004'' SideChannel ''Minimize cross-tenant timing leakage''
        ''tenant quotas and sandbox isolation'' 4,
      open_item ''HC-005'' Ddos ''Apply request rate limiting and quotas''
        ''multi-tenant quota enforcement'' 3,
      open_item ''HC-006'' InsiderThreat ''Enable tamper-evident deterministic audit logs''
        ''SPEC-056 audit chain'' 4]\<rparr>"

text \<open>The loop of \<open>mark_completed\<close>, which stops at the first item of the id.\<close>

fun mark_first :: "string \<Rightarrow> checklist_item list \<Rightarrow> bool \<times> checklist_item list" where
  "mark_first name [] = (False, [])"
| "mark_first name (item # items) =
     (if ci_id item = name then (True, item\<lparr>ci_completed := True\<rparr> # items)
      else case mark_first name items of (found, items') \<Rightarrow> (found, item # items'))"

definition mark_completed :: "hardening_checklist \<Rightarrow> string \<Rightarrow> bool \<times> hardening_checklist" where
  "mark_completed C name =
     (case mark_first name (hc_items C) of (found, items) \<Rightarrow> (found, C\<lparr>hc_items := items\<rparr>))"

definition report :: "'f single_precision \<Rightarrow> hardening_checklist \<Rightarrow> 'f hardening_report" where
  "report F C =
     (let total = word_of_nat (length (hc_items C));
          completed = word_of_nat (length (filter ci_completed (hc_items C)));
          coverage = (if total = 0 then f32_hundred F
            else f32_div F (f32_mul F (f32_of_usize F completed) (f32_hundred F)) (f32_of_usize F total));
          missing_critical = sort (map ci_id
            (filter (\<lambda>item. ci_severity item \<ge> 4)
              (filter (\<lambda>item. \<not> ci_completed item) (hc_items C)))) in
      \<lparr>hr_total_items = total, hr_completed_items = completed, hr_coverage_percent = coverage,
       hr_missing_critical = missing_critical\<rparr>)"

definition default_incident_response_plan :: incident_response_plan where
  "default_incident_response_plan =
     \<lparr>ir_detection = [''alert on integrity verification failures'',
        ''alert on repeated authorization denials''],
      ir_containment = [''isolate compromised nodes'', ''revoke affected keys''],
      ir_eradication = [''remove untrusted artifacts'', ''patch vulnerable components''],
      ir_recovery = [''restore from verified checkpoints'',
        ''re-enable services with rotated credentials''],
      ir_lessons_learned = [''update threat model'', ''expand regression and security tests'']\<rparr>"

section \<open>Marking items\<close>

lemma mark_first_found: "fst (mark_first name items) \<longleftrightarrow> name \<in> ci_id ` set items"
  by (induction items) (auto split: prod.split simp: image_iff)

lemma mark_first_ids: "map ci_id (snd (mark_first name items)) = map ci_id items"
  by (induction items) (auto split: prod.splits)

text \<open>Where ids are not repeated, exactly the item of the id is changed.\<close>

definition marked :: "string set \<Rightarrow> checklist_item \<Rightarrow> checklist_item" where
  "marked names item = (if ci_id item \<in> names then item\<lparr>ci_completed := True\<rparr> else item)"

lemma marked_simps [simp]:
  "ci_id (marked names item) = ci_id item" "ci_severity (marked names item) = ci_severity item"
  "ci_completed (marked names item) \<longleftrightarrow> ci_completed item \<or> ci_id item \<in> names"
  by (auto simp: marked_def)

lemma marked_absent: "ci_id item \<notin> names \<Longrightarrow> marked names item = item"
  by (simp add: marked_def)

lemma mark_first_marked:
  "distinct (map ci_id items) \<Longrightarrow> snd (mark_first name items) = map (marked {name}) items"
proof (induction items)
  case (Cons item items)
  show ?case
  proof (cases "ci_id item = name")
    case True
    with Cons.prems have "map (marked {name}) items = items"
      by (intro map_idI marked_absent) (auto simp: image_iff)
    with True show ?thesis by (simp add: marked_def [of _ item])
  next
    case False
    with Cons show ?thesis by (cases "mark_first name items") (simp add: marked_absent)
  qed
qed simp

definition mark_all :: "hardening_checklist \<Rightarrow> string list \<Rightarrow> hardening_checklist" where
  "mark_all C names = fold (\<lambda>name C. snd (mark_completed C name)) names C"

lemma hc_items_mark_completed: "hc_items (snd (mark_completed C name)) = snd (mark_first name (hc_items C))"
  by (simp add: mark_completed_def split: prod.split)

lemma hc_items_mark_all:
  "distinct (map ci_id (hc_items C)) \<Longrightarrow> hc_items (mark_all C names) = map (marked (set names)) (hc_items C)"
proof (induction names arbitrary: C)
  case Nil
  then show ?case by (simp add: mark_all_def marked_def)
next
  case (Cons name names)
  let ?C = "snd (mark_completed C name)"
  have "distinct (map ci_id (hc_items ?C))"
    using Cons.prems by (simp add: hc_items_mark_completed mark_first_ids)
  then have "hc_items (mark_all ?C names) = map (marked (set names)) (hc_items ?C)"
    by (rule Cons.IH)
  also have "\<dots> = map (marked (set (name # names))) (hc_items C)"
    using Cons.prems by (auto simp: hc_items_mark_completed mark_first_marked marked_def)
  finally show ?case by (simp add: mark_all_def)
qed

lemma report_simps:
  "hr_total_items (report F C) = word_of_nat (length (hc_items C))"
  "hr_completed_items (report F C) = word_of_nat (length (filter ci_completed (hc_items C)))"
  "hr_missing_critical (report F C) =
     sort (map ci_id (filter (\<lambda>item. \<not> ci_completed item \<and> 4 \<le> ci_severity item) (hc_items C)))"
  by (simp_all add: report_def Let_def)

section \<open>Properties\<close>

text \<open>
  C30: marking items of a checklist without repeated ids. The report then lists, in sorted
  order, exactly the critical items that were neither completed before nor marked, whatever
  the order of the marks and however often an id occurs or is unknown; the count of
  completed items is the number of the items that were completed or marked, and the call
  says whether the id exists.
\<close>

theorem marked_items_leave_the_report:
  assumes "distinct (map ci_id (hc_items C))"
  shows "hr_missing_critical (report F (mark_all C names)) =
      sort (map ci_id (filter (\<lambda>item. \<not> ci_completed item \<and> ci_id item \<notin> set names \<and> 4 \<le> ci_severity item)
        (hc_items C))) \<and>
    hr_completed_items (report F (mark_all C names)) =
      word_of_nat (card {item \<in> set (hc_items C). ci_completed item \<or> ci_id item \<in> set names}) \<and>
    hr_total_items (report F (mark_all C names)) = hr_total_items (report F C) \<and>
    (fst (mark_completed C name) \<longleftrightarrow> name \<in> ci_id ` set (hc_items C))"
proof (intro conjI)
  note items = hc_items_mark_all [OF assms, of names]
  show "hr_missing_critical (report F (mark_all C names)) =
      sort (map ci_id (filter (\<lambda>item. \<not> ci_completed item \<and> ci_id item \<notin> set names \<and> 4 \<le> ci_severity item)
        (hc_items C)))"
    by (simp add: report_simps items filter_map o_def)
  have "distinct (hc_items C)" using assms by (simp add: distinct_map)
  then have "length (filter (\<lambda>item. ci_completed item \<or> ci_id item \<in> set names) (hc_items C)) =
      card {item \<in> set (hc_items C). ci_completed item \<or> ci_id item \<in> set names}"
    by (simp flip: distinct_card)
  then show "hr_completed_items (report F (mark_all C names)) =
      word_of_nat (card {item \<in> set (hc_items C). ci_completed item \<or> ci_id item \<in> set names})"
    by (simp add: report_simps items filter_map o_def)
  show "hr_total_items (report F (mark_all C names)) = hr_total_items (report F C)"
    by (simp add: report_simps items)
  show "fst (mark_completed C name) \<longleftrightarrow> name \<in> ci_id ` set (hc_items C)"
    by (simp add: mark_completed_def mark_first_found split: prod.split)
      (metis fst_conv mark_first_found)
qed

section \<open>Applications at concrete inputs\<close>

text \<open>Whole percents stand in for \<open>f32\<close>.\<close>

definition whole_percents :: "nat single_precision" where
  "whole_percents = \<lparr>f32_hundred = 100, f32_of_usize = unat, f32_mul = (*), f32_div = (div)\<rparr>"

theorem marked_items_leave_the_report_witness:
  "hr_missing_critical (report whole_percents (mark_all default_items [''HC-006'', ''HC-001'', ''HC-009''])) =
     [''HC-002'', ''HC-003'', ''HC-004'']"
proof -
  have "distinct (map ci_id (hc_items default_items))" by (simp add: default_items_def open_item_def)
  from conjunct1 [OF marked_items_leave_the_report [OF this, of whole_percents "[''HC-006'', ''HC-001'', ''HC-009'']"]]
  show ?thesis by (simp only:) (simp add: default_items_def open_item_def less_eq_char_def)
qed

end
