(* ===== verification/Zeroization.thy ===== *)
theory Zeroization
  imports Byte_Order Rust_Text Security_Error
begin

text \<open>
  \<open>src/zeroization.rs\<close>: clearing of key and cache buffers at the end of a session. The method
  \<open>zeroize\<close> of the crate of that name on a byte slice is a parameter. An \<open>f32\<close> is its 32-bit
  pattern; \<open>secure_zeroize_f32\<close> views a slice of them as bytes, least significant first.
\<close>

section \<open>Data\<close>

record zeroization_policy =
  zeroize_keys_after_use :: bool
  zeroize_cache_on_evict :: bool
  zeroize_session_on_end :: bool

record zeroization_event =
  ze_resource_id :: string
  ze_bytes_zeroized :: u64
  ze_reason :: string

record zeroization_tracker =
  zt_events :: "zeroization_event list"

record sensitive_bytes =
  sb_bytes :: "u8 list"

text \<open>The documented effect of \<open>zeroize\<close> on a slice: every byte becomes zero.\<close>

definition zeroize_law :: "(u8 list \<Rightarrow> u8 list) \<Rightarrow> bool" where
  "zeroize_law Z \<longleftrightarrow> (\<forall>bs. Z bs = replicate (length bs) 0)"

section \<open>Operations\<close>

definition sensitive_bytes_new :: "u8 list \<Rightarrow> sensitive_bytes" where
  "sensitive_bytes_new bytes = \<lparr>sb_bytes = bytes\<rparr>"

definition sensitive_bytes_zeroize :: "sensitive_bytes \<Rightarrow> sensitive_bytes" where
  "sensitive_bytes_zeroize S = S\<lparr>sb_bytes := []\<rparr>"

definition secure_zeroize_bytes :: "(u8 list \<Rightarrow> u8 list) \<Rightarrow> u8 list \<Rightarrow> u8 list" where
  "secure_zeroize_bytes Z bytes = Z bytes"

text \<open>\<open>from_raw_parts_mut(values.as_mut_ptr() as *mut u8, values.len() * 4)\<close> and back.\<close>

definition f32_memory :: "u32 list \<Rightarrow> u8 list" where
  "f32_memory values = concat (map (\<lambda>v. rev (be_bytes 4 (unat v))) values)"

fun f32_values :: "u8 list \<Rightarrow> u32 list" where
  "f32_values (a # b # c # d # bs) = word_of_nat (be_number [d, c, b, a]) # f32_values bs"
| "f32_values bs = []"

definition secure_zeroize_f32 :: "(u8 list \<Rightarrow> u8 list) \<Rightarrow> u32 list \<Rightarrow> u32 list" where
  "secure_zeroize_f32 Z values = f32_values (Z (f32_memory values))"

definition zeroize_session_buffers ::
  "(u8 list \<Rightarrow> u8 list) \<Rightarrow> zeroization_tracker \<Rightarrow> string \<Rightarrow> u8 list \<Rightarrow> u32 list \<Rightarrow> zeroization_policy \<Rightarrow>
   unit security_result \<times> zeroization_tracker \<times> u8 list \<times> u32 list" where
  "zeroize_session_buffers Z tracker session_id key_buffer kv_buffer policy =
     (if trim_is_empty session_id
      then (Err (InvalidInput ''session_id must not be empty''), tracker, key_buffer, kv_buffer)
      else
        let (tracker, key_buffer) =
          (if zeroize_keys_after_use policy
           then (tracker\<lparr>zt_events := zt_events tracker @
                   [\<lparr>ze_resource_id = ''session:'' @ session_id @ '':keys'',
                     ze_bytes_zeroized = word_of_nat (length key_buffer),
                     ze_reason = ''key-use-complete''\<rparr>]\<rparr>,
                 secure_zeroize_bytes Z key_buffer)
           else (tracker, key_buffer));
          (tracker, kv_buffer) =
          (if zeroize_cache_on_evict policy \<or> zeroize_session_on_end policy
           then (tracker\<lparr>zt_events := zt_events tracker @
                   [\<lparr>ze_resource_id = ''session:'' @ session_id @ '':kv'',
                     ze_bytes_zeroized = word_of_nat (4 * length kv_buffer),
                     ze_reason = ''session-end-or-evict''\<rparr>]\<rparr>,
                 secure_zeroize_f32 Z kv_buffer)
           else (tracker, kv_buffer)) in
        (Ok (), tracker, key_buffer, kv_buffer))"

section \<open>Facts about buffers\<close>

lemma length_f32_memory [simp]: "length (f32_memory vs) = 4 * length vs"
  by (induction vs) (simp_all add: f32_memory_def)

lemma four_bytes: "length bs = 4 \<Longrightarrow> \<exists>a b c d. bs = [d, c, b, a]"
  by (auto simp: numeral_eq_Suc length_Suc_conv)

lemma f32_values_memory: "f32_values (f32_memory vs) = vs"
proof (induction vs)
  case (Cons v vs)
  obtain a b c d where abcd: "be_bytes 4 (unat v) = [d, c, b, a]"
    using four_bytes [OF length_be_bytes] by blast
  have "be_number [d, c, b, a] = unat v"
    using be_number_be_bytes [of 4 "unat v"] unat_bound [of v] by (simp add: abcd)
  with abcd Cons show ?case by (simp add: f32_memory_def)
qed (simp add: f32_memory_def)

lemma f32_values_zero: "f32_values (replicate (4 * n) 0) = replicate n 0"
proof (induction n)
  case (Suc n)
  have "replicate (4 * Suc n) 0 = 0 # 0 # 0 # 0 # (replicate (4 * n) 0 :: u8 list)"
    by (simp add: numeral_eq_Suc)
  with Suc show ?case by (simp add: be_number_def)
qed simp

lemma zeroized_f32: "zeroize_law Z \<Longrightarrow> secure_zeroize_f32 Z vs = replicate (length vs) 0"
  by (simp add: secure_zeroize_f32_def zeroize_law_def f32_values_zero)

section \<open>Properties\<close>

text \<open>
  C29: what the end of a session clears. For a session with a name, the key buffer is all zero
  when the policy asks for it, the cache is all positive zero when either of its two flags is
  set, and a buffer whose flags are off keeps its contents; each clearing, and nothing else,
  adds one event, keys before cache, with the session's name, the number of bytes and the
  reason. Without a name nothing happens.
\<close>

theorem session_buffers_cleared:
  assumes "zeroize_law Z" "zeroize_session_buffers Z T session keys kv policy = (res, T', keys', kv')"
  shows "(res = Ok () \<longleftrightarrow> \<not> trim_is_empty session) \<and>
    (res = Ok () \<longrightarrow>
      keys' = (if zeroize_keys_after_use policy then replicate (length keys) 0 else keys) \<and>
      kv' = (if zeroize_cache_on_evict policy \<or> zeroize_session_on_end policy
        then replicate (length kv) 0 else kv) \<and>
      zt_events T' = zt_events T @
        (if zeroize_keys_after_use policy
         then [\<lparr>ze_resource_id = ''session:'' @ session @ '':keys'',
           ze_bytes_zeroized = word_of_nat (length keys), ze_reason = ''key-use-complete''\<rparr>] else []) @
        (if zeroize_cache_on_evict policy \<or> zeroize_session_on_end policy
         then [\<lparr>ze_resource_id = ''session:'' @ session @ '':kv'',
           ze_bytes_zeroized = word_of_nat (4 * length kv), ze_reason = ''session-end-or-evict''\<rparr>] else [])) \<and>
    (res \<noteq> Ok () \<longrightarrow> T' = T \<and> keys' = keys \<and> kv' = kv)"
  using assms(2) zeroized_f32 [OF assms(1), of kv] assms(1)
  by (auto simp: zeroize_session_buffers_def secure_zeroize_bytes_def zeroize_law_def split: if_splits)

section \<open>Applications at concrete inputs\<close>

theorem session_buffers_cleared_witness:
  "fst (snd (snd (zeroize_session_buffers (\<lambda>bs. replicate (length bs) 0) \<lparr>zt_events = []\<rparr> ''s1'' [1, 2, 3]
     [0x3F800000] \<lparr>zeroize_keys_after_use = True, zeroize_cache_on_evict = False,
       zeroize_session_on_end = True\<rparr>))) = [0, 0, 0]"
proof -
  obtain res T' keys' kv' where run: "zeroize_session_buffers (\<lambda>bs. replicate (length bs) 0)
      \<lparr>zt_events = []\<rparr> ''s1'' [1, 2, 3] [0x3F800000] \<lparr>zeroize_keys_after_use = True,
        zeroize_cache_on_evict = False, zeroize_session_on_end = True\<rparr> = (res, T', keys', kv')"
    by (metis prod_cases4)
  have "zeroize_law (\<lambda>bs. replicate (length bs) 0)" by (simp add: zeroize_law_def)
  from session_buffers_cleared [OF this run] run show ?thesis
    by (simp add: ascii_white_def numeral_eq_Suc)
qed

end
