(* ===== verification/Tests_State.thy ===== *)
theory Tests_State
  imports Key_Management Audit_Log Sandbox Access_Control
begin

text \<open>
  The unit tests of \<open>key_management.rs\<close>, \<open>audit.rs\<close>, \<open>sandbox.rs\<close> and \<open>access_control.rs\<close>,
  translated with their fixtures and proved to pass in both build profiles, whatever the
  digest function is, except that the tampering test needs that its two texts do not collide. A test is the outcome of its calls followed by its assertions; \<open>expect\<close>
  is \<open>and_then\<close>, so a refused call makes the test fail. The tests that only run a function
  twice and compare are left out: a function of the model gives one result.
\<close>

definition passes :: "('e, bool) outcome \<Rightarrow> bool" where
  "passes run \<longleftrightarrow> run = Ok True"

lemma passes_Ok [simp]: "passes (Ok asserted) = asserted"
  by (simp add: passes_def)

section \<open>Key management\<close>

definition test_manager :: "key_manager security_result" where
  "test_manager =
     and_then (key_manager_new \<lparr>rotate_every_days = 30, overlap_days = 7\<rparr>) (\<lambda>M.
       Ok (add_access_policy M
         \<lparr>kp_identity = ''loader'', allowed_key_ids = {''model-key''}, allowed_kinds = {Encryption}\<rparr>))"

definition retrieval_requires_authorization :: "crypto \<Rightarrow> build \<Rightarrow> bool" where
  "retrieval_requires_authorization C bld \<longleftrightarrow> passes (
     and_then test_manager (\<lambda>M.
       case generate_key C bld M ''model-key'' Encryption 1 0 42 of (res, M) \<Rightarrow>
       and_then res (\<lambda>key.
         Ok (is_ok (retrieve_key bld M ''loader'' key 1) \<and> is_err (retrieve_key bld M ''intruder'' key 1)))))"

definition rotation_creates_new_version :: "crypto \<Rightarrow> build \<Rightarrow> bool" where
  "rotation_creates_new_version C bld \<longleftrightarrow> passes (
     and_then test_manager (\<lambda>M.
       case generate_key C bld M ''model-key'' Encryption 1 0 42 of (res, M) \<Rightarrow>
       and_then res (\<lambda>_.
         and_then (fst (rotate_key C bld M ''model-key'' 30 99)) (\<lambda>rotated. Ok (kr_version rotated = 2)))))"

definition revoked_keys_are_rejected :: "crypto \<Rightarrow> build \<Rightarrow> bool" where
  "revoked_keys_are_rejected C bld \<longleftrightarrow> passes (
     and_then test_manager (\<lambda>M.
       case generate_key C bld M ''model-key'' Encryption 1 0 42 of (res, M) \<Rightarrow>
       and_then res (\<lambda>key.
         case revoke_key M ''model-key'' 1 of (revoked, M) \<Rightarrow>
         and_then revoked (\<lambda>_. Ok (is_err (retrieve_key bld M ''loader'' key 1))))))"

lemma test_manager_Ok: "test_manager = Ok policy_manager"
  by (simp add: test_manager_def key_manager_new_def rotation_policy_is_valid_def policy_manager_def
      loader_policy_def)

lemma key_management_tests:
  "retrieval_requires_authorization C bld" "rotation_creates_new_version C bld"
  "revoked_keys_are_rejected C bld"
proof -
  let ?M = "one_key_manager C bld Encryption"
  let ?r = "\<lparr>kr_key_id = ''model-key'', kr_version = 1, kr_kind = Encryption\<rparr>"
  note start = test_manager_Ok generate_model_key
  have bucket: "bt_get (km_keys ?M) ''model-key'' = Some [model_key C Encryption]"
    by (rule one_key_manager_bucket)
  have "is_ok (retrieve_key bld ?M ''loader'' ?r 1)"
    by (simp add: retrieve_key_def loader_authorized bucket model_key_def)
  moreover have "bt_get (km_policies ?M) ''intruder'' = None"
    using generate_key_stored(3) [OF generate_model_key]
    by (simp add: policy_manager_def add_access_policy_def loader_policy_def)
  then have "is_err (retrieve_key bld ?M ''intruder'' ?r 1)"
    by (simp add: retrieve_key_def authorize_key_def)
  ultimately show "retrieval_requires_authorization C bld"
    by (simp add: retrieval_requires_authorization_def start)
  show "rotation_creates_new_version C bld"
    by (simp add: rotation_creates_new_version_def start rotate_model_key)
  have "revoke_key ?M ''model-key'' 1 =
      (Ok (), ?M\<lparr>km_keys := bt_insert ''model-key'' [(model_key C Encryption)\<lparr>mk_revoked := True\<rparr>] (km_keys ?M)\<rparr>)"
    by (simp add: revoke_key_def bucket model_key_def)
  moreover have "authorize_key (?M\<lparr>km_keys := ks\<rparr>) ''loader'' ?r = Ok ()" for ks
    using loader_authorized [of C bld] by (simp add: authorize_key_def)
  ultimately show "revoked_keys_are_rejected C bld"
    by (simp add: revoked_keys_are_rejected_def start retrieve_key_def model_key_def)
qed

section \<open>Audit log\<close>

definition test_event :: "u64 \<Rightarrow> string \<Rightarrow> audit_event" where
  "test_event sequence action =
     \<lparr>ev_sequence = sequence, ev_timestamp_ms = 1000 + sequence, ev_category = Security,
      ev_actor = ''runtime'', ev_action = action, ev_payload = ''ok''\<rparr>"

text \<open>The log two of the tests start from.\<close>

definition test_log :: "crypto \<Rightarrow> audit_log security_result" where
  "test_log C =
     (case audit_append C (audit_log_new ''n1'' ''signer'' ''secret'') (test_event 0 ''load'') of (res, L) \<Rightarrow>
      and_then res (\<lambda>_.
        case audit_append C L (test_event 1 ''auth'') of (res, L) \<Rightarrow> and_then res (\<lambda>_. Ok L)))"

definition append_and_verify_chain_succeeds :: "crypto \<Rightarrow> bool" where
  "append_and_verify_chain_succeeds C \<longleftrightarrow>
     passes (and_then (test_log C) (\<lambda>L. Ok (is_ok (verify_chain C L))))"

text \<open>\<open>log.records[1].event.payload = "tampered".to_owned()\<close>\<close>

definition tamper_is_detected :: "crypto \<Rightarrow> bool" where
  "tamper_is_detected C \<longleftrightarrow> passes (and_then (test_log C) (\<lambda>L.
     let r = al_records L ! 1;
         L = L\<lparr>al_records := (al_records L)[1 := r\<lparr>ar_event := ar_event r\<lparr>ev_payload := ''tampered''\<rparr>\<rparr>]\<rparr> in
     Ok (is_err (verify_chain C L))))"

text \<open>The two texts the second test hashes for its altered record, before and after.\<close>

definition tamper_texts :: "string list" where
  "tamper_texts =
     [canonical_event_payload (test_event 1 ''auth'') ''n1'',
      canonical_event_payload ((test_event 1 ''auth'')\<lparr>ev_payload := ''tampered''\<rparr>) ''n1'']"

lemma test_log_Ok:
  "test_log C = Ok \<lparr>al_node_id = ''n1'', al_signer_id = ''signer'', al_signing_secret = ''secret'',
     al_records = chain C (audit_log_new ''n1'' ''signer'' ''secret'') sha256_of_nothing
       [test_event 0 ''load'', test_event 1 ''auth'']\<rparr>"
  by (simp add: test_log_def audit_append_eq audit_log_new_def test_event_def root_hash_tip sealed_def Let_def)

lemma audit_tests:
  assumes "crypto_laws C"
  shows "append_and_verify_chain_succeeds C"
    and "\<not> sha256_collision C (map as_bytes tamper_texts) \<Longrightarrow> tamper_is_detected C"
proof -
  show "append_and_verify_chain_succeeds C"
    by (simp add: append_and_verify_chain_succeeds_def test_log_Ok verify_chain_def
        verify_from_Cons same_text_iff [OF assms] event_hash_of_def audit_log_new_def sealed_def Let_def)
      (simp add: test_event_def)
  assume nc: "\<not> sha256_collision C (map as_bytes tamper_texts)"
  have "canonical_event_payload (test_event 1 ''auth'') ''n1'' \<noteq>
      canonical_event_payload ((test_event 1 ''auth'')\<lparr>ev_payload := ''tampered''\<rparr>) ''n1''"
    by (simp add: canonical_event_payload_def test_event_def)
  then have "sha256_hex C (as_bytes (tamper_texts ! 1)) \<noteq> sha256_hex C (as_bytes (tamper_texts ! 0))"
    using sha256_hex_text [OF assms nc, of "tamper_texts ! 1" "tamper_texts ! 0"]
    by (simp add: tamper_texts_def)
  then show "tamper_is_detected C"
    by (simp add: tamper_is_detected_def test_log_Ok Let_def verify_chain_def verify_from_Cons
        same_text_iff [OF assms] event_hash_of_def tamper_texts_def test_event_def audit_log_new_def
        sealed_def)
qed

section \<open>Sandbox\<close>

definition test_runtime :: "sandbox_runtime security_result" where
  "test_runtime =
     (case configure sandbox_default
         \<lparr>allowed_syscalls = {''read'', ''write''}, max_memory_bytes = 1024, max_cpu_millis = 500\<rparr> of
        (res, S) \<Rightarrow> and_then res (\<lambda>_. Ok S))"

definition capability_tokens_enforce_expiry_and_scope :: "build \<Rightarrow> bool" where
  "capability_tokens_enforce_expiry_and_scope bld \<longleftrightarrow> passes (
     and_then test_runtime (\<lambda>S.
       case grant_capabilities bld S ''plugin-a'' {ReadTensor, RouteToken} 10 5 42 of (res, S) \<Rightarrow>
       and_then res (\<lambda>token. Ok (
         is_ok (validate_capability S (ct_token_id token) ''plugin-a'' RouteToken 12) \<and>
         is_err (validate_capability S (ct_token_id token) ''plugin-a'' AccessKvCache 12) \<and>
         is_err (validate_capability S (ct_token_id token) ''plugin-a'' RouteToken 20)))))"

definition syscall_filter_blocks_disallowed_calls :: bool where
  "syscall_filter_blocks_disallowed_calls \<longleftrightarrow> passes (
     and_then test_runtime (\<lambda>S.
       Ok (is_ok (validate_syscall S ''read'') \<and> is_err (validate_syscall S ''socket''))))"

definition resource_limits_are_enforced :: bool where
  "resource_limits_are_enforced \<longleftrightarrow> passes (
     and_then test_runtime (\<lambda>S.
       case record_usage S ''plugin-a'' \<lparr>ru_memory_bytes = 100, ru_cpu_millis = 50\<rparr> of (first, S) \<Rightarrow>
       Ok (is_ok first \<and>
         is_err (fst (record_usage S ''plugin-a'' \<lparr>ru_memory_bytes = 5000, ru_cpu_millis = 50\<rparr>)))))"

lemma sandbox_tests:
  "capability_tokens_enforce_expiry_and_scope bld" "syscall_filter_blocks_disallowed_calls"
  "resource_limits_are_enforced"
proof -
  have "grant_made bld ''plugin-a'' 10 5" by (simp add: grant_made_def ascii_white_def)
  then show "capability_tokens_enforce_expiry_and_scope bld"
    by (simp add: capability_tokens_enforce_expiry_and_scope_def test_runtime_def configure_def
        grant_capabilities_eq granted_token_def validate_capability_def)
  show "syscall_filter_blocks_disallowed_calls" "resource_limits_are_enforced"
    by (simp_all add: syscall_filter_blocks_disallowed_calls_def resource_limits_are_enforced_def
        test_runtime_def configure_def validate_syscall_def record_usage_def)
qed

section \<open>Access control\<close>

definition test_principal :: "string \<Rightarrow> string \<Rightarrow> principal" where
  "test_principal role tenant =
     \<lparr>pr_id = ''user-1'', pr_tenant_id = tenant, pr_roles = {role}, pr_scopes = {}\<rparr>"

definition test_controller :: access_controller where
  "test_controller =
     (let A = access_controller_default;
          A = set_action_roles A RunInference {''inference'', ''admin''};
          A = set_tier_policy A
            \<lparr>tp_tier = 1, tp_allowed_roles = {''inference'', ''admin''},
             tp_allowed_tenants = {''tenant-a'', ''tenant-b''}, tp_downgrade_tier = None\<rparr> in
      set_tier_policy A
        \<lparr>tp_tier = 2, tp_allowed_roles = {''admin''}, tp_allowed_tenants = {''tenant-a''},
         tp_downgrade_tier = Some 1\<rparr>)"

definition allows_authorized_tier_access :: bool where
  "allows_authorized_tier_access \<longleftrightarrow> passes (
     and_then (authorize test_controller (test_principal ''admin'' ''tenant-a'') RunInference (Some 2))
       (\<lambda>decision. Ok (decision = Allow)))"

definition downgrades_when_tenant_not_allowed :: bool where
  "downgrades_when_tenant_not_allowed \<longleftrightarrow> passes (
     and_then (authorize test_controller (test_principal ''admin'' ''tenant-b'') RunInference (Some 2))
       (\<lambda>decision. Ok (case decision of Downgrade to_tier reason \<Rightarrow> to_tier = 1 | _ \<Rightarrow> False)))"

definition denies_when_action_role_missing :: bool where
  "denies_when_action_role_missing \<longleftrightarrow> passes (
     and_then (authorize test_controller (test_principal ''observer'' ''tenant-a'') RunInference (Some 1))
       (\<lambda>decision. Ok (case decision of Deny reason \<Rightarrow> True | _ \<Rightarrow> False)))"

definition lists_authorized_tiers_deterministically :: bool where
  "lists_authorized_tiers_deterministically \<longleftrightarrow>
     authorized_tiers test_controller (test_principal ''admin'' ''tenant-a'') = [1, 2]"

lemmas access_fixture = test_controller_def test_principal_def access_controller_default_def
  set_action_roles_def set_tier_policy_def has_role_of_def Let_def

lemma access_control_tests:
  "allows_authorized_tier_access" "downgrades_when_tenant_not_allowed"
  "denies_when_action_role_missing" "lists_authorized_tiers_deterministically"
  by (simp_all add: allows_authorized_tier_access_def downgrades_when_tenant_not_allowed_def
      denies_when_action_role_missing_def authorize_def ascii_white_def access_fixture)
    (simp add: lists_authorized_tiers_deterministically_def authorized_tiers_def bt_entries_def
      bt_new_def access_fixture)

end
