(* ===== verification/Tests_Models.thy ===== *)
theory Tests_Models
  imports Tests_State Load_Checks Encryption
begin

unbundle bit_operations_syntax

text \<open>
  The unit tests of \<open>integrity.rs\<close> and \<open>encryption.rs\<close>, in the manner of Tests_State. The
  tests that need more of AES-GCM than its documented laws (that a flipped byte, another key or
  another seed changes the verdict or the ciphertext) are shown to pass exactly when the
  cipher has no coincidence of the kind each of them would meet.
\<close>

section \<open>Integrity\<close>

definition test_shard :: "crypto \<Rightarrow> string \<Rightarrow> tier_id \<Rightarrow> u8 list \<Rightarrow> manifest_shard" where
  "test_shard C path tier payload =
     \<lparr>ms_path = path, ms_tier = tier, ms_digest = digest_sha256 C payload, ms_bytes = 13\<rparr>"

definition test_manifest :: "crypto \<Rightarrow> secure_model_manifest" where
  "test_manifest C =
     \<lparr>mf_model_id = ''lite-llm'', mf_version_major = 1, mf_version_minor = 0, mf_version_patch = 0,
      mf_tiers = [1, 2],
      mf_shards = [test_shard C ''tier1/shard.bin'' 1 (as_bytes ''weights-tier1''),
        test_shard C ''tier2/shard.bin'' 2 (as_bytes ''weights-tier2'')],
      mf_manifest_hash_hex = [],
      mf_signature = \<lparr>se_signer_id = ''publisher'', se_key_id = ''pub-1'', se_signature_hex = []\<rparr>\<rparr>"

text \<open>The fixture returns manifest, store, key pair and verifier; the signing key is drawn.\<close>

definition build_manifest_and_store ::
  "crypto \<Rightarrow> ('sk, 'vk) ed25519 \<Rightarrow> 'sk \<Rightarrow>
   (secure_model_manifest \<times> in_memory_store \<times> ('sk, 'vk) ed25519_keypair \<times> 'vk signature_verifier)
     security_result" where
  "build_manifest_and_store C E drawn =
     (let store = in_memory_insert bt_new ''tier1/shard.bin'' (as_bytes ''weights-tier1'');
          store = in_memory_insert store ''tier2/shard.bin'' (as_bytes ''weights-tier2'');
          m = test_manifest C;
          m = m\<lparr>mf_manifest_hash_hex := recompute_hash C m\<rparr>;
          keypair = keypair_generate E drawn ''pub-1'' in
      and_then (sign_with C E m keypair ''publisher'') (\<lambda>m.
        Ok (m, store, keypair, register_key signature_verifier_default ''pub-1'' (ek_verifying_key keypair))))"

definition test_loader :: "'vk signature_verifier \<Rightarrow> tier_id set \<Rightarrow> 'vk secure_model_loader" where
  "test_loader V tiers =
     \<lparr>ld_signature_verifier = V, ld_supported_major_version = 1, ld_expected_tiers = tiers\<rparr>"

definition load_succeeds_when_hash_and_signature_match ::
  "crypto \<Rightarrow> ('sk, 'vk) ed25519 \<Rightarrow> 'sk \<Rightarrow> bool" where
  "load_succeeds_when_hash_and_signature_match C E drawn \<longleftrightarrow> passes (
     and_then (build_manifest_and_store C E drawn) (\<lambda>(m, store, _, V).
       and_then (load C E (test_loader V {1, 2}) m (in_memory_read store)) (\<lambda>loaded.
         Ok (length (lm_verified_shards loaded) = 2))))"

definition load_fails_on_signature_mismatch :: "crypto \<Rightarrow> ('sk, 'vk) ed25519 \<Rightarrow> 'sk \<Rightarrow> bool" where
  "load_fails_on_signature_mismatch C E drawn \<longleftrightarrow> passes (
     and_then (build_manifest_and_store C E drawn) (\<lambda>(m, store, _, V).
       let m = m\<lparr>mf_signature := (mf_signature m)\<lparr>se_signature_hex := ''bad-signature''\<rparr>\<rparr> in
       Ok (is_err (load C E (test_loader V {1, 2}) m (in_memory_read store)))))"

definition load_fails_on_shard_corruption :: "crypto \<Rightarrow> ('sk, 'vk) ed25519 \<Rightarrow> 'sk \<Rightarrow> bool" where
  "load_fails_on_shard_corruption C E drawn \<longleftrightarrow> passes (
     and_then (build_manifest_and_store C E drawn) (\<lambda>(m, store, _, V).
       let store = in_memory_insert store ''tier2/shard.bin'' (as_bytes ''CORRUPTED'') in
       Ok (is_err (load C E (test_loader V {1, 2}) m (in_memory_read store)))))"

definition load_fails_on_tier_mismatch :: "crypto \<Rightarrow> ('sk, 'vk) ed25519 \<Rightarrow> 'sk \<Rightarrow> bool" where
  "load_fails_on_tier_mismatch C E drawn \<longleftrightarrow> passes (
     and_then (build_manifest_and_store C E drawn) (\<lambda>(m, store, _, V).
       Ok (is_err (load C E (test_loader V {1}) m (in_memory_read store)))))"

definition ed25519_sign_and_verify :: "crypto \<Rightarrow> ('sk, 'vk) ed25519 \<Rightarrow> 'sk \<Rightarrow> bool" where
  "ed25519_sign_and_verify C E drawn \<longleftrightarrow>
     (let keypair = keypair_generate E drawn ''test-signer'';
          message = as_bytes ''manifest-hash-data'';
          V = register_key signature_verifier_default ''test-signer'' (ek_verifying_key keypair);
          envelope = \<lparr>se_signer_id = ''test-signer'', se_key_id = ''test-signer'',
            se_signature_hex = keypair_sign C E keypair message\<rparr> in
      passes (and_then (verify_signature C E V (hex_enc C message) envelope) (\<lambda>_. Ok True)))"

text \<open>The crate \<open>hex\<close> refuses a text with an odd number of digits (its error OddLength).\<close>

definition hex_odd_law :: "crypto \<Rightarrow> bool" where
  "hex_odd_law C \<longleftrightarrow> (\<forall>s. odd (length s) \<longrightarrow> (\<exists>e. hex_dec C s = Inl e))"

lemma build_manifest_Ok:
  assumes "crypto_laws C"
  shows "build_manifest_and_store C E drawn = Ok
    (signed_manifest C E (test_manifest C) (keypair_generate E drawn ''pub-1'') ''publisher'',
     [(''tier1/shard.bin'', as_bytes ''weights-tier1''), (''tier2/shard.bin'', as_bytes ''weights-tier2'')],
     keypair_generate E drawn ''pub-1'',
     register_key signature_verifier_default ''pub-1'' (ed_public E drawn))"
proof -
  have "''tier1/shard.bin'' < ''tier2/shard.bin''" by (simp add: less_char_def)
  then show ?thesis
    by (simp add: build_manifest_and_store_def sign_with_hash [OF assms] in_memory_insert_def bt_new_def
        keypair_generate_def Let_def not_less_iff_gr_or_eq)
qed

lemma load_is_err:
  assumes "crypto_laws C"
  shows "is_err (load C E ld m read) \<longleftrightarrow> \<not> is_ok (load C E ld m read)"
proof -
  have "load C E ld m read \<noteq> Panic"
    by (simp add: load_first_failure [OF assms] and_then_Panic_iff)
  then show ?thesis by (auto simp: is_err_iff)
qed

lemma test_shards_intact:
  assumes "read ''tier1/shard.bin'' = Some (as_bytes ''weights-tier1'')"
    and "read ''tier2/shard.bin'' = Some (as_bytes ''weights-tier2'')"
    and "s \<in> set (mf_shards (test_manifest C))"
  shows "ms_tier s \<in> {1, 2} \<and> shard_intact C read s"
  using assms by (auto simp: test_manifest_def test_shard_def shard_intact_def digest_matches_def as_bytes_def)

lemma integrity_tests:
  assumes "crypto_laws C" "ed25519_laws E"
  shows "load_succeeds_when_hash_and_signature_match C E drawn"
    and "hex_odd_law C \<Longrightarrow> load_fails_on_signature_mismatch C E drawn"
    and "load_fails_on_shard_corruption C E drawn" "load_fails_on_tier_mismatch C E drawn"
    and "ed25519_sign_and_verify C E drawn"
proof -
  let ?kp = "keypair_generate E drawn ''pub-1''"
  let ?V = "register_key signature_verifier_default ''pub-1'' (ed_public E drawn)"
  let ?m = "signed_manifest C E (test_manifest C) ?kp ''publisher''"
  note exact = load_Ok_iff [OF assms(1)]
  note fixture = build_manifest_Ok [OF assms(1)] load_is_err [OF assms(1)] is_ok_iff exact
  have shards: "mf_shards ?m = mf_shards (test_manifest C)"
    by (simp add: signed_manifest_def)
  have key: "bt_get (sv_pub_keys ?V) ''pub-1'' = Some (ek_verifying_key ?kp)"
    by (simp add: register_key_def keypair_generate_def)
  have shape: "shape_ok ?m"
    by (simp add: shape_ok_def signed_manifest_def test_manifest_def test_shard_def ascii_white_def)
  let ?read = "in_memory_read
    [(''tier1/shard.bin'', as_bytes ''weights-tier1''), (''tier2/shard.bin'', as_bytes ''weights-tier2'')]"
  have tiers: "mf_tiers ?m = [1, 2]" by (simp add: signed_manifest_def test_manifest_def)
  then have "\<forall>s\<in>set (mf_shards ?m). ms_tier s \<in> set (mf_tiers ?m) \<and> shard_intact C ?read s"
    using test_shards_intact [of ?read] by (simp add: shards in_memory_read_def)
  moreover have "signed_by_registered C E ?V (slice_of (sha256 C (as_bytes (canonical_payload ?m)))) (mf_signature ?m)"
    using signed_by_keypair [OF assms refl key] by (simp add: signed_manifest_def)
  moreover have "mf_version_major ?m = 1" "mf_manifest_hash_hex ?m = recompute_hash C ?m"
    by (simp_all add: signed_manifest_def) (simp add: test_manifest_def)
  ultimately have "load C E (test_loader ?V {1, 2}) ?m ?read =
    Ok \<lparr>lm_model_id = mf_model_id ?m, lm_loaded_tiers = mf_tiers ?m,
      lm_verified_shards = sort (map ms_path (mf_shards (test_manifest C)))\<rparr>"
    unfolding exact using shape by (simp add: test_loader_def tiers shards)
  then show "load_succeeds_when_hash_and_signature_match C E drawn"
    by (simp add: load_succeeds_when_hash_and_signature_match_def build_manifest_Ok [OF assms(1)])
      (simp add: test_manifest_def)
  show "load_fails_on_signature_mismatch C E drawn" if law: "hex_odd_law C"
  proof -
    have "odd (length ''bad-signature'')" by simp
    then obtain e where "hex_dec C ''bad-signature'' = Inl e"
      using law unfolding hex_odd_law_def by blast
    then show ?thesis
      by (simp add: load_fails_on_signature_mismatch_def fixture signed_by_registered_def Let_def)
  qed
  show "load_fails_on_tier_mismatch C E drawn"
    by (auto simp: load_fails_on_tier_mismatch_def fixture test_loader_def signed_manifest_def test_manifest_def)
  have "\<not> shard_intact C (in_memory_read (in_memory_insert
      [(''tier1/shard.bin'', as_bytes ''weights-tier1''), (''tier2/shard.bin'', as_bytes ''weights-tier2'')]
      ''tier2/shard.bin'' (as_bytes ''CORRUPTED'')))
      (test_shard C ''tier2/shard.bin'' 2 (as_bytes ''weights-tier2''))"
    by (simp add: shard_intact_def in_memory_read_def in_memory_insert_def test_shard_def as_bytes_def)
  then show "load_fails_on_shard_corruption C E drawn"
    by (simp add: load_fails_on_shard_corruption_def fixture shards Let_def) (simp add: test_manifest_def)
  show "ed25519_sign_and_verify C E drawn"
    using assms(2)
    by (simp add: ed25519_sign_and_verify_def verify_signature_def register_key_def keypair_generate_def
        keypair_sign_def hex_dec_enc [OF assms(1)] ed25519_laws_def Let_def)
qed

section \<open>Encryption\<close>

definition test_key_ref :: key_material_ref where
  "test_key_ref = \<lparr>kr_key_id = ''aes-model-key'', kr_version = 1, kr_kind = Encryption\<rparr>"

definition aes_gcm_encryption_roundtrip :: "crypto \<Rightarrow> 'c aead_kit \<Rightarrow> bool" where
  "aes_gcm_encryption_roundtrip C K \<longleftrightarrow>
     (let plaintext = as_bytes ''secret-transformer-weights-v2''; key = as_bytes ''master-key-32-bytes!!!'' in
      passes (
        and_then (encrypt_shard_at_rest C K plaintext 2 test_key_ref key 42) (\<lambda>encrypted.
        and_then (decrypt_shard_at_rest C K encrypted test_key_ref key) (\<lambda>decrypted.
          Ok (es_ciphertext encrypted \<noteq> plaintext \<and> decrypted = plaintext)))))"

definition tier_policy_maps_keys :: bool where
  "tier_policy_maps_keys \<longleftrightarrow>
     (let policy = \<lparr>required_encrypted_tiers = {2, 3},
            tier_key_map = bt_insert 3 ''k3'' (bt_insert 2 ''k2'' bt_new)\<rparr> in
      requires_encryption policy 2 \<and> \<not> requires_encryption policy 1 \<and>
      key_for_tier policy 3 = Some ''k3'')"

definition large_data_encryption :: "crypto \<Rightarrow> 'c aead_kit \<Rightarrow> bool" where
  "large_data_encryption C K \<longleftrightarrow>
     (let large_data = replicate (1024 * 1024) 0xAB; key = as_bytes ''master-key-32-bytes!!!'' in
      passes (
        and_then (encrypt_shard_at_rest C K large_data 3 test_key_ref key 0) (\<lambda>encrypted.
        and_then (decrypt_shard_at_rest C K encrypted test_key_ref key) (\<lambda>decrypted.
          Ok (decrypted = large_data)))))"

text \<open>The property test: its generated inputs are arguments, without the ranges they are drawn from.\<close>

definition encryption_roundtrip_any_input ::
  "crypto \<Rightarrow> 'c aead_kit \<Rightarrow> tier_id \<Rightarrow> u64 \<Rightarrow> u32 \<Rightarrow> bool" where
  "encryption_roundtrip_any_input C K tier seed key_ref_version \<longleftrightarrow>
     (let key_ref = \<lparr>kr_key_id = ''prop-test-key'', kr_version = key_ref_version, kr_kind = Encryption\<rparr>;
          plaintext = replicate 256 0x42; key = as_bytes ''master-key-32-bytes-test!!'' in
      passes (
        and_then (encrypt_shard_at_rest C K plaintext tier key_ref key seed) (\<lambda>encrypted.
        and_then (decrypt_shard_at_rest C K encrypted key_ref key) (\<lambda>decrypted.
          Ok (decrypted = plaintext)))))"

lemma roundtrip_run:
  assumes "crypto_laws C" "aead_laws K" "key \<noteq> []" "length plaintext \<le> 2 ^ 36"
  obtains encrypted where "encrypt_shard_at_rest C K plaintext tier r key seed = Ok encrypted"
    "decrypt_shard_at_rest C K encrypted r key = Ok plaintext" "es_ciphertext encrypted \<noteq> plaintext"
proof -
  from encrypt_succeeds [OF assms, of tier r seed] obtain s where
    s: "encrypt_shard_at_rest C K plaintext tier r key seed = Ok s"
    and len: "length (es_ciphertext s) = length plaintext + 16" by blast
  have "decrypt_shard_at_rest C K s r key = Ok plaintext"
    by (rule decrypt_encrypted [OF assms(1,2) s]) simp_all
  moreover have "es_ciphertext s \<noteq> plaintext" using len by auto
  ultimately show thesis by (rule that [OF s])
qed

lemma encryption_tests:
  assumes "crypto_laws C" "aead_laws K"
  shows "aes_gcm_encryption_roundtrip C K" "tier_policy_maps_keys" "large_data_encryption C K"
    "encryption_roundtrip_any_input C K tier seed version"
proof -
  let ?key = "as_bytes ''master-key-32-bytes!!!''"
  have "?key \<noteq> []" "as_bytes ''master-key-32-bytes-test!!'' \<noteq> []" by (simp_all add: as_bytes_def)
  note run = roundtrip_run [OF assms this(1)] roundtrip_run [OF assms this(2)]
  show "aes_gcm_encryption_roundtrip C K"
    by (rule run(1) [of "as_bytes ''secret-transformer-weights-v2''" 2 test_key_ref 42])
      (simp_all add: aes_gcm_encryption_roundtrip_def as_bytes_def Let_def)
  show "large_data_encryption C K"
    by (rule run(1) [of "replicate (1024 * 1024) 0xAB" 3 test_key_ref 0])
      (simp_all add: large_data_encryption_def Let_def )
  show "encryption_roundtrip_any_input C K tier seed version"
    by (rule run(2) [of "replicate 256 0x42" tier "\<lparr>kr_key_id = ''prop-test-key'', kr_version = version, kr_kind = Encryption\<rparr>" seed])
      (simp_all add: encryption_roundtrip_any_input_def Let_def)
  show "tier_policy_maps_keys"
    by (simp add: tier_policy_maps_keys_def requires_encryption_def key_for_tier_def)
qed

section \<open>Tests that rest on the strength of the cipher\<close>

definition tampered_ciphertext_is_rejected :: "crypto \<Rightarrow> 'c aead_kit \<Rightarrow> bool" where
  "tampered_ciphertext_is_rejected C K \<longleftrightarrow>
     (let key = as_bytes ''master-key-32-bytes!!!'' in
      passes (
        and_then (encrypt_shard_at_rest C K (as_bytes ''secret-weights'') 2 test_key_ref key 42) (\<lambda>encrypted.
          let ct = es_ciphertext encrypted;
              encrypted = encrypted\<lparr>es_ciphertext := ct[0 := ct ! 0 XOR 0xAB]\<rparr> in
          Ok (is_err (decrypt_shard_at_rest C K encrypted test_key_ref key)))))"

definition wrong_key_is_rejected :: "crypto \<Rightarrow> 'c aead_kit \<Rightarrow> bool" where
  "wrong_key_is_rejected C K \<longleftrightarrow> passes (
     and_then (encrypt_shard_at_rest C K (as_bytes ''secret-data'') 2 test_key_ref
         (as_bytes ''master-key-32-bytes!!!'') 42) (\<lambda>encrypted.
       Ok (is_err (decrypt_shard_at_rest C K encrypted test_key_ref
         (as_bytes ''wrong-master-key-32-bytes!!!!'')))))"

definition different_seeds_produce_different_ciphertexts :: "crypto \<Rightarrow> 'c aead_kit \<Rightarrow> bool" where
  "different_seeds_produce_different_ciphertexts C K \<longleftrightarrow>
     (let key = as_bytes ''master-key-32-bytes!!!''; plaintext = as_bytes ''same-plaintext'' in
      passes (
        and_then (encrypt_shard_at_rest C K plaintext 1 test_key_ref key 1) (\<lambda>e1.
        and_then (encrypt_shard_at_rest C K plaintext 1 test_key_ref key 999) (\<lambda>e2.
          Ok (es_ciphertext e1 \<noteq> es_ciphertext e2 \<and>
            em_nonce_hex (es_metadata e1) \<noteq> em_nonce_hex (es_metadata e2))))))"

definition shard_of :: "crypto \<Rightarrow> tier_id \<Rightarrow> key_material_ref \<Rightarrow> u64 \<Rightarrow> u8 list \<Rightarrow> encrypted_shard" where
  "shard_of C tier r seed ct = \<lparr>es_ciphertext = ct,
     es_metadata = \<lparr>em_algorithm = AES_256_GCM_ALGORITHM, em_tier = tier, em_key_id = kr_key_id r,
       em_key_version = kr_version r, em_nonce_hex = hex_enc C (slice_of (seed_nonce seed)),
       em_auth_tag_hex = hex_enc C (drop (length ct - 16) ct)\<rparr>\<rparr>"

lemma encrypt_run:
  assumes "aead_laws K" "key \<noteq> []" "length plaintext \<le> 2 ^ 36"
  obtains ct where "ciphertext_of K key tier seed plaintext ct"
    "encrypt_shard_at_rest C K plaintext tier r key seed = Ok (shard_of C tier r seed ct)"
proof -
  obtain c where c: "cipher_for K key tier seed c" using cipher_for_exists [OF assms(1)] ..
  obtain ct where "aes_encrypt K c (seed_nonce seed) plaintext = Inr ct"
    using aead_encrypts [OF assms(1,3)] by blast
  with c show thesis
    by (intro that [of ct]) (auto simp: ciphertext_of_def shard_of_def encrypt_eq [OF c assms(2)])
qed

lemma ciphertext_of_unique: "ciphertext_of K key tier seed p ct \<Longrightarrow> ciphertext_of K key tier seed p ct' \<Longrightarrow> ct = ct'"
  by (auto simp: ciphertext_of_def dest: cipher_for_unique)

lemma decrypt_refuses_iff:
  assumes "crypto_laws C" "aead_laws K" "em_nonce_hex (es_metadata s) = hex_enc C (slice_of (seed_nonce seed))"
    and "em_key_id (es_metadata s) = kr_key_id r" "em_key_version (es_metadata s) = kr_version r"
  shows "is_err (decrypt_shard_at_rest C K s r key) \<longleftrightarrow>
    (\<nexists>p. ciphertext_of K key (em_tier (es_metadata s)) seed p (es_ciphertext s))"
proof -
  obtain c where c: "cipher_for K key (em_tier (es_metadata s)) seed c"
    using cipher_for_exists [OF assms(2)] ..
  have seed: "extract_seed_from_nonce C (em_nonce_hex (es_metadata s)) = Ok seed"
    by (simp add: assms(3) extract_seed_of_nonce [OF assms(1)])
  have "ciphertext_of K key (em_tier (es_metadata s)) seed p (es_ciphertext s) \<longleftrightarrow>
      aes_decrypt K c (seed_nonce seed) (es_ciphertext s) = Inr p" for p
    by (simp add: ciphertext_of_cipher [OF c] aead_decrypts [OF assms(2)])
  then show ?thesis
    using assms(4,5) by (auto simp: decrypt_eq [OF seed c] map_err_def split: sum.split)
qed

text \<open>What each of these tests asks of the crates beyond their laws, and nothing else.\<close>

lemma cipher_tests:
  assumes "crypto_laws C" "aead_laws K"
  defines "key \<equiv> as_bytes ''master-key-32-bytes!!!''"
  shows "tampered_ciphertext_is_rejected C K \<longleftrightarrow>
      (\<nexists>ct p. ciphertext_of K key 2 42 (as_bytes ''secret-weights'') ct \<and>
        ciphertext_of K key 2 42 p (ct[0 := ct ! 0 XOR 0xAB]))"
    and "wrong_key_is_rejected C K \<longleftrightarrow>
      (\<nexists>ct p. ciphertext_of K key 2 42 (as_bytes ''secret-data'') ct \<and>
        ciphertext_of K (as_bytes ''wrong-master-key-32-bytes!!!!'') 2 42 p ct)"
    and "different_seeds_produce_different_ciphertexts C K \<longleftrightarrow>
      (\<nexists>ct. ciphertext_of K key 1 1 (as_bytes ''same-plaintext'') ct \<and>
        ciphertext_of K key 1 999 (as_bytes ''same-plaintext'') ct)"
proof -
  have key: "key \<noteq> []" by (simp add: key_def as_bytes_def)
  note run = encrypt_run [OF assms(2) key, where C = C and r = test_key_ref]
  note refuses = decrypt_refuses_iff [OF assms(1,2), where seed = 42 and r = test_key_ref]
  have short: "length (as_bytes ''secret-weights'') \<le> 2 ^ 36" "length (as_bytes ''secret-data'') \<le> 2 ^ 36"
    "length (as_bytes ''same-plaintext'') \<le> 2 ^ 36"
    by (simp_all add: as_bytes_def)
  obtain ct where ct: "ciphertext_of K key 2 42 (as_bytes ''secret-weights'') ct"
    and enc: "encrypt_shard_at_rest C K (as_bytes ''secret-weights'') 2 test_key_ref key 42 =
      Ok (shard_of C 2 test_key_ref 42 ct)"
    by (rule run [OF short(1)])
  have "tampered_ciphertext_is_rejected C K \<longleftrightarrow> (\<nexists>p. ciphertext_of K key 2 42 p (ct[0 := ct ! 0 XOR 0xAB]))"
    unfolding tampered_ciphertext_is_rejected_def key_def [symmetric] Let_def
    by (simp add: enc refuses) (simp add: shard_of_def refuses)
  then show "tampered_ciphertext_is_rejected C K \<longleftrightarrow>
      (\<nexists>ct p. ciphertext_of K key 2 42 (as_bytes ''secret-weights'') ct \<and>
        ciphertext_of K key 2 42 p (ct[0 := ct ! 0 XOR 0xAB]))"
    using ct ciphertext_of_unique [OF ct] by blast
  obtain ct where ct: "ciphertext_of K key 2 42 (as_bytes ''secret-data'') ct"
    and enc: "encrypt_shard_at_rest C K (as_bytes ''secret-data'') 2 test_key_ref key 42 =
      Ok (shard_of C 2 test_key_ref 42 ct)"
    by (rule run [OF short(2)])
  have "wrong_key_is_rejected C K \<longleftrightarrow>
      (\<nexists>p. ciphertext_of K (as_bytes ''wrong-master-key-32-bytes!!!!'') 2 42 p ct)"
    unfolding wrong_key_is_rejected_def key_def [symmetric]
    by (simp add: enc) (simp add: shard_of_def refuses)
  then show "wrong_key_is_rejected C K \<longleftrightarrow>
      (\<nexists>ct p. ciphertext_of K key 2 42 (as_bytes ''secret-data'') ct \<and>
        ciphertext_of K (as_bytes ''wrong-master-key-32-bytes!!!!'') 2 42 p ct)"
    using ct ciphertext_of_unique [OF ct] by blast
  obtain ct1 where ct1: "ciphertext_of K key 1 1 (as_bytes ''same-plaintext'') ct1"
    and enc1: "encrypt_shard_at_rest C K (as_bytes ''same-plaintext'') 1 test_key_ref key 1 =
      Ok (shard_of C 1 test_key_ref 1 ct1)"
    by (rule run [OF short(3)])
  obtain ct2 where ct2: "ciphertext_of K key 1 999 (as_bytes ''same-plaintext'') ct2"
    and enc2: "encrypt_shard_at_rest C K (as_bytes ''same-plaintext'') 1 test_key_ref key 999 =
      Ok (shard_of C 1 test_key_ref 999 ct2)"
    by (rule run [OF short(3)])
  have "different_seeds_produce_different_ciphertexts C K \<longleftrightarrow>
      ct1 \<noteq> ct2 \<and> hex_enc C (slice_of (seed_nonce 1)) \<noteq> hex_enc C (slice_of (seed_nonce 999))"
    unfolding different_seeds_produce_different_ciphertexts_def key_def [symmetric] Let_def
    by (simp add: enc1 enc2) (simp add: shard_of_def)
  moreover have "hex_enc C (slice_of (seed_nonce 1)) \<noteq> hex_enc C (slice_of (seed_nonce 999))"
    by (simp add: hex_codec.enc_array_inject [OF crypto_hex [OF assms(1)]] seed_nonce_inject)
  ultimately show "different_seeds_produce_different_ciphertexts C K \<longleftrightarrow>
      (\<nexists>ct. ciphertext_of K key 1 1 (as_bytes ''same-plaintext'') ct \<and>
        ciphertext_of K key 1 999 (as_bytes ''same-plaintext'') ct)"
    using ct1 ct2 ciphertext_of_unique [OF ct1] ciphertext_of_unique [OF ct2] by blast
qed

end
