(* ===== verification/Tests_Reports.thy ===== *)
theory Tests_Reports
  imports Tests_State Memory_Safety Compliance Hardening Zeroization
begin

text \<open>
  The unit tests of \<open>types.rs\<close>, \<open>memory_safety.rs\<close>, \<open>compliance.rs\<close>, \<open>hardening.rs\<close> and
  \<open>zeroization.rs\<close>, in the manner of Tests_State. The arithmetic of \<open>f32\<close> is a parameter, so
  the checklist test passes exactly when the quotient it compares is above its bound.
\<close>

section \<open>Codec\<close>

definition hex_codec_test :: bool where
  "hex_codec_test \<longleftrightarrow> (case hex_decode (hex_encode (as_bytes ''lite-llm'')) of
     None \<Rightarrow> False | Some decoded \<Rightarrow> decoded = as_bytes ''lite-llm'')"

lemma types_test: "hex_codec_test"
  by (simp add: hex_codec_test_def hex_decode_encode)

section \<open>Memory safety\<close>

definition test_safety_profile :: "unsafe_block_policy \<Rightarrow> memory_safety_profile" where
  "test_safety_profile policy =
     \<lparr>require_miri = True, require_fuzzing = True, unsafe_policy = policy, max_unsafe_blocks = 2,
      require_ffi_layout_validation = True, require_ffi_lifetime_validation = True\<rparr>"

definition deny_policy_rejects_unsafe_blocks :: bool where
  "deny_policy_rejects_unsafe_blocks \<longleftrightarrow> passes (
     and_then (audit_memory_safety (test_safety_profile DenyUnsafe)
         [\<lparr>uu_module_path = ''ffi.rs'', uu_line = 10, uu_reason = ''ffi call'', uu_reviewed = True\<rparr>]
         [] True True)
       (\<lambda>report. Ok (\<not> msr_accepted report)))"

definition review_policy_requires_reviewed_unsafe_blocks :: bool where
  "review_policy_requires_reviewed_unsafe_blocks \<longleftrightarrow> passes (
     and_then (audit_memory_safety (test_safety_profile AllowWithReview)
         [\<lparr>uu_module_path = ''ffi.rs'', uu_line = 11, uu_reason = ''ffi call'', uu_reviewed = False\<rparr>]
         [] True True)
       (\<lambda>report. Ok (\<not> msr_accepted report)))"

definition ffi_audit_checks_layout_and_lifetimes :: bool where
  "ffi_audit_checks_layout_and_lifetimes \<longleftrightarrow> passes (
     and_then (audit_memory_safety (test_safety_profile AllowWithAudit) []
         [\<lparr>ffi_boundary_name = ''cuda'', ffi_uses_unsafe = True, ffi_layout_validated = False,
           ffi_lifetime_validated = False, ffi_reviewed_by = Some ''sec-review''\<rparr>] True True)
       (\<lambda>report. Ok (\<not> msr_accepted report \<and> length (msr_violations report) = 2)))"

definition fully_compliant_profile_is_accepted :: bool where
  "fully_compliant_profile_is_accepted \<longleftrightarrow> passes (
     and_then (audit_memory_safety (test_safety_profile AllowWithReview)
         [\<lparr>uu_module_path = ''ffi.rs'', uu_line = 22, uu_reason = ''ffi call'', uu_reviewed = True\<rparr>]
         [\<lparr>ffi_boundary_name = ''rdma'', ffi_uses_unsafe = True, ffi_layout_validated = True,
           ffi_lifetime_validated = True, ffi_reviewed_by = Some ''sec-review''\<rparr>] True True)
       (\<lambda>report. Ok (msr_accepted report)))"

lemma memory_safety_tests:
  "deny_policy_rejects_unsafe_blocks" "review_policy_requires_reviewed_unsafe_blocks"
  "ffi_audit_checks_layout_and_lifetimes" "fully_compliant_profile_is_accepted"
  by (simp_all add: deny_policy_rejects_unsafe_blocks_def review_policy_requires_reviewed_unsafe_blocks_def
      ffi_audit_checks_layout_and_lifetimes_def fully_compliant_profile_is_accepted_def
      audit_memory_safety_def test_safety_profile_def policy_violations_def ffi_violations_def
      ascii_white_def Let_def)

section \<open>Compliance\<close>

definition test_compliance_profile :: "bool \<Rightarrow> compliance_profile" where
  "test_compliance_profile ready =
     \<lparr>cp_data_minimization = True, cp_deletion_requests_supported = ready, cp_encryption_at_rest = True,
      cp_access_control = True, cp_audit_logging = True, cp_incident_response_plan = True,
      cp_zeroization = True, cp_telemetry_pii_redaction = True\<rparr>"

definition gdpr_report_flags_missing_controls :: bool where
  "gdpr_report_flags_missing_controls \<longleftrightarrow>
     (let rep = evaluate (compliance_engine_new (test_compliance_profile False)) Gdpr 100 in
      \<not> rp_ready rep \<and> ''deletion_requests'' \<in> set (rp_missing_controls rep))"

definition hipaa_report_is_ready_when_controls_enabled :: bool where
  "hipaa_report_is_ready_when_controls_enabled \<longleftrightarrow>
     (let rep = evaluate (compliance_engine_new (test_compliance_profile True)) Hipaa 100 in
      rp_ready rep \<and> rp_missing_controls rep = [])"

lemma compliance_tests:
  "gdpr_report_flags_missing_controls" "hipaa_report_is_ready_when_controls_enabled"
  by (simp_all add: gdpr_report_flags_missing_controls_def hipaa_report_is_ready_when_controls_enabled_def
      evaluate_def evaluate_loop_eq control_enabled_def compliance_engine_new_def
      test_compliance_profile_def Let_def)

section \<open>Hardening\<close>

text \<open>\<open>above_30\<close> is the comparison \<open>> 30.0\<close> of \<open>f32\<close>.\<close>

definition checklist_report_tracks_coverage :: "'f single_precision \<Rightarrow> ('f \<Rightarrow> bool) \<Rightarrow> bool" where
  "checklist_report_tracks_coverage F above_30 \<longleftrightarrow>
     (case mark_completed default_items ''HC-001'' of (found1, C) \<Rightarrow>
      case mark_completed C ''HC-002'' of (found2, C) \<Rightarrow>
        let rep = report F C in
        found1 \<and> found2 \<and> hr_total_items rep = 6 \<and> hr_completed_items rep = 2 \<and>
        above_30 (hr_coverage_percent rep) \<and> hr_missing_critical rep \<noteq> [])"

definition incident_plan_has_all_phases :: bool where
  "incident_plan_has_all_phases \<longleftrightarrow>
     (let plan = default_incident_response_plan in
      ir_detection plan \<noteq> [] \<and> ir_containment plan \<noteq> [] \<and> ir_eradication plan \<noteq> [] \<and>
      ir_recovery plan \<noteq> [] \<and> ir_lessons_learned plan \<noteq> [])"

lemma hardening_tests:
  "checklist_report_tracks_coverage F above_30 \<longleftrightarrow>
     above_30 (f32_div F (f32_mul F (f32_of_usize F 2) (f32_hundred F)) (f32_of_usize F 6))"
  "incident_plan_has_all_phases"
  by (simp_all add: checklist_report_tracks_coverage_def incident_plan_has_all_phases_def
      default_incident_response_plan_def mark_completed_def default_items_def open_item_def report_def
      Let_def)

section \<open>Zeroization\<close>

definition byte_zeroization_overwrites_buffer :: "(u8 list \<Rightarrow> u8 list) \<Rightarrow> bool" where
  "byte_zeroization_overwrites_buffer Z \<longleftrightarrow> secure_zeroize_bytes Z [1, 2, 3, 4] = [0, 0, 0, 0]"

definition sensitive_bytes_zeroize_trait_works :: bool where
  "sensitive_bytes_zeroize_trait_works \<longleftrightarrow>
     sb_bytes (sensitive_bytes_zeroize (sensitive_bytes_new [7, 8, 9])) = []"

text \<open>The patterns of 1.0, 2.0 and 3.0; the pattern 0 is the number 0.0.\<close>

definition session_zeroization_records_events :: "(u8 list \<Rightarrow> u8 list) \<Rightarrow> bool" where
  "session_zeroization_records_events Z \<longleftrightarrow>
     (case zeroize_session_buffers Z \<lparr>zt_events = []\<rparr> ''s1'' [1, 2, 3] [0x3F800000, 0x40000000, 0x40400000]
         \<lparr>zeroize_keys_after_use = True, zeroize_cache_on_evict = True, zeroize_session_on_end = True\<rparr> of
        (res, tracker, keys, cache) \<Rightarrow> passes (and_then res (\<lambda>_.
          Ok (keys = [0, 0, 0] \<and> cache = [0, 0, 0] \<and> length (zt_events tracker) = 2))))"

text \<open>The patterns of 1.5, 2.5 and 3.5.\<close>

definition f32_zeroization_works :: "(u8 list \<Rightarrow> u8 list) \<Rightarrow> bool" where
  "f32_zeroization_works Z \<longleftrightarrow> secure_zeroize_f32 Z [0x3FC00000, 0x40200000, 0x40600000] = [0, 0, 0]"

lemma zeroization_tests:
  assumes "zeroize_law Z"
  shows "byte_zeroization_overwrites_buffer Z" "sensitive_bytes_zeroize_trait_works"
    "session_zeroization_records_events Z" "f32_zeroization_works Z"
proof -
  have Z: "Z bs = replicate (length bs) 0" for bs using assms by (simp add: zeroize_law_def)
  have small: "replicate 3 x = [x, x, x]" "replicate 4 x = [x, x, x, x]" for x :: 'a
    by (simp_all add: numeral_eq_Suc)
  show "byte_zeroization_overwrites_buffer Z" "sensitive_bytes_zeroize_trait_works"
    "session_zeroization_records_events Z" "f32_zeroization_works Z"
    by (simp_all add: byte_zeroization_overwrites_buffer_def sensitive_bytes_zeroize_trait_works_def
        session_zeroization_records_events_def f32_zeroization_works_def secure_zeroize_bytes_def Z
        zeroized_f32 [OF assms] zeroize_session_buffers_def sensitive_bytes_new_def
        sensitive_bytes_zeroize_def ascii_white_def small)
qed

end
