(* ===== verification/Spec2Isabelle.thy ===== *)
theory Spec2Isabelle
  imports Load_Checks Encryption Key_Vault Audit_Checks Access_Control Sandbox
    Memory_Safety Compliance Hardening Zeroization Tests_Models Tests_Reports
begin

text \<open>
  A verification library for \<open>lite-llm-security\<close>, the security crate of Lite LLM (Rust). The
  crate is a set of components without threads or I/O of its own; each keeps its state in a
  struct that its public methods read and change. All of \<open>src/*.rs\<close> is modelled, most
  of the unit tests included, except \<open>lib.rs\<close>, which only re-exports.

  \<^bold>\<open>The program.\<close> \<open>types.rs\<close> holds hashing and hexadecimal helpers and \<open>error.rs\<close> the error
  type; all other modules use them. \<open>integrity.rs\<close> hashes, signs and loads model manifests
  from an artifact store. \<open>key_management.rs\<close> derives, rotates, revokes and hands out keys;
  \<open>encryption.rs\<close> encrypts shards under such keys and names them in the metadata by the same
  reference. \<open>audit.rs\<close> is a hash-chained log, \<open>access_control.rs\<close> decides on actions and
  tiers, \<open>sandbox.rs\<close> issues and checks capability tokens of plugins. \<open>memory_safety.rs\<close>,
  \<open>compliance.rs\<close> and \<open>hardening.rs\<close> turn checklists into reports, and \<open>zeroization.rs\<close> clears
  buffers.

  \<^bold>\<open>Theories.\<close>
  \<^item> Prelude: machine words, the outcome of a call (\<open>Ok\<close>, \<open>Err\<close> or panic), addition in both
    build profiles, arrays of fixed length, facts about lists, and lists of checks whose first
    failure decides. Rust_Text: strings and their formatting. Byte_Order: big-endian byte
    strings. BTree_Map: the ordered map behind every component, as the locale \<open>ordered_map\<close>
    and its implementation. Transition_System: reachable states, invariants and stable facts,
    and components that answer every sequence of calls as a specification does, as locales.
  \<^item> Security_Types models \<open>types.rs\<close>, Security_Error \<open>error.rs\<close>.
  \<^item> External_Crypto: the crates \<open>sha2\<close>, \<open>hex\<close> and \<open>subtle\<close> as parameters with their documented
    laws; the codec laws are the locale \<open>hex_codec\<close>, which the crate's own codec satisfies.
  \<^item> Integrity models \<open>integrity.rs\<close>; the traits \<open>ArtifactStore\<close> and \<open>IntegrityVerifier\<close> are the
    locales \<open>artifact_store\<close> and \<open>integrity_verifier\<close>. Key_Management, Encryption, Audit_Log
    (the trait \<open>AuditSink\<close> is the locale \<open>audit_sink\<close>), Access_Control, Sandbox, Memory_Safety,
    Compliance, Hardening and Zeroization model the file of that name.
  \<^item> Specifications: Key_Vault is the map that \<open>KeyManager\<close> implements; Audit_Checks the list of
    events that \<open>DeterministicAuditLog\<close> implements, and the checks of \<open>verify_chain\<close> as a list;
    Load_Checks the checks of \<open>SecureModelLoader::load\<close> as a list.
  \<^item> Tests_State, Tests_Models and Tests_Reports translate the unit tests of the source files,
    with their fixtures (\<open>mod tests\<close>), into statements about the model.

  A struct is a record with a prefix on its fields, an enum a datatype, a \<open>BTreeMap\<close> a
  \<open>btree_map\<close>, a \<open>BTreeSet\<close> a set, a string the list of its UTF-8 bytes. A method on
  \<open>&mut self\<close> returns its result and the new state; \<open>?\<close> is \<open>and_then\<close>; \<open>expect\<close> and the
  overflow checks of a debug build are the outcome \<open>Panic\<close>. \<open>usize\<close> has 64 bits.

  \<^bold>\<open>What is shown.\<close>
  \<^item> Integrity: \<open>load\<close> accepts exactly the intact, signed, matching manifests and reports the
    first check that fails otherwise; what is signed loads; hash and digests pin the content;
    and what the hash does not cover.
  \<^item> Key management: the manager answers every sequence of calls as the vault does; its
    invariant, exact retrieval, rotation, the life of a generated key through all later calls,
    permanence of revocation, the separation of derived keys, termination of the derivation
    loop, and two weaknesses: the kind check and the overflow of days.
  \<^item> Encryption: round trip, decryption as the converse of encryption, errors, separation
    of the inputs of the derivation. This theory adds that shards stay readable through
    changes of the key manager, and that ciphertexts a loaded manifest vouches for decrypt.
  \<^item> Audit: the log answers every sequence of calls as a list of events does; \<open>verify_chain\<close>
    accepts exactly what \<open>append\<close> produces and reports the first failed check; the root hash
    commits to the events, the signatures to secret and signer; replaced records are found;
    and which changes are not.
  \<^item> Access control and sandbox: decisions as closed conditions, capabilities as standing
    grants of the calls made so far, second grants that replace the first, and locality,
    monotonicity and overflow.
  \<^item> Reports, hashes and zeroization: each report as a condition on its inputs, the form of the
    hash texts, and the buffers left.
  \<^item> Tests: the translated unit tests as statements about the model. Most pass for all external
    crates that keep their laws; for five the statement names the condition they rest on.

  \<^bold>\<open>Assumptions and bounds.\<close> Statements about hashes speak of collisions among the messages
  that were hashed in the runs at hand, never of the absence of collisions. Laws of external
  crates are premises, met by concrete functions in the applications. Loops are structural
  recursions; the derivation loop of \<open>key_management.rs\<close> has a measure, as each turn adds 32
  bytes, and is shown to end as the \<open>while\<close> loop it is; no fuel is used. Additions that the
  code leaves unchecked are modelled in both build profiles.

  \<^bold>\<open>Not modelled.\<close> Single-precision division in the coverage figure of \<open>hardening.rs\<close> is a
  parameter. The volatile writes of \<open>zeroize\<close> and clearing on drop have no counterpart in a
  functional model, nor has the timing of comparisons. Allocation failure is left out. Unit
  tests that run one function twice and compare the results say nothing about a model made
  of functions and are left out, and so are the two property tests that state that HKDF has
  no collision on the inputs they draw.
\<close>

section \<open>Keys and shards together\<close>

text \<open>A key reference resolves to one material for as long as it resolves at all.\<close>

lemma retrieved_material:
  assumes "reachable km_init (km_step C bld) M" "lookup_key M kid v = None"
    and "generate_key C bld M kid kd v d s = (Ok r, M')"
    and "(km_step C bld)\<^sup>*\<^sup>* M' M1" "(km_step C bld)\<^sup>*\<^sup>* M1 M2"
    and "retrieve_key bld1 M1 i1 q1 day1 = Ok m1" "retrieve_key bld2 M2 i2 q2 day2 = Ok m2"
    and "kr_key_id q1 = kid" "kr_version q1 = v" "kr_key_id q2 = kid" "kr_version q2 = v"
  shows "m2 = m1"
  using generated_key_material_stable [OF assms(1-4,6,8,9)]
    generated_key_material_stable [OF assms(1-3) rtranclp_trans [OF assms(4,5)] assms(7,10,11)]
  by simp

text \<open>
  C2: shards stay readable through changes of the key manager. A shard is encrypted with the
  material one identity retrieves for a generated key; after any further generations,
  rotations, revocations and policy changes, whoever still retrieves material for that key id
  and version, under whatever kind and on whatever day, decrypts the shard with it.
\<close>

theorem shards_outlive_key_changes:
  assumes "crypto_laws C" "aead_laws K"
    and "reachable km_init (km_step C bld) M" "lookup_key M kid v = None"
    and "generate_key C bld M kid kd v d s = (Ok r, M')"
    and "(km_step C bld)\<^sup>*\<^sup>* M' M1" "(km_step C bld)\<^sup>*\<^sup>* M1 M2"
    and "retrieve_key bld1 M1 writer q1 day1 = Ok m1" "retrieve_key bld2 M2 reader q2 day2 = Ok m2"
    and "kr_key_id q1 = kid" "kr_version q1 = v" "kr_key_id q2 = kid" "kr_version q2 = v"
    and "encrypt_shard_at_rest C K plaintext tier q1 m1 seed = Ok shard"
  shows "decrypt_shard_at_rest C K shard q2 m2 = Ok plaintext"
proof -
  have "m2 = m1" by (rule retrieved_material [OF assms(3-13)])
  then show ?thesis
    using decrypt_encrypted [OF assms(1,2,14), of q2] assms(10-13) by simp
qed

theorem shards_outlive_key_changes_witness:
  "\<exists>m shard M2. retrieve_key Debug (one_key_manager sample_crypto Debug Encryption) ''loader''
      \<lparr>kr_key_id = ''model-key'', kr_version = 1, kr_kind = Encryption\<rparr> 3 = Ok m \<and>
    encrypt_shard_at_rest sample_crypto sample_aead (as_bytes ''weights'') 2
      \<lparr>kr_key_id = ''model-key'', kr_version = 1, kr_kind = Encryption\<rparr> m 42 = Ok shard \<and>
    M2 = add_access_policy (one_key_manager sample_crypto Debug Encryption)
      \<lparr>kp_identity = ''auditor'', allowed_key_ids = {''model-key''}, allowed_kinds = {Tls}\<rparr> \<and>
    (\<exists>m2. retrieve_key Debug M2 ''auditor''
        \<lparr>kr_key_id = ''model-key'', kr_version = 1, kr_kind = Tls\<rparr> 37 = Ok m2 \<and>
      decrypt_shard_at_rest sample_crypto sample_aead shard
        \<lparr>kr_key_id = ''model-key'', kr_version = 1, kr_kind = Tls\<rparr> m2 = Ok (as_bytes ''weights''))"
proof -
  let ?M1 = "one_key_manager sample_crypto Debug Encryption"
  let ?q1 = "\<lparr>kr_key_id = ''model-key'', kr_version = 1, kr_kind = Encryption\<rparr>"
  let ?q2 = "\<lparr>kr_key_id = ''model-key'', kr_version = 1, kr_kind = Tls\<rparr>"
  let ?M2 = "add_access_policy ?M1
    \<lparr>kp_identity = ''auditor'', allowed_key_ids = {''model-key''}, allowed_kinds = {Tls}\<rparr>"
  let ?m = "derive_key_material sample_crypto ''model-key'' Encryption 1 42"
  have r1: "retrieve_key Debug ?M1 ''loader'' ?q1 3 = Ok ?m"
    using generated_key_served [OF policy_manager_simps(2) generate_model_key loader_authorized] by simp
  have auth: "authorize_key ?M2 ''auditor'' ?q2 = Ok ()"
    by (simp add: ok_iffs add_access_policy_def)
  have "km_rotation_policy ?M2 = \<lparr>rotate_every_days = 30, overlap_days = 7\<rparr>"
    by (simp add: add_access_policy_def)
  moreover obtain k where "lookup_key ?M1 ''model-key'' 1 = Some k \<and> \<not> mk_revoked k \<and> mk_material k = ?m \<and>
      mk_expires_day k = 30"
    by (simp add: lookup_key_def bucket_def one_key_manager_bucket model_key_def)
  ultimately have r2: "retrieve_key Debug ?M2 ''auditor'' ?q2 37 = Ok ?m"
    using auth by (simp add: retrieve_key_Ok_iff add_checked_def)
  have "length ?m = 32" by (simp add: derive_key_material_eq)
  then have "?m \<noteq> []" by auto
  then obtain shard where enc: "encrypt_shard_at_rest sample_crypto sample_aead (as_bytes ''weights'') 2 ?q1 ?m 42 = Ok shard"
    using encrypt_succeeds [OF sample_crypto_laws sample_aead_laws, of ?m "as_bytes ''weights''" 2 ?q1 42]
    by auto
  have "km_step sample_crypto Debug ?M1 ?M2" by (rule km_step.policy)
  then have "decrypt_shard_at_rest sample_crypto sample_aead shard ?q2 ?m = Ok (as_bytes ''weights'')"
    by (intro shards_outlive_key_changes [OF sample_crypto_laws sample_aead_laws policy_manager_reachable
          policy_manager_simps(2) generate_model_key rtranclp.rtrancl_refl _ r1 r2 _ _ _ _ enc]) auto
  with r1 r2 enc show ?thesis by blast
qed

section \<open>Manifests and encrypted shards together\<close>

lemma encrypted_shard_eta [simp]:
  "\<lparr>es_ciphertext = es_ciphertext s, es_metadata = es_metadata s\<rparr> = s"
  by (cases s) simp

lemma intact_sha256_payload:
  assumes "crypto_laws C" "shard_intact C read s"
    and "ms_digest s = \<lparr>ad_algorithm = ''sha256'', ad_hex = compute_shard_digest C bytes\<rparr>"
  shows "\<exists>stored. read (ms_path s) = Some stored \<and> (stored = bytes \<or> sha256_collision C [bytes, stored])"
  using assms
  by (auto simp: shard_intact_def digest_matches_def digest_sha256_def digest_sha512_def
      compute_shard_digest_def sha256_hex_def sha256_collision_def hex_codec.enc_array_inject [OF crypto_hex])

text \<open>
  C11: what a loaded manifest vouches for can be decrypted. When a manifest lists a shard under
  the digest that \<open>compute_shard_digest\<close> gives for an encrypted shard, and the manifest loads,
  then the bytes the store has under that path, put back with the metadata, decrypt to the
  plaintext under the key and reference of the encryption, unless these bytes and the
  ciphertext are a collision of SHA-256.
\<close>

theorem loaded_ciphertexts_decrypt:
  assumes "crypto_laws C" "aead_laws K"
    and "load C E ld m read = Ok loaded" "s \<in> set (mf_shards m)"
    and "encrypt_shard_at_rest C K plaintext tier r key seed = Ok shard"
    and "ms_digest s =
      \<lparr>ad_algorithm = ''sha256'', ad_hex = compute_shard_digest C (es_ciphertext shard)\<rparr>"
    and "kr_key_id q = kr_key_id r" "kr_version q = kr_version r"
  shows "\<exists>stored. read (ms_path s) = Some stored \<and>
    (decrypt_shard_at_rest C K \<lparr>es_ciphertext = stored, es_metadata = es_metadata shard\<rparr> q key = Ok plaintext \<or>
      sha256_collision C [es_ciphertext shard, stored])"
proof -
  have "shard_intact C read s" using assms(3,4) by (simp add: load_Ok_iff [OF assms(1)])
  from intact_sha256_payload [OF assms(1) this assms(6)] obtain stored where
    stored: "read (ms_path s) = Some stored"
      "stored = es_ciphertext shard \<or> sha256_collision C [es_ciphertext shard, stored]" by blast
  then show ?thesis using decrypt_encrypted [OF assms(1,2,5,7,8)] by auto
qed

theorem loaded_ciphertexts_decrypt_witness:
  "\<exists>shard m.
     encrypt_shard_at_rest sample_crypto sample_aead (as_bytes ''weights'') 1 sample_ref [1, 2, 3] 42 = Ok shard \<and>
     is_ok (load sample_crypto sample_ed25519 sample_loader m [''a.bin'' \<mapsto> es_ciphertext shard]) \<and>
     decrypt_shard_at_rest sample_crypto sample_aead shard sample_ref [1, 2, 3] = Ok (as_bytes ''weights'')"
proof -
  have "[1, 2, 3] \<noteq> ([] :: u8 list)" by simp
  from encrypt_succeeds [OF sample_crypto_laws sample_aead_laws this, of "as_bytes ''weights''" 1 sample_ref 42]
  obtain shard where
    enc: "encrypt_shard_at_rest sample_crypto sample_aead (as_bytes ''weights'') 1 sample_ref [1, 2, 3] 42 = Ok shard"
    and len: "length (es_ciphertext shard) = 23" by auto
  let ?arts = "[(''a.bin'', es_ciphertext shard)]"
  let ?m = "sample_manifest\<lparr>mf_shards := map (shard_for sample_crypto 1) ?arts\<rparr>"
  let ?signed = "signed_manifest sample_crypto sample_ed25519 ?m sample_keypair ''publisher''"
  let ?read = "[''a.bin'' \<mapsto> es_ciphertext shard]"
  have shape: "shape_ok ?m"
    by (simp add: shape_ok_def sample_manifest_def shard_for_def ascii_white_def len)
  have loads: "load sample_crypto sample_ed25519 sample_loader ?signed ?read =
      Ok \<lparr>lm_model_id = mf_model_id ?m, lm_loaded_tiers = mf_tiers ?m,
        lm_verified_shards = sort (map fst ?arts)\<rparr>"
    by (rule published_manifest_loads [OF sample_crypto_laws sample_ed25519_laws sample_keypair_def _ shape,
          where tier = "\<lambda>_. 1"])
      (simp_all add: sample_manifest_def sample_loader_def)
  have listed: "shard_for sample_crypto 1 (''a.bin'', es_ciphertext shard) \<in> set (mf_shards ?signed)"
    by (simp add: signed_manifest_def)
  have "\<exists>stored. ?read ''a.bin'' = Some stored \<and>
     (decrypt_shard_at_rest sample_crypto sample_aead
        \<lparr>es_ciphertext = stored, es_metadata = es_metadata shard\<rparr> sample_ref [1, 2, 3] = Ok (as_bytes ''weights'') \<or>
      sha256_collision sample_crypto [es_ciphertext shard, stored])"
    using loaded_ciphertexts_decrypt [OF sample_crypto_laws sample_aead_laws loads listed enc _ refl refl]
    by (simp add: shard_for_def digest_sha256_def compute_shard_digest_def sha256_hex_def)
  then have "decrypt_shard_at_rest sample_crypto sample_aead shard sample_ref [1, 2, 3] = Ok (as_bytes ''weights'')"
    by (simp add: sha256_collision_def)
  with enc loads show ?thesis
    by (intro exI [of _ shard] exI [of _ ?signed]) (simp add: is_ok_iff)
qed

section \<open>The tests of the crate\<close>

text \<open>
  The translated unit tests in one statement, in both build profiles, for every choice of the
  external crates that keeps their documented laws and every signing key that is drawn. The
  audit tampering test passes provided the two texts it hashes do not collide. For four tests
  the laws do not decide the outcome, and the statement says on what it depends: the tests
  with a flipped byte, a wrong key and two seeds pass exactly when AES-GCM has no coincidence
  of the kind they would meet, and the coverage test exactly when the single-precision
  quotient of its figures is above its bound. The header names the tests left out.
\<close>

theorem crate_tests:
  assumes "crypto_laws C" "hex_odd_law C" "ed25519_laws E" "aead_laws K" "zeroize_law Z"
    and "\<not> sha256_collision C (map as_bytes tamper_texts)"
  shows "hex_codec_test \<and>
    (retrieval_requires_authorization C bld \<and> rotation_creates_new_version C bld \<and>
      revoked_keys_are_rejected C bld) \<and>
    (append_and_verify_chain_succeeds C \<and> tamper_is_detected C) \<and>
    (load_succeeds_when_hash_and_signature_match C E drawn \<and>
      load_fails_on_signature_mismatch C E drawn \<and> load_fails_on_shard_corruption C E drawn \<and>
      load_fails_on_tier_mismatch C E drawn \<and> ed25519_sign_and_verify C E drawn) \<and>
    (aes_gcm_encryption_roundtrip C K \<and> tier_policy_maps_keys \<and> large_data_encryption C K \<and>
      encryption_roundtrip_any_input C K tier seed version) \<and>
    (tampered_ciphertext_is_rejected C K \<longleftrightarrow>
      (\<nexists>ct p. ciphertext_of K (as_bytes ''master-key-32-bytes!!!'') 2 42 (as_bytes ''secret-weights'') ct \<and>
        ciphertext_of K (as_bytes ''master-key-32-bytes!!!'') 2 42 p (ct[0 := ct ! 0 XOR 0xAB]))) \<and>
    (wrong_key_is_rejected C K \<longleftrightarrow>
      (\<nexists>ct p. ciphertext_of K (as_bytes ''master-key-32-bytes!!!'') 2 42 (as_bytes ''secret-data'') ct \<and>
        ciphertext_of K (as_bytes ''wrong-master-key-32-bytes!!!!'') 2 42 p ct)) \<and>
    (different_seeds_produce_different_ciphertexts C K \<longleftrightarrow>
      (\<nexists>ct. ciphertext_of K (as_bytes ''master-key-32-bytes!!!'') 1 1 (as_bytes ''same-plaintext'') ct \<and>
        ciphertext_of K (as_bytes ''master-key-32-bytes!!!'') 1 999 (as_bytes ''same-plaintext'') ct)) \<and>
    (capability_tokens_enforce_expiry_and_scope bld \<and> syscall_filter_blocks_disallowed_calls \<and>
      resource_limits_are_enforced) \<and>
    (allows_authorized_tier_access \<and> downgrades_when_tenant_not_allowed \<and>
      denies_when_action_role_missing \<and> lists_authorized_tiers_deterministically) \<and>
    (deny_policy_rejects_unsafe_blocks \<and> review_policy_requires_reviewed_unsafe_blocks \<and>
      ffi_audit_checks_layout_and_lifetimes \<and> fully_compliant_profile_is_accepted) \<and>
    (gdpr_report_flags_missing_controls \<and> hipaa_report_is_ready_when_controls_enabled) \<and>
    (incident_plan_has_all_phases \<and> (checklist_report_tracks_coverage F above_30 \<longleftrightarrow>
      above_30 (f32_div F (f32_mul F (f32_of_usize F 2) (f32_hundred F)) (f32_of_usize F 6)))) \<and>
    (byte_zeroization_overwrites_buffer Z \<and> sensitive_bytes_zeroize_trait_works \<and>
      session_zeroization_records_events Z \<and> f32_zeroization_works Z)"
  using assms
  by (intro conjI cipher_tests)
    (simp_all add: types_test key_management_tests audit_tests integrity_tests encryption_tests
      sandbox_tests access_control_tests memory_safety_tests compliance_tests hardening_tests
      zeroization_tests)

text \<open>A digest that keeps the last bytes of a message, for the application of the theorem.\<close>

definition tail_crypto :: crypto where
  "tail_crypto = sample_crypto\<lparr>sha256 := (\<lambda>m. array_pad (rev m))\<rparr>"

lemma tail_crypto_laws: "crypto_laws tail_crypto" "hex_odd_law tail_crypto"
proof -
  have "hex_dec_opt tail_crypto = hex_dec_opt sample_crypto"
    by (simp add: hex_dec_opt_def tail_crypto_def fun_eq_iff)
  then show "crypto_laws tail_crypto"
    using sample_crypto_laws by (simp add: crypto_laws_def) (simp add: tail_crypto_def)
  show "hex_odd_law tail_crypto"
    by (auto simp: hex_odd_law_def tail_crypto_def sample_crypto_def hex_decode_def odd_iff_mod_2_eq_one)
qed

lemma tail_crypto_tamper: "\<not> sha256_collision tail_crypto (map as_bytes tamper_texts)"
proof -
  have last: "take 1 (slice_of (sha256 tail_crypto (as_bytes (t @ [c])))) = [byte_of c]" for t c
    by (simp add: tail_crypto_def slice_of_array_pad as_bytes_def)
  obtain s t where texts: "tamper_texts = [s @ ''k'', t @ ''d'']"
    by (simp add: tamper_texts_def canonical_event_payload_def test_event_def)
  have "sha256 tail_crypto (as_bytes (s @ ''k'')) \<noteq> sha256 tail_crypto (as_bytes (t @ ''d''))"
    using last [of s "CHR ''k''"] last [of t "CHR ''d''"]
    by (auto simp: byte_of_def of_char_def)
  then show ?thesis by (auto simp: sha256_collision_def texts)
qed

theorem crate_tests_witness:
  "tamper_is_detected tail_crypto \<and>
   load_fails_on_signature_mismatch tail_crypto sample_ed25519 (array_pad [7]) \<and>
   large_data_encryption tail_crypto sample_aead \<and>
   session_zeroization_records_events (\<lambda>bs. replicate (length bs) 0)"
proof -
  have Z: "zeroize_law (\<lambda>bs. replicate (length bs) 0)" by (simp add: zeroize_law_def)
  note from_codec = crate_tests [OF tail_crypto_laws sample_ed25519_laws sample_aead_laws Z tail_crypto_tamper]
  note from_audit = from_codec [THEN conjunct2, THEN conjunct2]
  note from_encryption = from_audit [THEN conjunct2, THEN conjunct2]
  note from_sandbox = from_encryption [THEN conjunct2, THEN conjunct2, THEN conjunct2, THEN conjunct2]
  note from_zeroization =
    from_sandbox [THEN conjunct2, THEN conjunct2, THEN conjunct2, THEN conjunct2, THEN conjunct2]
  have "tamper_is_detected tail_crypto"
    by (rule from_audit [THEN conjunct1, THEN conjunct2])
  moreover have "load_fails_on_signature_mismatch tail_crypto sample_ed25519 (array_pad [7])"
    by (rule from_audit [THEN conjunct2, THEN conjunct1, THEN conjunct2, THEN conjunct1])
  moreover have "large_data_encryption tail_crypto sample_aead"
    by (rule from_encryption [THEN conjunct1, THEN conjunct2, THEN conjunct2, THEN conjunct1])
  moreover have "session_zeroization_records_events (\<lambda>bs. replicate (length bs) 0)"
    by (rule from_zeroization [THEN conjunct2, THEN conjunct2, THEN conjunct1])
  ultimately show ?thesis by blast
qed

end
